(* ===== verification/Prelude.thy ===== *)
theory Prelude
  imports Main "HOL-Library.AList"
begin

text \<open>
  Shared vocabulary of the development: Python dicts as association lists in insertion
  order, the string operations the sources use, errors as the left summand of a sum, and
  the lemma collections the component proofs draw on.
\<close>

named_theorems dict_simps \<open>facts on dicts kept as association lists in insertion order\<close>
named_theorems pass_simps \<open>facts on passes over the leaves of an agenda\<close>

section \<open>Python dicts\<close>

text \<open>
  A dict is an association list with distinct keys. Lookup is \<open>map_of\<close>; assignment is
  \<open>AList.update\<close>, which overwrites in place or appends, as a Python dict keeps the
  position of an existing key. \<open>dict_of\<close> is a dict display or comprehension: later pairs win.
\<close>

definition dict_of :: "('k \<times> 'v) list \<Rightarrow> ('k \<times> 'v) list" where
  "dict_of ps = fold (\<lambda>(k, v) d. AList.update k v d) ps []"

definition has_key :: "'k \<Rightarrow> ('k \<times> 'v) list \<Rightarrow> bool" where
  "has_key k d \<longleftrightarrow> map_of d k \<noteq> None"

definition get_or :: "('k \<times> 'v) list \<Rightarrow> 'k \<Rightarrow> 'v \<Rightarrow> 'v" where
  "get_or d k v = (case map_of d k of None \<Rightarrow> v | Some w \<Rightarrow> w)"

abbreviation keys :: "('k \<times> 'v) list \<Rightarrow> 'k list" where
  "keys d \<equiv> map fst d"

lemma map_of_update [simp, dict_simps]: "map_of (AList.update k v d) = (map_of d)(k \<mapsto> v)"
  by (simp add: update_conv')

lemma has_key_iff [dict_simps]: "has_key k d \<longleftrightarrow> k \<in> set (keys d)"
  by (auto simp: has_key_def map_of_eq_None_iff)

lemma fold_update_map_of:
  "map_of (fold (\<lambda>(k, v) d. AList.update k v d) ps d0) = map_of d0 ++ map_of (rev ps)"
proof (induction ps arbitrary: d0)
  case (Cons p ps)
  obtain k v where "p = (k, v)" by (cases p)
  with Cons show ?case by (auto simp: fun_eq_iff map_add_def split: option.splits)
qed simp

lemma map_of_dict_of [dict_simps]: "map_of (dict_of ps) = map_of (rev ps)"
  by (simp add: dict_of_def fold_update_map_of)

lemma distinct_fold_update:
  "distinct (keys d0) \<Longrightarrow> distinct (keys (fold (\<lambda>(k, v) d. AList.update k v d) ps d0))"
  by (induction ps arbitrary: d0) (auto simp: distinct_update)

lemma distinct_dict_of [simp]: "distinct (keys (dict_of ps))"
  by (simp add: dict_of_def distinct_fold_update)

lemma dict_of_SomeD: "map_of (dict_of ps) k = Some v \<Longrightarrow> (k, v) \<in> set ps"
  by (auto simp: map_of_dict_of dest: map_of_SomeD)

lemma dict_of_NoneD: "map_of (dict_of ps) k = None \<Longrightarrow> (k, v) \<notin> set ps"
  by (auto simp: map_of_dict_of map_of_eq_None_iff image_iff)

lemma map_of_dict_of_distinct:
  "distinct (keys ps) \<Longrightarrow> map_of (dict_of ps) = map_of ps"
  by (metis map_of_dict_of map_of_inject_set distinct_rev rev_map set_rev)

lemma update_set: "set (AList.update k v d) \<subseteq> insert (k, v) (set d)"
  by (induction d) auto

section \<open>Strings\<close>

text \<open>\<open>s.startswith(p)\<close>, \<open>sep.join(xs)\<close> and \<open>s.split(c)\<close>, as far as the sources use them.\<close>

fun starts_with :: "string \<Rightarrow> string \<Rightarrow> bool" where
  "starts_with [] s = True"
| "starts_with (c # p) [] = False"
| "starts_with (c # p) (d # s) = (c = d \<and> starts_with p s)"

fun join_str :: "string \<Rightarrow> string list \<Rightarrow> string" where
  "join_str sep [] = ''''"
| "join_str sep [x] = x"
| "join_str sep (x # y # zs) = x @ sep @ join_str sep (y # zs)"

fun split_on :: "char \<Rightarrow> string \<Rightarrow> string list" where
  "split_on c [] = [[]]"
| "split_on c (d # s) =
     (if d = c then [] # split_on c s
      else (case split_on c s of [] \<Rightarrow> [[d]] | w # ws \<Rightarrow> (d # w) # ws))"

definition replace_char :: "char \<Rightarrow> string \<Rightarrow> string \<Rightarrow> string" where
  "replace_char c r s = concat (map (\<lambda>d. if d = c then r else [d]) s)"

lemma starts_with_iff: "starts_with p s \<longleftrightarrow> (\<exists>t. s = p @ t)"
  by (induction p s rule: starts_with.induct) auto

lemma starts_with_append [simp]: "starts_with p (p @ t)"
  by (simp add: starts_with_iff)

lemma split_on_not_Nil [simp]: "split_on c s \<noteq> []"
  by (induction s) (auto split: list.splits)

lemma split_on_no_sep: "c \<notin> set s \<Longrightarrow> split_on c s = [s]"
  by (induction s) auto

lemma split_on_append_sep:
  "c \<notin> set w \<Longrightarrow> split_on c (w @ c # s) = w # split_on c s"
  by (induction w) auto

lemma split_on_parts: "w \<in> set (split_on c s) \<Longrightarrow> c \<notin> set w"
  by (induction s arbitrary: w) (auto split: if_splits list.splits)

lemma join_split: "join_str [c] (split_on c s) = s"
proof (induction s)
  case (Cons d s)
  obtain w ws where s: "split_on c s = w # ws"
    by (cases "split_on c s") auto
  with Cons show ?case by (cases ws) auto
qed simp

lemma split_on_inject: "split_on c s = split_on c t \<Longrightarrow> s = t"
  by (metis join_split)

lemma concat_map_char_inject:
  assumes inj: "\<And>x y u v. f x @ u = f y @ v \<Longrightarrow> x = y \<and> u = v" and ne: "\<And>x. f x \<noteq> []"
  shows "concat (map f s) = concat (map f t) \<Longrightarrow> s = t"
proof (induction s arbitrary: t)
  case Nil
  then show ?case using ne by (cases t) auto
next
  case (Cons x s)
  then obtain y t' where t: "t = y # t'" using ne by (cases t) auto
  with Cons.prems inj have "x = y" "concat (map f s) = concat (map f t')" by force+
  with Cons.IH t show ?case by blast
qed

section \<open>Errors\<close>

text \<open>A computation that may raise has type \<open>'e + 'a\<close>; \<open>bind_res\<close> stops at the first error.\<close>

definition bind_res :: "'e + 'a \<Rightarrow> ('a \<Rightarrow> 'e + 'b) \<Rightarrow> 'e + 'b" where
  "bind_res r f = (case r of Inl e \<Rightarrow> Inl e | Inr a \<Rightarrow> f a)"

lemma bind_res_simps [simp]: "bind_res (Inl e) f = Inl e" "bind_res (Inr a) f = f a"
  by (simp_all add: bind_res_def)

lemma bind_res_Inr_iff: "bind_res r f = Inr b \<longleftrightarrow> (\<exists>a. r = Inr a \<and> f a = Inr b)"
  by (cases r) auto

text \<open>A row of guards, each raising its own error: the first that fires is raised.\<close>

definition raise_if :: "bool \<Rightarrow> 'e \<Rightarrow> 'e option" where
  "raise_if c e = (if c then Some e else None)"

fun first_error :: "'e option list \<Rightarrow> 'e option" where
  "first_error [] = None"
| "first_error (Some e # gs) = Some e"
| "first_error (None # gs) = first_error gs"

lemma raise_if_None [simp]: "raise_if c e = None \<longleftrightarrow> \<not> c"
  by (simp add: raise_if_def)

lemma first_error_None: "first_error gs = None \<longleftrightarrow> (\<forall>g \<in> set gs. g = None)"
  by (induction gs rule: first_error.induct) auto

lemma first_error_SomeD: "first_error gs = Some e \<Longrightarrow> Some e \<in> set gs"
  by (induction gs rule: first_error.induct) auto

text \<open>Python truthiness of an optional string: \<open>None\<close> and the empty string are false.\<close>

definition truthy :: "string option \<Rightarrow> bool" where
  "truthy s = (case s of None \<Rightarrow> False | Some t \<Rightarrow> t \<noteq> '''')"

lemma truthy_iff: "truthy s \<longleftrightarrow> (\<exists>t. s = Some t \<and> t \<noteq> '''')"
  by (cases s) (auto simp: truthy_def)

end
