(* ===== verification/PyFloat.thy ===== *)
theory PyFloat
  imports Complex_Main Prelude
begin

text \<open>
  Python's \<open>float\<close>: IEEE 754 binary64 with round to nearest, ties to even. A finite value is
  kept as the rational it denotes; \<open>rnd\<close> rounds an exact result to the nearest binary64 value
  (subnormals and overflow to an infinity included), so every operation below is the exact
  operation followed by \<open>rnd\<close>, as the standard prescribes. Two things are left out: the sign of
  a zero (no comparison of the sources depends on it) and the payload of a NaN. Division by
  zero and overflow of a conversion raise in Python, so they are \<open>None\<close> here.
\<close>

datatype pyfloat = Fin rat | PInf | NInf | NaN

section \<open>Rounding to binary64\<close>

fun bitlen :: "nat \<Rightarrow> nat" where
  "bitlen n = (if n = 0 then 0 else Suc (bitlen (n div 2)))"

declare bitlen.simps [simp del]

definition pow2 :: "int \<Rightarrow> rat" where
  "pow2 k = (if 0 \<le> k then 2 ^ nat k else 1 / 2 ^ nat (- k))"

text \<open>\<open>ilog2 x\<close> is the exponent \<open>e\<close> with \<open>2^e \<le> |x| < 2^(e+1)\<close>, for \<open>x \<noteq> 0\<close>.\<close>

definition ilog2 :: "rat \<Rightarrow> int" where
  "ilog2 x = (let (p, q) = quotient_of x;
                  e = int (bitlen (nat \<bar>p\<bar>)) - int (bitlen (nat q))
              in if pow2 e \<le> \<bar>x\<bar> then e else e - 1)"

definition round_even :: "rat \<Rightarrow> int" where
  "round_even x = (let f = \<lfloor>x\<rfloor>; d = x - of_int f in
     if d < 1 / 2 then f else if 1 / 2 < d then f + 1 else if even f then f else f + 1)"

definition rnd :: "rat \<Rightarrow> pyfloat" where
  "rnd x = (if x = 0 then Fin 0
     else let u = max (ilog2 x - 52) (-1074);
              r = of_int (round_even (x / pow2 u)) * pow2 u
          in if 2 ^ 1024 \<le> r then PInf else if r \<le> - (2 ^ 1024) then NInf else Fin r)"

text \<open>\<open>float(n)\<close> of a Python integer; \<open>OverflowError\<close> is \<open>None\<close>.\<close>

definition float_of_int :: "int \<Rightarrow> pyfloat option" where
  "float_of_int n = (case rnd (of_int n) of Fin r \<Rightarrow> Some (Fin r) | _ \<Rightarrow> None)"

section \<open>Arithmetic\<close>

fun fadd :: "pyfloat \<Rightarrow> pyfloat \<Rightarrow> pyfloat" where
  "fadd (Fin a) (Fin b) = rnd (a + b)"
| "fadd NaN y = NaN"
| "fadd x NaN = NaN"
| "fadd PInf NInf = NaN"
| "fadd NInf PInf = NaN"
| "fadd PInf y = PInf"
| "fadd NInf y = NInf"
| "fadd x PInf = PInf"
| "fadd x NInf = NInf"

fun fneg :: "pyfloat \<Rightarrow> pyfloat" where
  "fneg (Fin a) = Fin (- a)"
| "fneg PInf = NInf"
| "fneg NInf = PInf"
| "fneg NaN = NaN"

definition fsub :: "pyfloat \<Rightarrow> pyfloat \<Rightarrow> pyfloat" where
  "fsub x y = fadd x (fneg y)"

fun fabs :: "pyfloat \<Rightarrow> pyfloat" where
  "fabs (Fin a) = Fin \<bar>a\<bar>"
| "fabs NaN = NaN"
| "fabs x = PInf"

definition finf :: "bool \<Rightarrow> pyfloat" where
  "finf neg = (if neg then NInf else PInf)"

fun fmul :: "pyfloat \<Rightarrow> pyfloat \<Rightarrow> pyfloat" where
  "fmul (Fin a) (Fin b) = rnd (a * b)"
| "fmul NaN y = NaN"
| "fmul x NaN = NaN"
| "fmul (Fin a) PInf = (if a = 0 then NaN else finf (a < 0))"
| "fmul (Fin a) NInf = (if a = 0 then NaN else finf (0 < a))"
| "fmul PInf (Fin b) = (if b = 0 then NaN else finf (b < 0))"
| "fmul NInf (Fin b) = (if b = 0 then NaN else finf (0 < b))"
| "fmul PInf PInf = PInf"
| "fmul PInf NInf = NInf"
| "fmul NInf PInf = NInf"
| "fmul NInf NInf = PInf"

text \<open>Python's \<open>/\<close> raises \<open>ZeroDivisionError\<close> on a zero divisor.\<close>

fun fdiv :: "pyfloat \<Rightarrow> pyfloat \<Rightarrow> pyfloat option" where
  "fdiv x (Fin b) = (if b = 0 then None else Some (case x of
      Fin a \<Rightarrow> rnd (a / b) | PInf \<Rightarrow> finf (b < 0) | NInf \<Rightarrow> finf (0 < b) | NaN \<Rightarrow> NaN))"
| "fdiv x NaN = Some NaN"
| "fdiv (Fin a) y = Some (Fin 0)"
| "fdiv x y = Some NaN"

section \<open>Comparison\<close>

text \<open>Every comparison with a NaN is false.\<close>

fun flt :: "pyfloat \<Rightarrow> pyfloat \<Rightarrow> bool" where
  "flt (Fin a) (Fin b) = (a < b)"
| "flt NaN y = False"
| "flt x NaN = False"
| "flt NInf NInf = False"
| "flt NInf y = True"
| "flt x PInf = (x \<noteq> PInf)"
| "flt x y = False"

definition feq :: "pyfloat \<Rightarrow> pyfloat \<Rightarrow> bool" where
  "feq x y \<longleftrightarrow> x \<noteq> NaN \<and> x = y"

definition fle :: "pyfloat \<Rightarrow> pyfloat \<Rightarrow> bool" where
  "fle x y \<longleftrightarrow> flt x y \<or> feq x y"

fun is_fin :: "pyfloat \<Rightarrow> bool" where
  "is_fin (Fin a) = True"
| "is_fin x = False"

text \<open>
  \<open>max(a, b)\<close> keeps its first argument unless the second is greater, so a NaN in second place
  is dropped; \<open>fmin2\<close> likewise.
\<close>

definition fmax2 :: "pyfloat \<Rightarrow> pyfloat \<Rightarrow> pyfloat" where
  "fmax2 a b = (if flt a b then b else a)"

definition fmin2 :: "pyfloat \<Rightarrow> pyfloat \<Rightarrow> pyfloat" where
  "fmin2 a b = (if flt b a then b else a)"

text \<open>
  \<open>math.isclose(a, b, abs_tol=t)\<close> with the default \<open>rel_tol=1e-09\<close>, which as a binary64 value
  is the rounding of \<open>1/10^9\<close>.
\<close>

definition rel_tol_default :: pyfloat where
  "rel_tol_default = rnd (1 / 10 ^ 9)"

definition isclose :: "pyfloat \<Rightarrow> pyfloat \<Rightarrow> pyfloat \<Rightarrow> bool" where
  "isclose a b abs_tol =
     (if feq a b then True
      else if a \<in> {PInf, NInf} \<or> b \<in> {PInf, NInf} then False
      else let diff = fabs (fsub b a) in
        fle diff (fabs (fmul rel_tol_default b)) \<or> fle diff (fabs (fmul rel_tol_default a))
        \<or> fle diff abs_tol)"

section \<open>Facts\<close>

lemma rnd_0 [simp]: "rnd 0 = Fin 0"
  by (simp add: rnd_def)

lemma pow2_pos [simp]: "0 < pow2 k"
  by (simp add: pow2_def)

lemma round_even_nonneg: "0 \<le> x \<Longrightarrow> 0 \<le> round_even x"
  by (auto simp: round_even_def Let_def)

lemma round_even_nonpos:
  assumes "x \<le> 0" shows "round_even x \<le> 0"
proof (cases "x = 0")
  case False
  with assms have "\<lfloor>x\<rfloor> \<le> -1" by (simp add: floor_le_iff)
  then show ?thesis by (auto simp: round_even_def Let_def)
qed (simp add: round_even_def)

lemma rnd_shape:
  assumes "x \<noteq> 0"
  obtains r u where "r = of_int (round_even (x / pow2 u)) * pow2 u"
    "rnd x = (if 2 ^ 1024 \<le> r then PInf else if r \<le> - (2 ^ 1024) then NInf else Fin r)"
  using assms unfolding rnd_def Let_def by auto

lemma rnd_nonneg_cases: "0 \<le> x \<Longrightarrow> rnd x = PInf \<or> (\<exists>r \<ge> 0. rnd x = Fin r)"
proof (cases "x = 0")
  case False
  assume x: "0 \<le> x"
  obtain r u where r: "r = of_int (round_even (x / pow2 u)) * pow2 u"
    "rnd x = (if 2 ^ 1024 \<le> r then PInf else if r \<le> - (2 ^ 1024) then NInf else Fin r)"
    using rnd_shape [OF False] by blast
  have "0 \<le> r" using r(1) round_even_nonneg [of "x / pow2 u"] x by (simp add: less_imp_le)
  moreover have "(0::rat) < 2 ^ 1024" by (rule zero_less_power) simp
  ultimately have "\<not> r \<le> - (2 ^ 1024)" by linarith
  with r(2) \<open>0 \<le> r\<close> show ?thesis by simp
qed simp

lemma rnd_nonpos_cases: "x \<le> 0 \<Longrightarrow> rnd x = NInf \<or> (\<exists>r \<le> 0. rnd x = Fin r)"
proof (cases "x = 0")
  case False
  assume x: "x \<le> 0"
  obtain r u where r: "r = of_int (round_even (x / pow2 u)) * pow2 u"
    "rnd x = (if 2 ^ 1024 \<le> r then PInf else if r \<le> - (2 ^ 1024) then NInf else Fin r)"
    using rnd_shape [OF False] by blast
  have "r \<le> 0" using r(1) round_even_nonpos [of "x / pow2 u"] x
    by (simp add: divide_nonpos_pos mult_nonpos_nonneg less_imp_le)
  moreover have "(0::rat) < 2 ^ 1024" by (rule zero_less_power) simp
  ultimately have "\<not> 2 ^ 1024 \<le> r" by linarith
  with r(2) \<open>r \<le> 0\<close> show ?thesis by simp
qed simp

lemma rnd_not_NaN [simp]: "rnd x \<noteq> NaN"
  using rnd_nonneg_cases [of x] rnd_nonpos_cases [of x] by (cases "0 \<le> x") auto

lemma flt_irrefl [simp]: "\<not> flt x x"
  by (cases x) auto

lemma flt_asym: "flt x y \<Longrightarrow> \<not> flt y x"
  by (cases x; cases y) auto

lemma flt_trans: "flt x y \<Longrightarrow> flt y z \<Longrightarrow> flt x z"
  by (cases x; cases y; cases z) auto

lemma flt_notNaN: "flt x y \<Longrightarrow> x \<noteq> NaN \<and> y \<noteq> NaN"
  by (cases x; cases y) auto

lemma not_flt: "x \<noteq> NaN \<Longrightarrow> y \<noteq> NaN \<Longrightarrow> \<not> flt x y \<longleftrightarrow> fle y x"
  by (cases x; cases y) (auto simp: fle_def feq_def)

lemma fle_refl: "x \<noteq> NaN \<Longrightarrow> fle x x"
  by (simp add: fle_def feq_def)

lemma fle_trans: "fle x y \<Longrightarrow> fle y z \<Longrightarrow> fle x z"
  by (auto simp: fle_def feq_def dest: flt_trans)

lemma fle_notNaN: "fle x y \<Longrightarrow> x \<noteq> NaN \<and> y \<noteq> NaN"
  by (auto simp: fle_def feq_def dest: flt_notNaN)

lemma fmax2_ge: "x \<noteq> NaN \<Longrightarrow> fle x (fmax2 x y)"
  by (auto simp: fmax2_def fle_def feq_def)

lemma fle_zero_iff: "fle (Fin 0) x \<longleftrightarrow> x = PInf \<or> (\<exists>r \<ge> 0. x = Fin r)"
  by (cases x) (auto simp: fle_def feq_def)

lemma fle_zero_rnd: "0 \<le> x \<Longrightarrow> fle (Fin 0) (rnd x)"
  using rnd_nonneg_cases [of x] by (simp add: fle_zero_iff)

lemma fadd_nonneg: "fle (Fin 0) x \<Longrightarrow> fle (Fin 0) y \<Longrightarrow> fle (Fin 0) (fadd x y)"
  by (auto simp: fle_zero_iff [of x] fle_zero_iff [of y] fle_zero_rnd) (auto simp: fle_zero_iff)

lemma fmul_nonneg:
  "fle (Fin 0) x \<Longrightarrow> fle (Fin 0) y \<Longrightarrow> is_fin x \<Longrightarrow> is_fin y \<Longrightarrow> fle (Fin 0) (fmul x y)"
  by (auto simp: fle_zero_iff [of x] fle_zero_iff [of y] fle_zero_rnd)

section \<open>Small integers are exact\<close>

lemma bitlen_0 [simp]: "bitlen 0 = 0"
  by (subst bitlen.simps) simp

lemma bitlen_Suc_0 [simp]: "bitlen (Suc 0) = 1"
  by (subst bitlen.simps) simp

lemma bitlen_bounds: "0 < n \<Longrightarrow> 2 ^ (bitlen n - 1) \<le> n \<and> n < 2 ^ bitlen n \<and> 0 < bitlen n"
proof (induction n rule: bitlen.induct)
  case (1 n)
  show ?case
  proof (cases "n div 2 = 0")
    case True
    with "1.prems" have "n = 1" by linarith
    then show ?thesis by simp
  next
    case False
    with "1.IH" "1.prems" have IH: "2 ^ (bitlen (n div 2) - 1) \<le> n div 2"
      "n div 2 < 2 ^ bitlen (n div 2)" "0 < bitlen (n div 2)" by auto
    have "2 * 2 ^ (bitlen (n div 2) - 1) = (2::nat) ^ bitlen (n div 2)"
      using IH(3) by (cases "bitlen (n div 2)") auto
    with IH(1) have "2 ^ bitlen (n div 2) \<le> n" by linarith
    moreover have "n < 2 * 2 ^ bitlen (n div 2)" using IH(2) by linarith
    ultimately show ?thesis using "1.prems" by (simp add: bitlen.simps [of n])
  qed
qed

lemma bitlen_le: "n < 2 ^ k \<Longrightarrow> bitlen n \<le> k"
proof (cases "n = 0")
  case False
  assume n: "n < 2 ^ k"
  from False have b: "2 ^ (bitlen n - 1) \<le> n" "0 < bitlen n"
    using bitlen_bounds [of n] by blast+
  from b(1) n have "(2::nat) ^ (bitlen n - 1) < 2 ^ k" by (rule le_less_trans)
  then have "bitlen n - 1 < k" by (rule power_less_imp_less_exp [rotated]) simp
  with b(2) show ?thesis by linarith
qed simp

lemma quotient_of_of_int [simp]: "quotient_of (of_int n) = (n, 1)"
  by (simp add: Rat.of_int_rat quotient_of_Fract)

lemma ilog2_int: "\<bar>n\<bar> < 2 ^ k \<Longrightarrow> ilog2 (of_int n) < int k"
proof -
  assume n: "\<bar>n\<bar> < 2 ^ k"
  then have "nat \<bar>n\<bar> < 2 ^ k" by (simp add: nat_less_iff)
  then have "bitlen (nat \<bar>n\<bar>) \<le> k" by (rule bitlen_le)
  then show ?thesis by (auto simp: ilog2_def Let_def)
qed

lemma round_even_int [simp]: "round_even (of_int n) = n"
  by (simp add: round_even_def)

lemma rnd_int_exact:
  assumes "\<bar>n\<bar> < 2 ^ 53" shows "rnd (of_int n) = Fin (of_int n)"
proof -
  let ?u = "max (ilog2 (of_int n) - 52) (-1074)"
  from ilog2_int [OF assms] have u: "?u \<le> 0" by auto
  define m :: int where "m = 2 ^ nat (- ?u)"
  have m: "(of_int n :: rat) / pow2 ?u = of_int (n * m)" "pow2 ?u = 1 / of_int m" "m \<noteq> 0"
    using u by (auto simp: pow2_def m_def max_def)
  have r: "of_int (round_even (of_int n / pow2 ?u)) * pow2 ?u = (of_int n :: rat)"
    unfolding m(1) round_even_int by (simp add: m(2,3))
  have "(2::int) ^ 53 \<le> 2 ^ 1024" by (rule power_increasing) auto
  with assms have n: "n < 2 ^ 1024" "- (2 ^ 1024) < n" by linarith+
  then have "(of_int n :: rat) < of_int (2 ^ 1024)" "of_int (- (2 ^ 1024)) < (of_int n :: rat)"
    by (simp_all only: of_int_less_iff)
  then have big: "\<not> 2 ^ 1024 \<le> (of_int n :: rat)" "\<not> (of_int n :: rat) \<le> - (2 ^ 1024)"
    by (simp_all only: of_int_power of_int_numeral of_int_minus not_le)
  show ?thesis
    unfolding rnd_def Let_def r using big by (simp only: if_False of_int_0_eq_iff if_cancel) simp
qed

lemma rnd_numeral [simp]:
  "(numeral w :: int) < 2 ^ 53 \<Longrightarrow> rnd (numeral w) = Fin (numeral w)"
  using rnd_int_exact [of "numeral w"] by simp

lemma rnd_1 [simp]: "rnd 1 = Fin 1"
  using rnd_int_exact [of 1] by simp

section \<open>Rounding is idempotent\<close>

lemma pow2_eq: "pow2 k = 2 powi k"
  by (simp add: pow2_def power_int_def field_simps)

lemma pow2_add: "pow2 (a + b) = pow2 a * pow2 b"
  by (simp add: pow2_eq power_int_add)

lemma pow2_mono: "a \<le> b \<Longrightarrow> pow2 a \<le> pow2 b"
  by (simp add: pow2_eq power_int_increasing)

lemma pow2_less_imp: "pow2 a < pow2 b \<Longrightarrow> a < b"
  using pow2_mono [of b a] by (meson not_le)

lemma pow2_nat [simp]: "pow2 (int n) = 2 ^ n"
  by (simp add: pow2_def)

lemma ilog2_spec:
  assumes "x \<noteq> 0" shows "pow2 (ilog2 x) \<le> \<bar>x\<bar> \<and> \<bar>x\<bar> < pow2 (ilog2 x + 1)"
proof -
  obtain p q where pq: "quotient_of x = (p, q)" by (cases "quotient_of x")
  then have x: "x = of_int p / of_int q" "0 < q" by (auto simp: quotient_of_div quotient_of_denom_pos)
  define P where "P = nat \<bar>p\<bar>"
  define Q where "Q = nat q"
  have pos: "0 < P" "0 < Q" using assms x by (auto simp: P_def Q_def)
  have ax: "\<bar>x\<bar> = of_nat P / of_nat Q" using x by (simp add: P_def Q_def)
  define a where "a = int (bitlen P)"
  define b where "b = int (bitlen Q)"
  have bound: "pow2 (int (bitlen n) - 1) \<le> of_nat n \<and> of_nat n < pow2 (int (bitlen n))" if "0 < n" for n
  proof -
    have i: "int (bitlen n) - 1 = int (bitlen n - 1)" using bitlen_bounds [OF that] by simp
    have "(of_nat (2 ^ (bitlen n - 1)) :: rat) \<le> of_nat n" "(of_nat n :: rat) < of_nat (2 ^ bitlen n)"
      using bitlen_bounds [OF that] by (simp_all only: of_nat_le_iff of_nat_less_iff)
    then show ?thesis unfolding i by simp
  qed
  have P: "pow2 (a - 1) \<le> of_nat P" "of_nat P < pow2 a" and Q: "pow2 (b - 1) \<le> of_nat Q" "of_nat Q < pow2 b"
    using bound [OF pos(1)] bound [OF pos(2)] by (simp_all add: a_def b_def)
  have "of_nat P < pow2 (a - b + 1) * of_nat Q"
  proof -
    have "of_nat P < pow2 (a - b + 1) * pow2 (b - 1)" using P(2) by (simp flip: pow2_add)
    also have "\<dots> \<le> pow2 (a - b + 1) * of_nat Q" using Q(1) by (simp add: mult_left_mono less_imp_le)
    finally show ?thesis .
  qed
  then have up: "\<bar>x\<bar> < pow2 (a - b + 1)" using pos ax by (simp add: divide_less_eq)
  have "pow2 (a - b - 1) * of_nat Q \<le> of_nat P"
  proof -
    have "pow2 (a - b - 1) * of_nat Q \<le> pow2 (a - b - 1) * pow2 b"
      using Q(2) by (simp add: mult_left_mono less_imp_le)
    also have "\<dots> = pow2 (a - 1)" by (simp flip: pow2_add add: algebra_simps)
    finally show ?thesis using P(1) by linarith
  qed
  then have lo: "pow2 (a - b - 1) \<le> \<bar>x\<bar>" using pos ax by (simp add: le_divide_eq)
  have "ilog2 x = (if pow2 (a - b) \<le> \<bar>x\<bar> then a - b else a - b - 1)"
    by (simp add: ilog2_def pq Let_def a_def b_def P_def Q_def)
  with up lo show ?thesis by auto
qed

lemma ilog2_le: "x \<noteq> 0 \<Longrightarrow> \<bar>x\<bar> < pow2 (k + 1) \<Longrightarrow> ilog2 x \<le> k"
  using ilog2_spec [of x] pow2_less_imp [of "ilog2 x" "k + 1"] by linarith

lemma round_even_le: "x \<le> of_int k \<Longrightarrow> round_even x \<le> k"
proof -
  assume x: "x \<le> of_int k"
  have "\<lfloor>x\<rfloor> \<le> k" using x by linarith
  moreover have "x = of_int k" if "\<lfloor>x\<rfloor> = k" using that x by linarith
  ultimately show ?thesis by (cases "\<lfloor>x\<rfloor> = k") (auto simp: round_even_def Let_def)
qed

lemma round_even_ge: "of_int k \<le> x \<Longrightarrow> k \<le> round_even x"
proof -
  assume "of_int k \<le> x"
  then have "k \<le> \<lfloor>x\<rfloor>" by (simp add: le_floor_iff)
  then show ?thesis by (auto simp: round_even_def Let_def)
qed

lemma pow2_nz: "pow2 k \<noteq> 0"
  using pow2_pos [of k] by linarith

lemma rnd_scaled_int:
  assumes "\<bar>m\<bar> < 2 ^ 53" "-1074 \<le> u" "m \<noteq> 0" and r: "r = of_int m * pow2 u"
    and "\<not> 2 ^ 1024 \<le> r" "\<not> r \<le> - (2 ^ 1024)"
  shows "rnd r = Fin r"
proof -
  have r0: "r \<noteq> 0" using assms(3) r pow2_nz [of u] by simp
  have "(of_int \<bar>m\<bar> :: rat) < of_int (2 ^ 53)" using assms(1) by (simp only: of_int_less_iff)
  then have "\<bar>r\<bar> < pow2 53 * pow2 u"
    using r pow2_pos [of u] by (simp add: abs_mult mult_strict_right_mono pow2_def)
  then have "\<bar>r\<bar> < pow2 (u + 52 + 1)" by (simp add: add.commute flip: pow2_add)
  then have "ilog2 r \<le> u + 52" using r0 by (rule ilog2_le [rotated])
  define v where "v = max (ilog2 r - 52) (-1074)"
  have "v \<le> u" using \<open>ilog2 r \<le> u + 52\<close> assms(2) by (simp add: v_def)
  define k where "k = nat (u - v)"
  have "pow2 u = 2 ^ k * pow2 v" using \<open>v \<le> u\<close> pow2_add [of "u - v" v]
    by (simp add: k_def pow2_def)
  then have "r / pow2 v = of_int (m * 2 ^ k)" using r pow2_nz [of v] by simp
  then have e: "of_int (round_even (r / pow2 v)) * pow2 v = r"
    using pow2_nz [of v] by (metis nonzero_mult_div_cancel_right round_even_int times_divide_eq_left)
  have "rnd r = (if 2 ^ 1024 \<le> r then PInf else if r \<le> - (2 ^ 1024) then NInf else Fin r)"
    using r0 e unfolding rnd_def Let_def v_def by (simp only: if_False)
  with assms(5,6) show ?thesis by (simp only: if_False)
qed

definition is_b64 :: "pyfloat \<Rightarrow> bool" where
  "is_b64 x = (case x of Fin r \<Rightarrow> rnd r = Fin r | _ \<Rightarrow> True)"

lemma rnd_is_b64 [simp]: "is_b64 (rnd x)"
proof (cases "x = 0")
  case False
  define u where "u = max (ilog2 x - 52) (-1074)"
  define m where "m = round_even (x / pow2 u)"
  define r where "r = of_int m * pow2 u"
  have rx: "rnd x = (if 2 ^ 1024 \<le> r then PInf else if r \<le> - (2 ^ 1024) then NInf else Fin r)"
    using False unfolding rnd_def Let_def r_def m_def u_def by (simp only: if_False)
  show ?thesis
  proof (cases "2 ^ 1024 \<le> r \<or> r \<le> - (2 ^ 1024)")
    case True
    with rx show ?thesis by (auto simp only: is_b64_def pyfloat.case if_True if_False split: if_splits)
  next
    case fin: False
    have "ilog2 x + 1 \<le> u + 53" by (simp add: u_def)
    from pow2_mono [OF this] have "\<bar>x\<bar> < pow2 (u + 53)" using ilog2_spec [OF False] by linarith
    then have "\<bar>x / pow2 u\<bar> \<le> of_int (2 ^ 53)"
    proof -
      have "\<bar>x\<bar> < pow2 u * 2 ^ 53" using \<open>\<bar>x\<bar> < pow2 (u + 53)\<close> pow2_nat [of 53] by (simp add: pow2_add)
      moreover have "\<bar>x / pow2 u\<bar> = \<bar>x\<bar> / pow2 u" using pow2_pos [of u] by (simp only: abs_divide abs_of_pos)
      ultimately show ?thesis using pow2_pos [of u] by (simp add: divide_le_eq mult.commute)
    qed
    then have "x / pow2 u \<le> of_int (2 ^ 53)" "of_int (- (2 ^ 53)) \<le> x / pow2 u"
      by (simp_all only: abs_le_iff of_int_minus minus_le_iff)
    then have "m \<le> 2 ^ 53" "- (2 ^ 53) \<le> m"
      unfolding m_def by (blast intro: round_even_le round_even_ge)+
    then have m: "\<bar>m\<bar> \<le> 2 ^ 53" by simp
    have u: "-1074 \<le> u" by (simp add: u_def)
    have "rnd r = Fin r"
    proof (cases "\<bar>m\<bar> = 2 ^ 53")
      case True
      have "r = of_int (sgn m * 2 ^ 52) * pow2 (u + 1)"
      proof -
        have "m = sgn m * 2 ^ 52 * 2" using True by (auto simp: sgn_if abs_if split: if_splits)
        then have "(of_int m :: rat) = of_int (sgn m * 2 ^ 52) * 2" by (metis of_int_mult of_int_numeral)
        moreover have "pow2 (u + 1) = 2 * pow2 u" using pow2_nat [of 1] by (simp add: pow2_add)
        ultimately show ?thesis by (simp only: r_def mult.assoc)
      qed
      then show ?thesis
        using fin True u by (intro rnd_scaled_int [of "sgn m * 2 ^ 52" "u + 1"]) (auto simp: sgn_if abs_mult)
    next
      case False
      show ?thesis
      proof (cases "m = 0")
        case True
        then show ?thesis by (simp add: r_def)
      next
        case m0: False
        show ?thesis using fin m False u m0
          by (intro rnd_scaled_int [of m u]) (simp_all only: r_def, auto)
      qed
    qed
    moreover from rx fin have "rnd x = Fin r" by (simp only: if_False de_Morgan_disj)
    ultimately show ?thesis by (simp only: is_b64_def pyfloat.case)
  qed
qed (simp add: is_b64_def)

lemma fadd_is_b64 [simp]: "is_b64 (fadd x y)"
  by (cases x; cases y) (simp_all add: is_b64_def [of PInf] is_b64_def [of NInf] is_b64_def [of NaN])

lemma fadd_zero: "is_b64 x \<Longrightarrow> fadd x (Fin 0) = x"
  by (cases x) (simp_all add: is_b64_def)

end
