(* ===== verification/AgendaBudget.thy ===== *)
theory AgendaBudget
  imports PyFloat
begin

text \<open>
  \<open>agenda/budget.py\<close>: the hard caps of an agenda, its consumed usage, and the admission check that
  every submission passes before it reaches the scheduler. The exception \<open>BudgetExceededError\<close> is a
  value of \<open>budget_error\<close>, one constructor per message of the source, holding the numbers the
  message prints.
\<close>

record budget =
  bg_max_core_hours :: "pyfloat option"
  bg_max_gpu_hours :: "pyfloat option"
  bg_max_concurrent_jobs :: "int option"
  bg_max_total_jobs :: "int option"
  bg_allowed_partitions :: "string list option"

record budget_usage =
  us_core_hours :: pyfloat
  us_gpu_hours :: pyfloat
  us_jobs_submitted :: int
  us_jobs_running :: int

record resource_request =
  rq_est_core_hours :: pyfloat
  rq_est_gpu_hours :: pyfloat
  rq_partition :: "string option"
  rq_is_gpu :: bool

definition no_budget :: budget where
  "no_budget = \<lparr>bg_max_core_hours = None, bg_max_gpu_hours = None, bg_max_concurrent_jobs = None,
     bg_max_total_jobs = None, bg_allowed_partitions = None\<rparr>"

definition no_usage :: budget_usage where
  "no_usage = \<lparr>us_core_hours = Fin 0, us_gpu_hours = Fin 0, us_jobs_submitted = 0, us_jobs_running = 0\<rparr>"

definition default_request :: resource_request where
  "default_request = \<lparr>rq_est_core_hours = Fin 0, rq_est_gpu_hours = Fin 0, rq_partition = None,
     rq_is_gpu = False\<rparr>"

datatype budget_error =
    JobBudgetExhausted int int
  | ConcurrencyCapReached int int
  | CoreHoursExhausted pyfloat pyfloat pyfloat
  | GpuHoursExhausted pyfloat pyfloat pyfloat
  | PartitionNotAllowed "string option" "string list"

text \<open>\<open>check_admission\<close>: \<open>None\<close> when the request is admitted, else the error raised.\<close>

definition check_admission :: "budget \<Rightarrow> budget_usage \<Rightarrow> resource_request \<Rightarrow> budget_error option" where
  "check_admission b u r = first_error
    [case bg_max_total_jobs b of None \<Rightarrow> None
     | Some cap \<Rightarrow> raise_if (us_jobs_submitted u + 1 > cap)
         (JobBudgetExhausted (us_jobs_submitted u) cap),
     case bg_max_concurrent_jobs b of None \<Rightarrow> None
     | Some cap \<Rightarrow> raise_if (us_jobs_running u + 1 > cap)
         (ConcurrencyCapReached (us_jobs_running u) cap),
     case bg_max_core_hours b of None \<Rightarrow> None
     | Some cap \<Rightarrow> raise_if (flt cap (fadd (us_core_hours u) (rq_est_core_hours r)))
         (CoreHoursExhausted (fsub cap (us_core_hours u)) (rq_est_core_hours r) cap),
     case bg_max_gpu_hours b of None \<Rightarrow> None
     | Some cap \<Rightarrow> raise_if (rq_is_gpu r \<and> flt cap (fadd (us_gpu_hours u) (rq_est_gpu_hours r)))
         (GpuHoursExhausted (fsub cap (us_gpu_hours u)) (rq_est_gpu_hours r) cap),
     case bg_allowed_partitions b of None \<Rightarrow> None
     | Some allowed \<Rightarrow> raise_if (rq_partition r \<notin> Some ` set allowed)
         (PartitionNotAllowed (rq_partition r) allowed)]"

text \<open>
  What an admitted request adds: \<open>planner.account\<close> charges its cost and counts one submission,
  \<open>next_actions\<close> then counts one job in flight.
\<close>

definition account :: "budget_usage \<Rightarrow> pyfloat \<Rightarrow> pyfloat \<Rightarrow> bool \<Rightarrow> budget_usage" where
  "account u core_hours gpu_hours is_gpu =
     u\<lparr>us_core_hours := fadd (us_core_hours u) core_hours,
       us_gpu_hours := fadd (us_gpu_hours u) (if is_gpu then gpu_hours else Fin 0),
       us_jobs_submitted := us_jobs_submitted u + 1\<rparr>"

definition charge :: "budget_usage \<Rightarrow> resource_request \<Rightarrow> budget_usage" where
  "charge u r = (let u' = account u (rq_est_core_hours r) (rq_est_gpu_hours r) (rq_is_gpu r)
     in u'\<lparr>us_jobs_running := us_jobs_running u' + 1\<rparr>)"

text \<open>\<open>planner.reconcile\<close>: an estimate replaced by the actual, never below zero.\<close>

definition reconcile :: "budget_usage \<Rightarrow> pyfloat \<Rightarrow> pyfloat option \<Rightarrow> pyfloat \<Rightarrow> pyfloat option \<Rightarrow> bool
    \<Rightarrow> budget_usage" where
  "reconcile u est_core actual_core est_gpu actual_gpu is_gpu =
     (let core = (case actual_core of None \<Rightarrow> us_core_hours u
                  | Some a \<Rightarrow> fadd (us_core_hours u) (fsub a est_core));
          gpu = (case actual_gpu of
                   Some a \<Rightarrow> if is_gpu then fadd (us_gpu_hours u) (fsub a est_gpu) else us_gpu_hours u
                 | None \<Rightarrow> us_gpu_hours u)
      in u\<lparr>us_core_hours := fmax2 (Fin 0) core, us_gpu_hours := fmax2 (Fin 0) gpu\<rparr>)"

section \<open>An admission gate\<close>

text \<open>
  The contract between a gate and the loop that charges what it admits: a request that is admitted
  keeps every cap when charged. A loop that charges only admitted requests then stays within the
  caps, whatever the requests and their order.
\<close>

fun run_gate :: "('u \<Rightarrow> 'r \<Rightarrow> bool) \<Rightarrow> ('u \<Rightarrow> 'r \<Rightarrow> 'u) \<Rightarrow> 'u \<Rightarrow> 'r list \<Rightarrow> 'u" where
  "run_gate admit chg u [] = u"
| "run_gate admit chg u (r # rs) = run_gate admit chg (if admit u r then chg u r else u) rs"

locale admission_gate =
  fixes admit :: "'u \<Rightarrow> 'r \<Rightarrow> bool"
    and chg :: "'u \<Rightarrow> 'r \<Rightarrow> 'u"
    and fits :: "'u \<Rightarrow> bool"
  assumes admitted_fits: "fits u \<Longrightarrow> admit u r \<Longrightarrow> fits (chg u r)"
begin

lemma run_fits: "fits u \<Longrightarrow> fits (run_gate admit chg u rs)"
  by (induction rs arbitrary: u) (auto intro: admitted_fits)

end

text \<open>The caps as a predicate: no quantity is above its cap.\<close>

definition within_budget :: "budget \<Rightarrow> budget_usage \<Rightarrow> bool" where
  "within_budget b u \<longleftrightarrow>
     (\<forall>cap. bg_max_total_jobs b = Some cap \<longrightarrow> us_jobs_submitted u \<le> cap) \<and>
     (\<forall>cap. bg_max_concurrent_jobs b = Some cap \<longrightarrow> us_jobs_running u \<le> cap) \<and>
     (\<forall>cap. bg_max_core_hours b = Some cap \<longrightarrow> \<not> flt cap (us_core_hours u)) \<and>
     (\<forall>cap. bg_max_gpu_hours b = Some cap \<longrightarrow> \<not> flt cap (us_gpu_hours u))"

definition admits :: "budget \<Rightarrow> budget_usage \<Rightarrow> resource_request \<Rightarrow> bool" where
  "admits b u r \<longleftrightarrow> check_admission b u r = None"

lemmas usage_defs = charge_def account_def reconcile_def Let_def

lemma charge_fields [simp]:
  "us_core_hours (charge u r) = fadd (us_core_hours u) (rq_est_core_hours r)"
  "us_gpu_hours (charge u r) = fadd (us_gpu_hours u) (if rq_is_gpu r then rq_est_gpu_hours r else Fin 0)"
  "us_jobs_submitted (charge u r) = us_jobs_submitted u + 1"
  "us_jobs_running (charge u r) = us_jobs_running u + 1"
  by (simp_all add: usage_defs)

lemma admits_iff:
  "admits b u r \<longleftrightarrow>
     (\<forall>cap. bg_max_total_jobs b = Some cap \<longrightarrow> us_jobs_submitted u + 1 \<le> cap) \<and>
     (\<forall>cap. bg_max_concurrent_jobs b = Some cap \<longrightarrow> us_jobs_running u + 1 \<le> cap) \<and>
     (\<forall>cap. bg_max_core_hours b = Some cap \<longrightarrow> \<not> flt cap (fadd (us_core_hours u) (rq_est_core_hours r))) \<and>
     (\<forall>cap. bg_max_gpu_hours b = Some cap \<longrightarrow> rq_is_gpu r \<longrightarrow>
        \<not> flt cap (fadd (us_gpu_hours u) (rq_est_gpu_hours r))) \<and>
     (\<forall>allowed. bg_allowed_partitions b = Some allowed \<longrightarrow> rq_partition r \<in> Some ` set allowed)"
  unfolding admits_def check_admission_def first_error_None
  by (auto split: option.splits)

text \<open>The usage of a campaign holds binary64 values: \<open>0.0\<close> at first, a rounded sum after each charge.\<close>

definition b64_usage :: "budget_usage \<Rightarrow> bool" where
  "b64_usage u \<longleftrightarrow> is_b64 (us_core_hours u) \<and> is_b64 (us_gpu_hours u)"

lemma b64_charge [simp]: "b64_usage (charge u r)"
  by (simp add: b64_usage_def)

lemma b64_no_usage [simp]: "b64_usage no_usage"
  by (simp add: b64_usage_def no_usage_def is_b64_def)

lemma charge_within:
  assumes "within_budget b u" "b64_usage u" "admits b u r"
  shows "within_budget b (charge u r)"
  using assms fadd_zero [of "us_gpu_hours u"]
  unfolding within_budget_def admits_iff b64_usage_def by auto

interpretation budget_gate: admission_gate "admits b" charge "\<lambda>u. within_budget b u \<and> b64_usage u" for b
  by unfold_locales (auto intro: charge_within)

text \<open>
  A negative estimate is admitted and lowers the usage, and a NaN estimate is admitted against every
  core-hour cap: \<open>ResourceRequest\<close> bounds neither.
\<close>

lemma nan_admitted:
  "bg_max_total_jobs b = None \<Longrightarrow> bg_max_concurrent_jobs b = None \<Longrightarrow> bg_allowed_partitions b = None \<Longrightarrow>
   \<not> rq_is_gpu r \<Longrightarrow> rq_est_core_hours r = NaN \<Longrightarrow> admits b u r"
proof -
  have "fadd x NaN = NaN" "\<not> flt y NaN" for x y by (cases x; cases y; simp)+
  then show "bg_max_total_jobs b = None \<Longrightarrow> bg_max_concurrent_jobs b = None \<Longrightarrow>
    bg_allowed_partitions b = None \<Longrightarrow> \<not> rq_is_gpu r \<Longrightarrow> rq_est_core_hours r = NaN \<Longrightarrow> admits b u r"
    by (simp add: admits_iff)
qed

lemma reconcile_nonneg:
  "fle (Fin 0) (us_core_hours (reconcile u ec ac eg ag g))"
  "fle (Fin 0) (us_gpu_hours (reconcile u ec ac eg ag g))"
  by (simp_all add: usage_defs fmax2_ge)

lemma reconcile_jobs [simp]:
  "us_jobs_submitted (reconcile u ec ac eg ag g) = us_jobs_submitted u"
  "us_jobs_running (reconcile u ec ac eg ag g) = us_jobs_running u"
  by (simp_all add: usage_defs)

end
