(* ===== verification/Json.thy ===== *)
theory Json
  imports PyFloat "HOL-Library.Multiset" "HOL-Library.List_Lexorder" "HOL-Library.Char_ord"
begin

text \<open>
  JSON values as Python holds them and \<open>json.dumps(v, sort_keys=True, separators=(",", ":"),
  ensure_ascii=True)\<close>, the canonical encoding that \<open>rcp/crypto.py\<close>, \<open>agenda/engine.py\<close> and
  \<open>agenda/provenance.py\<close> hash. Characters are the code points below 256. The decimal form of a
  float, \<open>float.__repr__\<close>, is the argument \<open>frepr\<close>; every other byte is computed here. The main
  result is that float-free values with sorted keys are read back uniquely from their encoding.
\<close>

datatype json =
    JNull
  | JBool bool
  | JInt int
  | JFloat pyfloat
  | JStr string
  | JList "json list"
  | JObj "(string \<times> json) list"

section \<open>Printing\<close>

definition digit_char :: "nat \<Rightarrow> char" where
  "digit_char d = char_of (48 + d)"

fun show_nat :: "nat \<Rightarrow> string" where
  "show_nat n = (if n < 10 then [digit_char n] else show_nat (n div 10) @ [digit_char (n mod 10)])"

declare show_nat.simps [simp del]

definition show_int :: "int \<Rightarrow> string" where
  "show_int i = (if i < 0 then CHR ''-'' # show_nat (nat (- i)) else show_nat (nat i))"

definition hex_char :: "nat \<Rightarrow> char" where
  "hex_char d = (if d < 10 then char_of (48 + d) else char_of (87 + d))"

text \<open>One character of a JSON string literal, as \<open>json.encoder.py_encode_basestring_ascii\<close> writes it.\<close>

definition escape_char :: "char \<Rightarrow> string" where
  "escape_char c =
     (if c = CHR 0x22 then [CHR 0x5C, CHR 0x22]
      else if c = CHR 0x5C then [CHR 0x5C, CHR 0x5C]
      else if c = CHR 0x0A then [CHR 0x5C, CHR ''n'']
      else if c = CHR 0x0D then [CHR 0x5C, CHR ''r'']
      else if c = CHR 0x09 then [CHR 0x5C, CHR ''t'']
      else if c = CHR 0x0C then [CHR 0x5C, CHR ''f'']
      else if c = CHR 0x08 then [CHR 0x5C, CHR ''b'']
      else if 32 \<le> (of_char c :: nat) \<and> (of_char c :: nat) < 127 then [c]
      else [CHR 0x5C, CHR ''u'', CHR ''0'', CHR ''0'',
            hex_char (of_char c div 16), hex_char (of_char c mod 16)])"

definition json_string :: "string \<Rightarrow> string" where
  "json_string s = CHR 0x22 # concat (map escape_char s) @ [CHR 0x22]"

fun dumps_raw :: "(pyfloat \<Rightarrow> string) \<Rightarrow> json \<Rightarrow> string" where
  "dumps_raw frepr JNull = ''null''"
| "dumps_raw frepr (JBool b) = (if b then ''true'' else ''false'')"
| "dumps_raw frepr (JInt i) = show_int i"
| "dumps_raw frepr (JFloat f) = frepr f"
| "dumps_raw frepr (JStr s) = json_string s"
| "dumps_raw frepr (JList vs) = ''['' @ join_str '','' (map (dumps_raw frepr) vs) @ '']''"
| "dumps_raw frepr (JObj kvs) =
     ''{'' @ join_str '','' (map (\<lambda>(k, v). json_string k @ '':'' @ dumps_raw frepr v) kvs) @ ''}''"

fun sort_json :: "json \<Rightarrow> json" where
  "sort_json (JList vs) = JList (map sort_json vs)"
| "sort_json (JObj kvs) = JObj (sort_key fst (map (\<lambda>(k, v). (k, sort_json v)) kvs))"
| "sort_json v = v"

definition json_dumps :: "(pyfloat \<Rightarrow> string) \<Rightarrow> json \<Rightarrow> string" where
  "json_dumps frepr v = dumps_raw frepr (sort_json v)"

section \<open>Well-formed and float-free values\<close>

text \<open>A Python dict has distinct keys, at every level.\<close>

fun wf_json :: "json \<Rightarrow> bool" where
  "wf_json (JList vs) = list_all wf_json vs"
| "wf_json (JObj kvs) = (distinct (keys kvs) \<and> list_all (\<lambda>(k, v). wf_json v) kvs)"
| "wf_json v = True"

fun float_free :: "json \<Rightarrow> bool" where
  "float_free (JList vs) = list_all float_free vs"
| "float_free (JObj kvs) = list_all (\<lambda>(k, v). float_free v) kvs"
| "float_free (JFloat f) = False"
| "float_free v = True"

text \<open>Two values are the same up to the order of dict keys.\<close>

definition json_eq :: "json \<Rightarrow> json \<Rightarrow> bool" where
  "json_eq v w \<longleftrightarrow> sort_json v = sort_json w"

lemma json_eq_refl [simp]: "json_eq v v"
  by (simp add: json_eq_def)

lemma json_eq_sym: "json_eq v w \<Longrightarrow> json_eq w v"
  by (simp add: json_eq_def)

lemma json_eq_dumps: "json_eq v w \<Longrightarrow> json_dumps frepr v = json_dumps frepr w"
  by (simp add: json_eq_def json_dumps_def)

lemma float_free_sort [simp]: "float_free (sort_json v) = float_free v"
  by (induction v) (auto simp: list_all_iff)

text \<open>Key order does not matter: permuting a dict with distinct keys keeps the encoding.\<close>

lemma filter_key_single:
  "distinct (map fst xs) \<Longrightarrow> k \<in> set xs \<Longrightarrow> filter (\<lambda>x. fst k = fst x) xs = [k]"
proof (induction xs)
  case (Cons x xs)
  then show ?case
    by (cases "k = x") (auto simp: image_iff filter_empty_conv)
qed simp

lemma sort_key_mset_eq:
  fixes xs ys :: "(string \<times> 'a) list"
  assumes m: "mset xs = mset ys" and d: "distinct (map fst xs)"
  shows "sort_key fst xs = sort_key fst ys"
proof (rule properties_for_sort_key [symmetric])
  show "mset (sort_key fst xs) = mset ys" using m by simp
  show "sorted (map fst (sort_key fst xs))" by simp
  have "mset (map fst xs) = mset (map fst ys)" using m by simp
  with d have dy: "distinct (map fst ys)" by (metis mset_eq_imp_distinct_iff)
  have "mset (map fst (sort_key fst xs)) = mset (map fst xs)" by simp
  with d have ds: "distinct (map fst (sort_key fst xs))" by (metis mset_eq_imp_distinct_iff)
  fix k assume "k \<in> set (sort_key fst xs)"
  then have "k \<in> set ys" using m by (metis mset_eq_setD set_sort)
  with dy ds \<open>k \<in> set (sort_key fst xs)\<close>
  show "filter (\<lambda>x. fst k = fst x) (sort_key fst xs) = filter (\<lambda>x. fst k = fst x) ys"
    by (simp only: filter_key_single)
qed

lemma json_eq_permute:
  assumes "mset kvs = mset kvs'" "distinct (keys kvs)"
  shows "json_eq (JObj kvs) (JObj kvs')"
proof -
  let ?f = "\<lambda>(k, v). (k, sort_json v)"
  have "mset (map ?f kvs) = mset (map ?f kvs')" using assms(1) by simp
  moreover have "map fst (map ?f kvs) = keys kvs" by auto
  with assms(2) have "distinct (map fst (map ?f kvs))" by (simp only:)
  ultimately show ?thesis unfolding json_eq_def sort_json.simps by (simp only: sort_key_mset_eq)
qed

section \<open>The encoding is read back uniquely\<close>

text \<open>What may follow a value: the end of the text, a comma or a closing bracket.\<close>

definition delim :: "string \<Rightarrow> bool" where
  "delim s \<longleftrightarrow> (case s of [] \<Rightarrow> True | c # _ \<Rightarrow> c \<in> set '',]}'')"

definition is_digit :: "char \<Rightarrow> bool" where
  "is_digit c \<longleftrightarrow> (of_char c :: nat) \<in> {48..57}"

lemma of_char_digit [simp]: "d < 10 \<Longrightarrow> of_char (digit_char d) = (48 + d :: nat)"
  by (simp add: digit_char_def of_char_of take_bit_nat_eq_self)

lemma digit_char_inject: "d < 10 \<Longrightarrow> e < 10 \<Longrightarrow> digit_char d = digit_char e \<longleftrightarrow> d = e"
  by (metis add_left_cancel of_char_digit)

lemma is_digit_char [simp]: "d < 10 \<Longrightarrow> is_digit (digit_char d)"
  by (simp add: is_digit_def)

lemma show_nat_not_Nil [simp]: "show_nat n \<noteq> []"
  by (subst show_nat.simps) simp

lemma show_nat_digits: "\<forall>c \<in> set (show_nat n). is_digit c"
proof (induction n rule: show_nat.induct)
  case (1 n)
  then show ?case by (cases "n < 10") (auto simp: show_nat.simps [of n])
qed

lemma show_nat_inject: "show_nat m = show_nat n \<Longrightarrow> m = n"
proof (induction m arbitrary: n rule: show_nat.induct)
  case (1 m)
  show ?case
  proof (cases "m < 10")
    case True
    with "1.prems" show ?thesis
      by (cases "n < 10") (auto simp: show_nat.simps [of m] show_nat.simps [of n] digit_char_inject
        Cons_eq_append_conv)
  next
    case False
    with "1.prems" have n: "\<not> n < 10"
      by (auto simp: show_nat.simps [of m] show_nat.simps [of n])
    with False "1.prems" have "show_nat (m div 10) = show_nat (n div 10)" "m mod 10 = n mod 10"
      by (auto simp: show_nat.simps [of m] show_nat.simps [of n] digit_char_inject)
    with "1.IH" [OF False] have "m div 10 = n div 10" by blast
    with \<open>m mod 10 = n mod 10\<close> show ?thesis by (metis mult_div_mod_eq)
  qed
qed

lemma digits_unique:
  assumes "\<forall>c \<in> set s. is_digit c" "\<forall>c \<in> set t. is_digit c"
    and "x = [] \<or> \<not> is_digit (hd x)" "y = [] \<or> \<not> is_digit (hd y)" "s @ x = t @ y"
  shows "s = t \<and> x = y"
proof -
  have tw: "takeWhile is_digit (u @ z) = u"
    if "\<forall>c \<in> set u. is_digit c" "z = [] \<or> \<not> is_digit (hd z)" for u z
    using that by (cases z) (simp_all add: takeWhile_append2)
  from assms tw have "s = t" by metis
  with assms(5) show ?thesis by simp
qed

lemma delim_not_digit: "delim x \<Longrightarrow> x = [] \<or> \<not> is_digit (hd x)"
  by (auto simp: delim_def is_digit_def split: list.splits)

lemma show_nat_unique:
  "delim x \<Longrightarrow> delim y \<Longrightarrow> show_nat m @ x = show_nat n @ y \<Longrightarrow> m = n \<and> x = y"
  using digits_unique [OF show_nat_digits show_nat_digits delim_not_digit delim_not_digit]
    show_nat_inject by metis

lemma show_nat_hd: "is_digit (hd (show_nat n))"
  using show_nat_digits [of n] by (cases "show_nat n") auto

lemma show_int_hd: "show_int i \<noteq> [] \<and> (is_digit (hd (show_int i)) \<or> hd (show_int i) = CHR ''-'')"
  by (simp add: show_int_def show_nat_hd)

lemma show_int_unique:
  assumes "delim x" "delim y" "show_int i @ x = show_int j @ y" shows "i = j \<and> x = y"
proof -
  have m: "show_nat n @ u \<noteq> CHR ''-'' # v" for n u v
    using show_nat_hd [of n] by (cases "show_nat n") (auto simp: is_digit_def)
  have m': "CHR ''-'' # v \<noteq> show_nat n @ u" for n u v
    using m [of n u v] by metis
  consider "i < 0" "j < 0" | "0 \<le> i" "0 \<le> j" | "i < 0" "0 \<le> j" | "0 \<le> i" "j < 0" by linarith
  then show ?thesis
  proof cases
    case 1
    with assms(3) have "show_nat (nat (- i)) @ x = show_nat (nat (- j)) @ y" by (simp add: show_int_def)
    with show_nat_unique [OF assms(1,2)] have "nat (- i) = nat (- j)" "x = y" by blast+
    with 1 show ?thesis by simp
  next
    case 2
    with assms(3) have "show_nat (nat i) @ x = show_nat (nat j) @ y" by (simp add: show_int_def)
    with show_nat_unique [OF assms(1,2)] have "nat i = nat j" "x = y" by blast+
    with 2 show ?thesis by simp
  qed (use assms(3) m m' in \<open>simp_all add: show_int_def\<close>)
qed

lemma hex_char_inject: "d < 16 \<Longrightarrow> e < 16 \<Longrightarrow> hex_char d = hex_char e \<longleftrightarrow> d = e"
proof -
  have v: "(of_char (hex_char d) :: nat) = (if d < 10 then 48 + d else 87 + d)" if "d < 16" for d
    using that by (auto simp: hex_char_def of_char_of take_bit_nat_eq_self)
  assume d: "d < 16" and e: "e < 16"
  show ?thesis
  proof
    assume "hex_char d = hex_char e"
    then have "(if d < 10 then 48 + d else 87 + d) = (if e < 10 then 48 + e else 87 + e)"
      using v [OF d] v [OF e] by simp
    with d e show "d = e" by (simp split: if_splits)
  qed simp
qed

lemma of_char_hex_inject:
  assumes "(of_char c :: nat) div 16 = of_char d div 16" "(of_char c :: nat) mod 16 = of_char d mod 16"
  shows "c = d"
proof -
  have "a = b" if "a div 16 = b div 16" "a mod 16 = b mod 16" for a b :: nat
    using that by (metis div_mult_mod_eq)
  then have "(of_char c :: nat) = of_char d" using assms .
  then show ?thesis by (simp only: of_char_eq_iff)
qed

lemma escape_hex_inject:
  "hex_char (of_char c div 16) = hex_char (of_char d div 16) \<Longrightarrow>
   hex_char (of_char c mod 16) = hex_char (of_char d mod 16) \<Longrightarrow> c = d"
proof -
  have b: "(of_char c :: nat) div 16 < 16" for c :: char
    using nat_of_char_less_256 [of c] by (intro less_mult_imp_div_less) simp
  assume h: "hex_char (of_char c div 16) = hex_char (of_char d div 16)"
    "hex_char (of_char c mod 16) = hex_char (of_char d mod 16)"
  show "c = d"
  proof (rule of_char_hex_inject)
    show "(of_char c :: nat) div 16 = of_char d div 16"
      using h(1) by (simp only: hex_char_inject [OF b b])
    show "(of_char c :: nat) mod 16 = of_char d mod 16"
      using h(2) hex_char_inject [of "of_char c mod 16" "of_char d mod 16"] by simp
  qed
qed

lemma escape_char_unique: "escape_char c @ x = escape_char d @ y \<Longrightarrow> c = d \<and> x = y"
  by (auto simp: escape_char_def split: if_splits dest: escape_hex_inject)

lemma escape_char_hd: "escape_char c \<noteq> [] \<and> hd (escape_char c) \<noteq> CHR 0x22"
  by (simp add: escape_char_def)

lemma json_string_unique:
  "json_string s @ x = json_string t @ y \<Longrightarrow> s = t \<and> x = y"
proof -
  have "concat (map escape_char s) @ CHR 0x22 # x = concat (map escape_char t) @ CHR 0x22 # y
    \<Longrightarrow> s = t \<and> x = y"
  proof (induction s arbitrary: t)
    case Nil
    have "CHR 0x22 # x \<noteq> escape_char d @ u" for d u
      using escape_char_hd [of d] by (cases "escape_char d") auto
    with Nil show ?case by (cases t) auto
  next
    case (Cons c s)
    show ?case
    proof (cases t)
      case Nil
      with Cons.prems show ?thesis using escape_char_hd [of c] by (auto simp: append_eq_Cons_conv)
    next
      case (Cons d t')
      with Cons.prems have "c = d"
        "concat (map escape_char s) @ CHR 0x22 # x = concat (map escape_char t') @ CHR 0x22 # y"
        using escape_char_unique by auto
      with Cons.IH Cons show ?thesis by blast
    qed
  qed
  then show "json_string s @ x = json_string t @ y \<Longrightarrow> s = t \<and> x = y"
    by (simp add: json_string_def)
qed

text \<open>
  A comma-separated sequence is read back uniquely when its elements are; \<open>z\<close> is the closing
  bracket, and no element starts with a delimiter.
\<close>

lemma join_unique:
  assumes el: "\<And>a b x y. a \<in> set as \<Longrightarrow> b \<in> set bs \<Longrightarrow> delim x \<Longrightarrow> delim y \<Longrightarrow> p a @ x = p b @ y
      \<Longrightarrow> a = b \<and> x = y"
    and hd: "\<And>a. p a \<noteq> [] \<and> hd (p a) \<notin> set '',]}''" and z: "z \<in> set '']}''"
    and eq: "join_str '','' (map p as) @ z # x = join_str '','' (map p bs) @ z # y"
  shows "as = bs \<and> x = y"
proof -
  have nd: "delim (z # u)" "delim ('','' @ u)" "z \<noteq> CHR '',''" for u using z by (auto simp: delim_def)
  have clash: "z # x' \<noteq> p b @ u" for x' b u
    using hd [of b] z by (cases "p b") auto
  have tail: "\<exists>u. join_str '','' (map p (b # cs)) @ w = p b @ u" for b cs w
    by (cases cs) auto
  from el eq show ?thesis
  proof (induction as arbitrary: bs)
    case Nil
    show ?case
    proof (cases bs)
      case (Cons b cs)
      obtain u where "join_str '','' (map p bs) @ z # y = p b @ u" using tail Cons by blast
      with Nil clash [of x b u] show ?thesis by simp
    qed (use Nil in simp)
  next
    case (Cons a as)
    show ?case
    proof (cases bs)
      case Nil
      obtain u where "join_str '','' (map p (a # as)) @ z # x = p a @ u" using tail by blast
      with Nil Cons.prems(2) clash [of y a u] show ?thesis by simp
    next
      case bs: (Cons b bs')
      show ?thesis
      proof (cases as)
        case as: Nil
        show ?thesis
        proof (cases bs')
          case Nil
          with Cons.prems(1) [of a b "z # x" "z # y"] Cons.prems(2) bs as nd show ?thesis by auto
        next
          case (Cons b2 bs2)
          with Cons.prems(1) [of a b "z # x" "'','' @ join_str '','' (map p bs') @ z # y"]
            Cons.prems(2) bs as nd show ?thesis by auto
        qed
      next
        case as: (Cons a2 as2)
        show ?thesis
        proof (cases bs')
          case Nil
          with Cons.prems(1) [of a b "'','' @ join_str '','' (map p as) @ z # x" "z # y"] Cons.prems(2) bs as nd
          show ?thesis by auto
        next
          case (Cons b2 bs2)
          with Cons.prems(1) [of a b "'','' @ join_str '','' (map p as) @ z # x"
              "'','' @ join_str '','' (map p bs') @ z # y"] Cons.prems(2) bs as nd
          have "a = b" "join_str '','' (map p as) @ z # x = join_str '','' (map p bs') @ z # y" by auto
          with Cons.IH [of bs'] Cons.prems(1) bs show ?thesis by auto
        qed
      qed
    qed
  qed
qed

text \<open>The first character tells the kinds of value apart.\<close>

lemma dumps_hd:
  "float_free v \<Longrightarrow> dumps_raw frepr v \<noteq> [] \<and> hd (dumps_raw frepr v) \<notin> set '',]}''"
proof (cases v)
  case (JInt i)
  then show ?thesis using show_int_hd [of i] by (auto simp: is_digit_def)
qed (auto simp: json_string_def)

datatype token_kind = KNull | KTrue | KFalse | KInt | KStr | KList | KObj

definition kind_of_char :: "char \<Rightarrow> token_kind" where
  "kind_of_char c = (if c = CHR ''n'' then KNull else if c = CHR ''t'' then KTrue
     else if c = CHR ''f'' then KFalse else if c = CHR 0x22 then KStr else if c = CHR ''['' then KList
     else if c = CHR ''{'' then KObj else KInt)"

fun json_kind :: "json \<Rightarrow> token_kind" where
  "json_kind JNull = KNull"
| "json_kind (JBool b) = (if b then KTrue else KFalse)"
| "json_kind (JInt i) = KInt"
| "json_kind (JFloat f) = KInt"
| "json_kind (JStr s) = KStr"
| "json_kind (JList vs) = KList"
| "json_kind (JObj kvs) = KObj"

lemma dumps_kind: "float_free v \<Longrightarrow> kind_of_char (hd (dumps_raw frepr v)) = json_kind v"
proof (cases v)
  case (JInt i)
  then show ?thesis using show_int_hd [of i] by (auto simp: kind_of_char_def is_digit_def)
qed (auto simp: kind_of_char_def json_string_def)

lemma dumps_kind_eq:
  assumes "float_free v" "float_free w" "dumps_raw frepr v @ x = dumps_raw frepr w @ y"
  shows "json_kind v = json_kind w"
proof -
  have "hd (dumps_raw frepr v) = hd (dumps_raw frepr w)"
    using assms dumps_hd [of v frepr] dumps_hd [of w frepr] by (metis hd_append2)
  with assms(1,2) dumps_kind show ?thesis by metis
qed

lemma dumps_raw_unique:
  assumes "float_free v" "float_free w" "delim x" "delim y"
    "dumps_raw frepr v @ x = dumps_raw frepr w @ y"
  shows "v = w \<and> x = y"
  using assms
proof (induction v arbitrary: w x y)
  case (JInt i)
  with dumps_kind_eq [of "JInt i" w frepr x y] obtain j where "w = JInt j"
    by (cases w) (auto split: if_splits)
  with JInt.prems show ?case using show_int_unique [of x y i j] by simp
next
  case (JStr s)
  with dumps_kind_eq [of "JStr s" w frepr x y] obtain t where "w = JStr t"
    by (cases w) (auto split: if_splits)
  with JStr.prems show ?case using json_string_unique [of s x t y] by simp
next
  case (JList vs)
  with dumps_kind_eq [of "JList vs" w frepr x y] obtain ws where w: "w = JList ws"
    by (cases w) (auto split: if_splits)
  let ?p = "\<lambda>v. if float_free v then dumps_raw frepr v else ''?''"
  have m: "map ?p us = map (dumps_raw frepr) us" if "list_all float_free us" for us
    using that by (auto simp: list_all_iff)
  have "vs = ws \<and> x = y"
  proof (rule join_unique [where p = ?p and z = "CHR '']''"])
    show "?p a \<noteq> [] \<and> hd (?p a) \<notin> set '',]}''" for a using dumps_hd [of a frepr] by auto
    show "join_str '','' (map ?p vs) @ CHR '']'' # x = join_str '','' (map ?p ws) @ CHR '']'' # y"
    proof -
      from JList.prems(1,2) w have "map ?p vs = map (dumps_raw frepr) vs"
        "map ?p ws = map (dumps_raw frepr) ws" by (simp_all only: m float_free.simps)
      with JList.prems(5) w show ?thesis by (simp only: dumps_raw.simps append.simps append_assoc list.inject)
    qed
    show "a = b \<and> x' = y'" if "a \<in> set vs" "b \<in> set ws" "delim x'" "delim y'" "?p a @ x' = ?p b @ y'"
      for a b x' y'
      using JList.IH [of a b x' y'] JList.prems(1,2) w that by (auto simp: list_all_iff)
  qed simp
  with w show ?case by simp
next
  case (JObj vs)
  with dumps_kind_eq [of "JObj vs" w frepr x y] obtain ws where w: "w = JObj ws"
    by (cases w) (auto split: if_splits)
  let ?p = "\<lambda>(k, v). json_string k @ '':'' @ dumps_raw frepr v"
  have "vs = ws \<and> x = y"
  proof (rule join_unique [where p = ?p and z = "CHR ''}''"])
    show "?p a \<noteq> [] \<and> hd (?p a) \<notin> set '',]}''" for a by (cases a) (simp add: json_string_def)
    show "join_str '','' (map ?p vs) @ CHR ''}'' # x = join_str '','' (map ?p ws) @ CHR ''}'' # y"
      using JObj.prems w by simp
    show "a = b \<and> x' = y'" if "a \<in> set vs" "b \<in> set ws" "delim x'" "delim y'" "?p a @ x' = ?p b @ y'"
      for a b x' y'
    proof -
      obtain k v l u where ab: "a = (k, v)" "b = (l, u)" by (cases a, cases b)
      with that(5) have "k = l" "dumps_raw frepr v @ x' = dumps_raw frepr u @ y'"
        using json_string_unique [of k _ l] by auto
      with JObj.IH [of a v u x' y'] JObj.prems(1,2) w that ab show ?thesis
        by (auto simp: list_all_iff)
    qed
  qed simp
  with w show ?case by simp
next
  case JNull
  with dumps_kind_eq [of JNull w frepr x y] have "w = JNull" by (cases w) (auto split: if_splits)
  with JNull show ?case by simp
next
  case (JBool b)
  with dumps_kind_eq [of "JBool b" w frepr x y] have "w = JBool b"
    by (cases w) (auto split: if_splits)
  with JBool show ?case by (simp split: if_splits)
next
  case (JFloat f)
  then show ?case by simp
qed

text \<open>
  Encodings of float-free values are equal exactly when the values are the same up to the order
  of dict keys: the bytes that are signed determine the message.
\<close>

lemma json_dumps_eq_iff:
  assumes "float_free v" "float_free w"
  shows "json_dumps frepr v = json_dumps frepr w \<longleftrightarrow> json_eq v w"
proof
  assume "json_dumps frepr v = json_dumps frepr w"
  with assms dumps_raw_unique [of "sort_json v" "sort_json w" "[]" "[]" frepr]
  show "json_eq v w" by (simp add: json_dumps_def json_eq_def delim_def)
qed (rule json_eq_dumps)

end
