(* ===== verification/AgendaModel.thy ===== *)
theory AgendaModel
  imports AgendaBudget Json
begin

text \<open>
  \<open>agenda/model.py\<close>: the agenda tree of simulations and groups, its name rules, and the pure
  operations that grow it. A \<open>dict\<close> of entries is an association list in insertion order. The
  functions that read or rewrite the leaves (\<open>simulations\<close>, \<open>leaf_at\<close> and the loops over them) are
  related by lemmas to the flat list of leaves, so that later theories reason about lists.
\<close>

section \<open>Data\<close>

text \<open>A sweep value is \<open>float | int | str\<close>; a point is a dict of them; a spec is an opaque dict.\<close>

datatype scalar = SFloat pyfloat | SInt int | SStr string

type_synonym point = "(string \<times> scalar) list"
type_synonym spec = "(string \<times> json) list"

datatype status = Planned | Submitted | Running | Done | Failed

record agenda_sweep =
  sw_parameter :: string
  sw_values :: "scalar list"
  sw_unit :: "string option"

record agenda_sim =
  sim_name :: string
  sim_spec :: spec
  sim_point :: "point option"
  sim_sweep_parameter :: "string option"
  sim_status :: status
  sim_depends_on :: "string list"
  sim_id :: "string option"
  sim_deferred_attempts :: int
  sim_deferred_since :: "string option"
  sim_run_id :: "string option"
  sim_requires_approval :: bool
  sim_approved :: bool
  sim_estimated_core_hours :: pyfloat
  sim_estimated_gpu_hours :: pyfloat
  sim_actual_core_hours :: "pyfloat option"
  sim_actual_gpu_hours :: "pyfloat option"
  sim_is_gpu :: bool
  sim_reused :: bool
  sim_error :: "string option"
  sim_error_code :: "string option"
  sim_stage :: "string option"
  sim_suspect :: "string option"

datatype agenda_entry = ESim agenda_sim | EGroup agenda_group
and agenda_group = AgendaGroup
  (grp_name: string)
  (grp_entries: "(string \<times> agenda_entry) list")
  (grp_sweep: "agenda_sweep option")
  (grp_depends_on: "string list")

type_synonym entries = "(string \<times> agenda_entry) list"

text \<open>\<open>AgendaSim(name, spec, point, sweep_parameter)\<close> with every other field at its default.\<close>

definition new_sim :: "string \<Rightarrow> spec \<Rightarrow> point option \<Rightarrow> string option \<Rightarrow> agenda_sim" where
  "new_sim name spec point param = \<lparr>sim_name = name, sim_spec = spec, sim_point = point,
     sim_sweep_parameter = param, sim_status = Planned, sim_depends_on = [], sim_id = None,
     sim_deferred_attempts = 0, sim_deferred_since = None, sim_run_id = None,
     sim_requires_approval = False, sim_approved = False, sim_estimated_core_hours = Fin 0,
     sim_estimated_gpu_hours = Fin 0, sim_actual_core_hours = None, sim_actual_gpu_hours = None,
     sim_is_gpu = False, sim_reused = False, sim_error = None, sim_error_code = None,
     sim_stage = None, sim_suspect = None\<rparr>"

section \<open>Names, sweeps and labels\<close>

datatype model_error =
    EmptyName
  | DottedName string
  | SlashedName string
  | DuplicateDependency "string list"
  | IllegalParameter string
  | EmptySweep
  | NonFiniteValue scalar
  | EntryExists string
  | ExpandOverwrites string
  | InvalidEntry string

definition validate_entry_name :: "string \<Rightarrow> model_error option" where
  "validate_entry_name name = first_error
    [raise_if (name = []) EmptyName,
     raise_if (starts_with ''.'' name) (DottedName name),
     raise_if (CHR ''/'' \<in> set name) (SlashedName name)]"

definition validate_dependencies :: "string list \<Rightarrow> model_error option" where
  "validate_dependencies deps =
     (if length (remdups deps) \<noteq> length deps then Some (DuplicateDependency deps)
      else first_error (map validate_entry_name deps))"

definition validate_parameter :: "string \<Rightarrow> model_error option" where
  "validate_parameter p =
     raise_if (p = [] \<or> starts_with ''.'' p \<or> CHR ''/'' \<in> set p) (IllegalParameter p)"

definition finite_scalar :: "scalar \<Rightarrow> bool" where
  "finite_scalar v = (case v of SFloat f \<Rightarrow> is_fin f | _ \<Rightarrow> True)"

definition non_empty_values :: "scalar list \<Rightarrow> model_error option" where
  "non_empty_values vs =
     (if vs = [] then Some EmptySweep
      else first_error (map (\<lambda>v. raise_if (\<not> finite_scalar v) (NonFiniteValue v)) vs))"

definition finite_point :: "point option \<Rightarrow> model_error option" where
  "finite_point pt = (case pt of None \<Rightarrow> None
     | Some p \<Rightarrow> first_error (map (\<lambda>(k, v). raise_if (\<not> finite_scalar v) (NonFiniteValue v)) p))"

text \<open>The validators of the constructors \<open>AgendaSweep(...)\<close> and \<open>AgendaSim(...)\<close>, in field order.\<close>

definition check_sweep :: "agenda_sweep \<Rightarrow> model_error option" where
  "check_sweep sw = first_error [validate_parameter (sw_parameter sw), non_empty_values (sw_values sw)]"

definition check_sim :: "agenda_sim \<Rightarrow> model_error option" where
  "check_sim s = first_error [validate_entry_name (sim_name s), finite_point (sim_point s),
     validate_dependencies (sim_depends_on s)]"

text \<open>
  \<open>readable_label\<close>: every run of control characters and white space becomes one space, the ends are
  trimmed, and an empty result is \<open>None\<close>. Below code point 256 the class
  \<open>[\x00-\x1f\x7f-\x9f\s]\<close> is the two ranges 0 to 32 and 127 to 160.
\<close>

definition control_or_ws :: "char \<Rightarrow> bool" where
  "control_or_ws c \<longleftrightarrow> (of_char c :: nat) \<le> 32 \<or> (of_char c :: nat) \<in> {127..160}"

fun collapse_runs :: "bool \<Rightarrow> string \<Rightarrow> string" where
  "collapse_runs in_run [] = []"
| "collapse_runs in_run (c # s) =
     (if control_or_ws c then (if in_run then collapse_runs True s else CHR '' '' # collapse_runs True s)
      else c # collapse_runs False s)"

definition strip_spaces :: "string \<Rightarrow> string" where
  "strip_spaces s = rev (dropWhile (\<lambda>c. c = CHR '' '') (rev (dropWhile (\<lambda>c. c = CHR '' '') s)))"

definition readable_label :: "string \<Rightarrow> string option" where
  "readable_label text = (let cleaned = strip_spaces (collapse_runs False text)
     in if cleaned = [] then None else Some cleaned)"

text \<open>\<open>repr\<close> of a string with code points below 256.\<close>

definition repr_char :: "char \<Rightarrow> char \<Rightarrow> string" where
  "repr_char q c =
     (let n = (of_char c :: nat) in
      if c = q \<or> c = CHR 0x5C then [CHR 0x5C, c]
      else if n = 10 then [CHR 0x5C, CHR ''n'']
      else if n = 13 then [CHR 0x5C, CHR ''r'']
      else if n = 9 then [CHR 0x5C, CHR ''t'']
      else if n < 32 \<or> n \<in> {127..160} \<or> n = 173
        then [CHR 0x5C, CHR ''x'', hex_char (n div 16), hex_char (n mod 16)]
      else [c])"

definition repr_str :: "string \<Rightarrow> string" where
  "repr_str s = (let q = (if CHR 0x27 \<in> set s \<and> CHR 0x22 \<notin> set s then CHR 0x22 else CHR 0x27)
     in q # concat (map (repr_char q) s) @ [q])"

definition repr_scalar :: "(pyfloat \<Rightarrow> string) \<Rightarrow> scalar \<Rightarrow> string" where
  "repr_scalar frepr v = (case v of SFloat f \<Rightarrow> frepr f | SInt i \<Rightarrow> show_int i | SStr s \<Rightarrow> repr_str s)"

definition sweep_assignment :: "agenda_sweep \<Rightarrow> scalar \<Rightarrow> point" where
  "sweep_assignment sw v = [(sw_parameter sw, v)]"

definition sweep_label :: "(pyfloat \<Rightarrow> string) \<Rightarrow> agenda_sweep \<Rightarrow> scalar \<Rightarrow> string" where
  "sweep_label frepr sw v = sw_parameter sw @ ''='' @ replace_char CHR ''/'' ''_'' (repr_scalar frepr v)"

section \<open>Growing an agenda\<close>

text \<open>
  An argument of \<open>add\<close> is a model object or a plain dict. A dict is validated by pydantic's
  \<open>model_validate\<close>, the argument \<open>pv\<close>: \<open>pv is_group payload\<close> is the entry, or \<open>None\<close> for a
  \<open>ValidationError\<close>.
\<close>

datatype add_arg = AEntry agenda_entry | ADict spec

fun rename_entry :: "string \<Rightarrow> agenda_entry \<Rightarrow> agenda_entry" where
  "rename_entry name (ESim s) = ESim (s\<lparr>sim_name := name\<rparr>)"
| "rename_entry name (EGroup (AgendaGroup n es sw ds)) = EGroup (AgendaGroup name es sw ds)"

definition coerce_entry :: "(bool \<Rightarrow> spec \<Rightarrow> agenda_entry option) \<Rightarrow> string \<Rightarrow> add_arg
    \<Rightarrow> model_error + agenda_entry" where
  "coerce_entry pv name arg = (case arg of
     AEntry e \<Rightarrow> Inr (rename_entry name e)
   | ADict d \<Rightarrow> (case pv (get_or d ''kind'' (JStr ''sim'') = JStr ''group'')
                    (AList.update ''name'' (JStr name) d) of
                  None \<Rightarrow> Inl (InvalidEntry name) | Some e \<Rightarrow> Inr e))"

fun add_entries :: "(bool \<Rightarrow> spec \<Rightarrow> agenda_entry option) \<Rightarrow> entries \<Rightarrow> (string \<times> add_arg) list
    \<Rightarrow> model_error + entries" where
  "add_entries pv es [] = Inr es"
| "add_entries pv es ((name, arg) # args) =
     (case validate_entry_name name of Some e \<Rightarrow> Inl e | None \<Rightarrow>
      if has_key name es then Inl (EntryExists name)
      else bind_res (coerce_entry pv name arg) (\<lambda>entry. add_entries pv (AList.update name entry es) args))"

definition with_entries :: "agenda_group \<Rightarrow> entries \<Rightarrow> agenda_group" where
  "with_entries g es = AgendaGroup (grp_name g) es (grp_sweep g) (grp_depends_on g)"

definition group_add :: "(bool \<Rightarrow> spec \<Rightarrow> agenda_entry option) \<Rightarrow> agenda_group
    \<Rightarrow> (string \<times> add_arg) list \<Rightarrow> model_error + agenda_group" where
  "group_add pv g args = bind_res (add_entries pv (grp_entries g) args) (\<lambda>es. Inr (with_entries g es))"

text \<open>\<open>add_sim\<close> builds the leaf first, so the constructor's own validators run before \<open>add\<close>.\<close>

definition group_add_sim :: "(bool \<Rightarrow> spec \<Rightarrow> agenda_entry option) \<Rightarrow> agenda_group \<Rightarrow> string \<Rightarrow> spec
    \<Rightarrow> point option \<Rightarrow> string option \<Rightarrow> model_error + agenda_group" where
  "group_add_sim pv g name spec point param =
     (let s = new_sim name spec point param in
      case check_sim s of Some e \<Rightarrow> Inl e
      | None \<Rightarrow> group_add pv g [(name, AEntry (ESim s))])"

fun expand_values :: "(pyfloat \<Rightarrow> string) \<Rightarrow> agenda_sweep \<Rightarrow> (point \<Rightarrow> spec) \<Rightarrow> string \<Rightarrow> entries
    \<Rightarrow> scalar list \<Rightarrow> model_error + entries" where
  "expand_values frepr sw syn base es [] = Inr es"
| "expand_values frepr sw syn base es (v # vs) =
     (let point = sweep_assignment sw v;
          leaf_name = base @ ''__'' @ sweep_label frepr sw v
      in case validate_entry_name leaf_name of Some e \<Rightarrow> Inl e | None \<Rightarrow>
        if has_key leaf_name es then Inl (ExpandOverwrites leaf_name)
        else (let s = new_sim leaf_name (syn point) (Some point) (readable_label (sw_parameter sw))
          in case check_sim s of Some e \<Rightarrow> Inl e
             | None \<Rightarrow> expand_values frepr sw syn base (AList.update leaf_name (ESim s) es) vs))"

definition group_expand :: "(pyfloat \<Rightarrow> string) \<Rightarrow> agenda_group \<Rightarrow> agenda_sweep \<Rightarrow> (point \<Rightarrow> spec)
    \<Rightarrow> string option \<Rightarrow> model_error + agenda_group" where
  "group_expand frepr g sw syn base_name =
     (let base = (if truthy base_name then the base_name else grp_name g) in
      case validate_entry_name base of Some e \<Rightarrow> Inl e
      | None \<Rightarrow> bind_res (expand_values frepr sw syn base (grp_entries g) (sw_values sw))
                  (\<lambda>es. Inr (with_entries g es)))"

end
