(* ===== verification/AgendaTree.thy ===== *)
theory AgendaTree
  imports AgendaModel
begin

text \<open>
  Reading and rewriting the leaves of an agenda tree: \<open>_walk_leaves\<close>/\<open>simulations\<close>
  (\<open>agenda/model.py\<close>), \<open>leaf_at\<close> (\<open>agenda/engine.py\<close>) and the two ways the engine and the planner
  change leaves of a deep copy in place: a loop over all leaves (\<open>traverse\<close>) and one leaf found by
  its path (\<open>update_leaf\<close>). Each is related to the flat list \<open>simulations\<close>.
\<close>

section \<open>Walking the leaves\<close>

definition child_path :: "string \<Rightarrow> string \<Rightarrow> string" where
  "child_path prefix name = (if prefix \<noteq> [] then prefix @ ''/'' @ name else name)"

fun walk_leaves :: "entries \<Rightarrow> string \<Rightarrow> (string \<times> agenda_sim) list" where
  "walk_leaves [] prefix = []"
| "walk_leaves ((name, ESim s) # es) prefix = (child_path prefix name, s) # walk_leaves es prefix"
| "walk_leaves ((name, EGroup (AgendaGroup gn ges sw ds)) # es) prefix =
     walk_leaves ges (child_path prefix name) @ walk_leaves es prefix"

definition simulations :: "agenda_group \<Rightarrow> (string \<times> agenda_sim) list" where
  "simulations g = walk_leaves (grp_entries g) ''''"

section \<open>One leaf by its path\<close>

fun leaf_at_parts :: "entries \<Rightarrow> string list \<Rightarrow> agenda_sim option" where
  "leaf_at_parts es [] = None"
| "leaf_at_parts es [n] = (case map_of es n of Some (ESim s) \<Rightarrow> Some s | _ \<Rightarrow> None)"
| "leaf_at_parts es (n # m # ns) =
     (case map_of es n of Some (EGroup g) \<Rightarrow> leaf_at_parts (grp_entries g) (m # ns) | _ \<Rightarrow> None)"

definition leaf_at :: "agenda_group \<Rightarrow> string \<Rightarrow> agenda_sim option" where
  "leaf_at g path = leaf_at_parts (grp_entries g) (split_on CHR ''/'' path)"

fun update_at_parts :: "(agenda_sim \<Rightarrow> agenda_sim) \<Rightarrow> entries \<Rightarrow> string list \<Rightarrow> entries" where
  "update_at_parts f es [] = es"
| "update_at_parts f es [n] =
     (case map_of es n of Some (ESim s) \<Rightarrow> AList.update n (ESim (f s)) es | _ \<Rightarrow> es)"
| "update_at_parts f es (n # m # ns) =
     (case map_of es n of
        Some (EGroup g) \<Rightarrow> AList.update n (EGroup (with_entries g (update_at_parts f (grp_entries g) (m # ns)))) es
      | _ \<Rightarrow> es)"

definition update_leaf :: "agenda_group \<Rightarrow> string \<Rightarrow> (agenda_sim \<Rightarrow> agenda_sim) \<Rightarrow> agenda_group" where
  "update_leaf g path f = with_entries g (update_at_parts f (grp_entries g) (split_on CHR ''/'' path))"

section \<open>A loop over all leaves\<close>

text \<open>
  \<open>for path, sim in updated.simulations(): ...\<close> with a body that reads the path and the leaf,
  changes the leaf and threads an accumulator.
\<close>

type_synonym 'a leaf_body = "string \<Rightarrow> agenda_sim \<Rightarrow> 'a \<Rightarrow> agenda_sim \<times> 'a"

fun traverse :: "'a leaf_body \<Rightarrow> string \<Rightarrow> entries \<Rightarrow> 'a \<Rightarrow> entries \<times> 'a" where
  "traverse f prefix [] a = ([], a)"
| "traverse f prefix ((name, ESim s) # es) a =
     (let (s', a1) = f (child_path prefix name) s a; (es', a2) = traverse f prefix es a1
      in ((name, ESim s') # es', a2))"
| "traverse f prefix ((name, EGroup (AgendaGroup gn ges sw ds)) # es) a =
     (let (ges', a1) = traverse f (child_path prefix name) ges a; (es', a2) = traverse f prefix es a1
      in ((name, EGroup (AgendaGroup gn ges' sw ds)) # es', a2))"

definition for_leaves :: "'a leaf_body \<Rightarrow> agenda_group \<Rightarrow> 'a \<Rightarrow> agenda_group \<times> 'a" where
  "for_leaves f g a = (let (es, a') = traverse f '''' (grp_entries g) a in (with_entries g es, a'))"

text \<open>The same loop over the flat list.\<close>

fun thread :: "'a leaf_body \<Rightarrow> (string \<times> agenda_sim) list \<Rightarrow> 'a \<Rightarrow> (string \<times> agenda_sim) list \<times> 'a" where
  "thread f [] a = ([], a)"
| "thread f ((p, s) # xs) a =
     (let (s', a1) = f p s a; (xs', a2) = thread f xs a1 in ((p, s') # xs', a2))"

lemma grp_with_entries [simp]:
  "grp_entries (with_entries g es) = es" "grp_name (with_entries g es) = grp_name g"
  "grp_sweep (with_entries g es) = grp_sweep g" "grp_depends_on (with_entries g es) = grp_depends_on g"
  by (simp_all add: with_entries_def)

lemma with_entries_same [simp]: "with_entries g (grp_entries g) = g"
  by (cases g) (simp add: with_entries_def)

lemma thread_append:
  "thread f (xs @ ys) a =
     (let (xs', a1) = thread f xs a; (ys', a2) = thread f ys a1 in (xs' @ ys', a2))"
  by (induction f xs a rule: thread.induct) (auto split: prod.splits)

lemma traverse_thread:
  "(walk_leaves (fst (traverse f prefix es a)) prefix, snd (traverse f prefix es a))
   = thread f (walk_leaves es prefix) a"
proof (induction f prefix es a rule: traverse.induct)
  case (3 f prefix name gn ges sw ds es a)
  then show ?case
    by (auto simp: thread_append split: prod.splits)
qed (auto split: prod.splits)

lemma simulations_for_leaves [pass_simps]:
  "simulations (fst (for_leaves f g a)) = fst (thread f (simulations g) a)"
  "snd (for_leaves f g a) = snd (thread f (simulations g) a)"
  using traverse_thread [of f "''''" "grp_entries g" a]
  by (auto simp: simulations_def for_leaves_def split: prod.splits) (metis fst_conv snd_conv)+

lemma for_leaves_frame [simp]:
  "grp_name (fst (for_leaves f g a)) = grp_name g"
  "grp_sweep (fst (for_leaves f g a)) = grp_sweep g"
  "grp_depends_on (fst (for_leaves f g a)) = grp_depends_on g"
  by (auto simp: for_leaves_def split: prod.splits)

lemma thread_paths [simp]: "map fst (fst (thread f xs a)) = map fst xs"
  by (induction f xs a rule: thread.induct) (auto split: prod.splits)

lemma thread_length [simp]: "length (fst (thread f xs a)) = length xs"
  by (induction f xs a rule: thread.induct) (auto split: prod.splits)

text \<open>A loop whose body does not read the accumulator is a \<open>map\<close>.\<close>

lemma thread_map:
  "(\<And>p s a. fst (f p s a) = h p s) \<Longrightarrow> fst (thread f xs a) = map (\<lambda>(p, s). (p, h p s)) xs"
proof (induction xs arbitrary: a)
  case (Cons x xs)
  obtain p s where x: "x = (p, s)" by (cases x)
  obtain t b where f: "f p s a = (t, b)" by (cases "f p s a")
  have "fst (thread f xs b) = map (\<lambda>(p, s). (p, h p s)) xs" using Cons by blast
  then show ?case using Cons.prems [of p s a] by (simp add: x f split_beta)
qed simp

section \<open>Well-formed agendas\<close>

text \<open>
  Keys are distinct and legal at every level. \<open>add\<close> and \<open>expand\<close> check this for the keys they
  insert; the tree a campaign is seeded with is built by them.
\<close>

definition legal_name :: "string \<Rightarrow> bool" where
  "legal_name n \<longleftrightarrow> validate_entry_name n = None"

fun wf_entries :: "entries \<Rightarrow> bool" where
  "wf_entries [] = True"
| "wf_entries ((name, ESim s) # es) =
     (legal_name name \<and> name \<notin> set (keys es) \<and> wf_entries es)"
| "wf_entries ((name, EGroup (AgendaGroup gn ges sw ds)) # es) =
     (legal_name name \<and> name \<notin> set (keys es) \<and> wf_entries ges \<and> wf_entries es)"

definition wf_agenda :: "agenda_group \<Rightarrow> bool" where
  "wf_agenda g \<longleftrightarrow> wf_entries (grp_entries g)"

lemma legal_name_iff:
  "legal_name n \<longleftrightarrow> n \<noteq> [] \<and> \<not> starts_with ''.'' n \<and> CHR ''/'' \<notin> set n"
  by (auto simp: legal_name_def validate_entry_name_def first_error_None)

lemma wf_entries_distinct: "wf_entries es \<Longrightarrow> distinct (keys es)"
  by (induction es rule: wf_entries.induct) auto

lemma wf_entries_legal: "wf_entries es \<Longrightarrow> n \<in> set (keys es) \<Longrightarrow> legal_name n"
  by (induction es rule: wf_entries.induct) auto

lemma wf_entries_group:
  "wf_entries es \<Longrightarrow> map_of es n = Some (EGroup g) \<Longrightarrow> wf_entries (grp_entries g)"
  by (induction es rule: wf_entries.induct) (auto split: if_splits)

text \<open>The leaves again, with their paths as lists of names.\<close>

fun leaf_parts :: "entries \<Rightarrow> (string list \<times> agenda_sim) list" where
  "leaf_parts [] = []"
| "leaf_parts ((name, ESim s) # es) = ([name], s) # leaf_parts es"
| "leaf_parts ((name, EGroup (AgendaGroup gn ges sw ds)) # es) =
     map (\<lambda>(ps, s). (name # ps, s)) (leaf_parts ges) @ leaf_parts es"

fun join_under :: "string \<Rightarrow> string list \<Rightarrow> string" where
  "join_under prefix [] = prefix"
| "join_under prefix (p # ps) = join_under (child_path prefix p) ps"

lemma walk_leaves_parts:
  "walk_leaves es prefix = map (\<lambda>(ps, s). (join_under prefix ps, s)) (leaf_parts es)"
  by (induction es prefix rule: walk_leaves.induct) (auto simp: comp_def case_prod_beta)

lemma leaf_parts_names:
  "wf_entries es \<Longrightarrow> (ps, s) \<in> set (leaf_parts es) \<Longrightarrow> ps \<noteq> [] \<and> (\<forall>p \<in> set ps. legal_name p)
    \<and> hd ps \<in> set (keys es)"
  by (induction es arbitrary: ps rule: leaf_parts.induct) auto

lemma join_str_merge: "join_str sep ((x @ sep @ y) # zs) = join_str sep (x # y # zs)"
  by (cases zs) auto

lemma join_under_join: "prefix \<noteq> [] \<Longrightarrow> join_under prefix ps = join_str ''/'' (prefix # ps)"
proof (induction prefix ps rule: join_under.induct)
  case (2 prefix p ps)
  then show ?case
    using join_str_merge [of "''/''" prefix p ps] by (simp add: child_path_def del: join_str.simps)
qed simp

lemma join_under_root: "ps \<noteq> [] \<Longrightarrow> \<forall>p \<in> set ps. p \<noteq> [] \<Longrightarrow> join_under '''' ps = join_str ''/'' ps"
  by (cases ps) (auto simp: child_path_def join_under_join)

lemma split_join:
  "ps \<noteq> [] \<Longrightarrow> \<forall>p \<in> set ps. CHR ''/'' \<notin> set p \<Longrightarrow> split_on CHR ''/'' (join_str ''/'' ps) = ps"
  by (induction "''/''" ps rule: join_str.induct) (auto simp: split_on_no_sep split_on_append_sep)

text \<open>The parts of a leaf's path are what \<open>path.split("/")\<close> returns.\<close>

lemma path_parts:
  assumes "wf_entries es" "(ps, s) \<in> set (leaf_parts es)"
  shows "split_on CHR ''/'' (join_under '''' ps) = ps"
proof -
  have l: "ps \<noteq> []" "\<forall>p \<in> set ps. p \<noteq> [] \<and> CHR ''/'' \<notin> set p"
    using leaf_parts_names [OF assms] by (auto simp: legal_name_iff)
  then have "join_under '''' ps = join_str ''/'' ps" by (intro join_under_root) auto
  with l show ?thesis by (simp add: split_join)
qed

lemma leaf_parts_distinct: "wf_entries es \<Longrightarrow> distinct (map fst (leaf_parts es))"
proof (induction es rule: leaf_parts.induct)
  case (2 name s es)
  have "([name], u) \<notin> set (leaf_parts es)" for u
    using 2 leaf_parts_names [of es "[name]" u] by auto
  with 2 show ?case by force
next
  case (3 name gn ges sw ds es)
  have heads: "distinct (map fst (map (\<lambda>(ps, s). (name # ps, s)) (leaf_parts ges)))"
  proof -
    have "map fst (map (\<lambda>(ps, s). (name # ps, s)) (leaf_parts ges)) = map ((#) name) (map fst (leaf_parts ges))"
      by auto
    then show ?thesis using 3 by (simp only: distinct_map) (auto simp: inj_on_def)
  qed
  have "fst x \<noteq> fst y"
    if "x \<in> set (map (\<lambda>(ps, s). (name # ps, s)) (leaf_parts ges))" "y \<in> set (leaf_parts es)" for x y
  proof -
    have "hd (fst y) \<in> set (keys es)" using that 3 leaf_parts_names [of es "fst y" "snd y"] by simp
    then have "hd (fst y) \<noteq> name" using 3 by auto
    moreover have "hd (fst x) = name" using that by auto
    ultimately show ?thesis by metis
  qed
  then have "set (map fst (map (\<lambda>(ps, s). (name # ps, s)) (leaf_parts ges))) \<inter> set (map fst (leaf_parts es)) = {}"
    unfolding set_map by blast
  with heads show ?case using 3 by (simp only: leaf_parts.simps map_append distinct_append wf_entries.simps)
qed simp

lemma leaf_at_parts_iff:
  "wf_entries es \<Longrightarrow> leaf_at_parts es ps = Some s \<longleftrightarrow> (ps, s) \<in> set (leaf_parts es)"
proof (induction es arbitrary: ps rule: wf_entries.induct)
  case 1
  then show ?case by (cases "([] :: entries, ps)" rule: leaf_at_parts.cases) auto
next
  case (2 name t es)
  have nin: "map_of es name = None" using 2 by (simp add: map_of_eq_None_iff)
  have nn: "(qs, u) \<in> set (leaf_parts es) \<Longrightarrow> qs \<noteq> [] \<and> hd qs \<noteq> name" for qs u
    using 2 leaf_parts_names [of es qs u] by auto
  show ?case
  proof (cases "(es, ps)" rule: leaf_at_parts.cases)
    case (1 es0)
    then show ?thesis using nn [of "[]"] by auto
  next
    case parts: (2 es0 n)
    show ?thesis
    proof (cases "n = name")
      case True
      then show ?thesis using parts nn [of "[n]"] by auto
    next
      case False
      then have "leaf_at_parts ((name, ESim t) # es) ps = leaf_at_parts es ps" using parts by simp
      with "2.IH" [of ps] "2.prems" False parts show ?thesis by (auto simp del: leaf_at_parts.simps)
    qed
  next
    case parts: (3 es0 n m ns)
    show ?thesis
    proof (cases "n = name")
      case True
      then show ?thesis using parts nn [of "n # m # ns"] by auto
    next
      case False
      then have "leaf_at_parts ((name, ESim t) # es) ps = leaf_at_parts es ps" using parts by simp
      with "2.IH" [of ps] "2.prems" False parts show ?thesis by (auto simp del: leaf_at_parts.simps)
    qed
  qed
next
  case (3 name gn ges sw ds es)
  have nin: "map_of es name = None" using 3 by (simp add: map_of_eq_None_iff)
  have nn: "(qs, u) \<in> set (leaf_parts es) \<Longrightarrow> hd qs \<noteq> name" for qs u
    using 3 leaf_parts_names [of es qs u] by auto
  have ne: "([], u) \<notin> set (leaf_parts ges)" for u
    using 3 leaf_parts_names [of ges "[]" u] by auto
  show ?case
  proof (cases "(es, ps)" rule: leaf_at_parts.cases)
    case (1 es0)
    then show ?thesis using 3 leaf_parts_names [of es "[]"] by auto
  next
    case parts: (2 es0 n)
    show ?thesis
    proof (cases "n = name")
      case True
      then show ?thesis using parts nn [of "[n]"] ne by auto
    next
      case False
      then have "leaf_at_parts ((name, EGroup (AgendaGroup gn ges sw ds)) # es) ps = leaf_at_parts es ps"
        using parts by simp
      with "3.IH"(2) [of ps] "3.prems" False parts show ?thesis by (auto simp del: leaf_at_parts.simps)
    qed
  next
    case parts: (3 es0 n m ns)
    show ?thesis
    proof (cases "n = name")
      case True
      then show ?thesis using 3 parts nn [of "n # m # ns"] by auto
    next
      case False
      then have "leaf_at_parts ((name, EGroup (AgendaGroup gn ges sw ds)) # es) ps = leaf_at_parts es ps"
        using parts by simp
      with "3.IH"(2) [of ps] "3.prems" False parts show ?thesis by (auto simp del: leaf_at_parts.simps)
    qed
  qed
qed

text \<open>\<open>leaf_at\<close> finds exactly the leaves that \<open>simulations\<close> lists, and paths are unique.\<close>

lemma leaf_at_iff:
  assumes "wf_agenda g" shows "leaf_at g path = Some s \<longleftrightarrow> (path, s) \<in> set (simulations g)"
proof -
  let ?es = "grp_entries g"
  from assms have wf: "wf_entries ?es" by (simp add: wf_agenda_def)
  have j: "join_under '''' ps = join_str ''/'' ps" if "(ps, s) \<in> set (leaf_parts ?es)" for ps
    using leaf_parts_names [OF wf that] by (intro join_under_root) (auto simp: legal_name_iff)
  have "leaf_at g path = Some s \<longleftrightarrow> (split_on CHR ''/'' path, s) \<in> set (leaf_parts ?es)"
    by (simp add: leaf_at_def leaf_at_parts_iff [OF wf])
  also have "\<dots> \<longleftrightarrow> (\<exists>ps. path = join_under '''' ps \<and> (ps, s) \<in> set (leaf_parts ?es))"
    using j path_parts [OF wf] by (metis join_split)
  also have "\<dots> \<longleftrightarrow> (path, s) \<in> set (simulations g)"
    by (auto simp: simulations_def walk_leaves_parts)
  finally show ?thesis .
qed

lemma simulations_distinct:
  assumes "wf_agenda g" shows "distinct (map fst (simulations g))"
proof -
  let ?es = "grp_entries g"
  from assms have wf: "wf_entries ?es" by (simp add: wf_agenda_def)
  have "map fst (simulations g) = map (join_under '''') (map fst (leaf_parts ?es))"
    by (auto simp: simulations_def walk_leaves_parts)
  moreover have "inj_on (join_under '''') (set (map fst (leaf_parts ?es)))"
    by (rule inj_on_inverseI [where g = "split_on CHR ''/''"]) (auto dest: path_parts [OF wf])
  ultimately show ?thesis using leaf_parts_distinct [OF wf] by (simp only: distinct_map)
qed

lemma leaf_at_None:
  "wf_agenda g \<Longrightarrow> leaf_at g path = None \<longleftrightarrow> path \<notin> fst ` set (simulations g)"
  using leaf_at_iff [of g path] by (cases "leaf_at g path") (force simp: image_iff)+

lemma leaf_at_map_of:
  assumes "wf_agenda g" shows "leaf_at g path = map_of (simulations g) path"
proof (cases "map_of (simulations g) path")
  case None
  then show ?thesis using leaf_at_None [OF assms, of path] by (metis map_of_eq_None_iff)
next
  case (Some s)
  then show ?thesis using leaf_at_iff [OF assms] by (auto dest: map_of_SomeD)
qed

section \<open>Rewriting one leaf\<close>

lemma update_at_other:
  "ps = [] \<or> hd ps \<noteq> name \<Longrightarrow>
   update_at_parts f ((name, e) # es) ps = (if ps = [] then (name, e) # es else (name, e) # update_at_parts f es ps)"
  by (cases "(f, es, ps)" rule: update_at_parts.cases) (auto split: option.splits agenda_entry.splits)

lemma update_at_keys [simp]: "keys (update_at_parts f es ps) = keys es"
proof -
  have k: "map_of es n = Some x \<Longrightarrow> map fst (AList.update n e es) = map fst es" for n x e
    by (induction es) (auto split: if_splits)
  show ?thesis
    by (cases "(f, es, ps)" rule: update_at_parts.cases)
      (auto simp: k split: option.splits agenda_entry.splits)
qed

lemma leaf_parts_update:
  "wf_entries es \<Longrightarrow> leaf_parts (update_at_parts f es ps)
     = map (\<lambda>(qs, s). (qs, if qs = ps then f s else s)) (leaf_parts es)"
proof (induction es arbitrary: ps rule: wf_entries.induct)
  case 1
  then show ?case by (cases "(f, [] :: entries, ps)" rule: update_at_parts.cases) auto
next
  case (2 name t es)
  have nn: "(qs, u) \<in> set (leaf_parts es) \<Longrightarrow> qs \<noteq> [] \<and> hd qs \<noteq> name" for qs u
    using 2 leaf_parts_names [of es qs u] by auto
  have same: "map (\<lambda>(qs, s). (qs, if qs = ps then f s else s)) (leaf_parts es) = leaf_parts es"
    if "ps = [] \<or> hd ps = name"
    by (rule map_idI) (use nn that in fastforce)
  show ?case
  proof (cases "ps = [] \<or> hd ps \<noteq> name")
    case True
    then show ?thesis using 2 same by (auto simp: update_at_other)
  next
    case False
    then show ?thesis using same
      by (cases "(f, es, ps)" rule: update_at_parts.cases) auto
  qed
next
  case (3 name gn ges sw ds es)
  have nn: "(qs, u) \<in> set (leaf_parts es) \<Longrightarrow> qs \<noteq> [] \<and> hd qs \<noteq> name" for qs u
    using 3 leaf_parts_names [of es qs u] by auto
  have ne: "([], u) \<notin> set (leaf_parts ges)" for u
    using 3 leaf_parts_names [of ges "[]" u] by auto
  have same: "map (\<lambda>(qs, s). (qs, if qs = ps then f s else s)) (leaf_parts es) = leaf_parts es"
    if "ps = [] \<or> hd ps = name"
    by (rule map_idI) (use nn that in fastforce)
  show ?case
  proof (cases "ps = [] \<or> hd ps \<noteq> name")
    case True
    have "map ((\<lambda>(qs, s). (qs, if qs = ps then f s else s)) \<circ> (\<lambda>(ps, s). (name # ps, s))) (leaf_parts ges)
      = map (\<lambda>(ps, s). (name # ps, s)) (leaf_parts ges)"
      using True by auto
    then show ?thesis using 3 True same by (auto simp: update_at_other)
  next
    case False
    then obtain ns where ps: "ps = name # ns" by (cases ps) auto
    show ?thesis
    proof (cases ns)
      case Nil
      have "map ((\<lambda>(qs, s). (qs, if qs = ps then f s else s)) \<circ> (\<lambda>(ps, s). (name # ps, s))) (leaf_parts ges)
        = map (\<lambda>(ps, s). (name # ps, s)) (leaf_parts ges)"
        using ps Nil ne by (intro map_cong) auto
      then show ?thesis using ps Nil same by auto
    next
      case (Cons m ms)
      then show ?thesis using ps same "3.IH"(1) [of ns] "3.prems" by (auto simp: with_entries_def)
    qed
  qed
qed

text \<open>Changing the leaf at \<open>path\<close> changes that entry of the flat list and no other.\<close>

lemma simulations_update:
  assumes "wf_agenda g"
  shows "simulations (update_leaf g path f) = map (\<lambda>(p, s). (p, if p = path then f s else s)) (simulations g)"
proof -
  let ?es = "grp_entries g"
  from assms have wf: "wf_entries ?es" by (simp add: wf_agenda_def)
  have eq: "ps = split_on CHR ''/'' path \<longleftrightarrow> join_under '''' ps = path"
    if "(ps, s) \<in> set (leaf_parts ?es)" for ps s
  proof -
    have "join_under '''' ps = join_str ''/'' ps"
      using leaf_parts_names [OF wf that] by (intro join_under_root) (auto simp: legal_name_iff)
    then show ?thesis using path_parts [OF wf that] by (metis join_split)
  qed
  show ?thesis
    by (auto simp: simulations_def update_leaf_def walk_leaves_parts leaf_parts_update [OF wf] eq)
qed

lemma update_at_dom [simp]: "fst ` set (update_at_parts f es ps) = fst ` set es"
  by (metis update_at_keys set_map)

lemma wf_update_at [simp]: "wf_entries es \<Longrightarrow> wf_entries (update_at_parts f es ps)"
proof (induction es arbitrary: ps rule: wf_entries.induct)
  case 1
  then show ?case by (cases "(f, [] :: entries, ps)" rule: update_at_parts.cases) auto
next
  case (2 name t es)
  show ?case
  proof (cases "ps = [] \<or> hd ps \<noteq> name")
    case True
    then show ?thesis using 2 unfolding update_at_other [OF True] by simp
  next
    case False
    then show ?thesis using 2 by (cases "(f, es, ps)" rule: update_at_parts.cases) auto
  qed
next
  case (3 name gn ges sw ds es)
  show ?case
  proof (cases "ps = [] \<or> hd ps \<noteq> name")
    case True
    then show ?thesis using 3 unfolding update_at_other [OF True] by simp
  next
    case False
    then show ?thesis using 3
      by (cases "(f, es, ps)" rule: update_at_parts.cases) (auto simp: with_entries_def)
  qed
qed

lemma wf_update_leaf [simp]: "wf_agenda g \<Longrightarrow> wf_agenda (update_leaf g path f)"
  by (simp add: wf_agenda_def update_leaf_def)

lemma leaf_at_update:
  "wf_agenda g \<Longrightarrow> leaf_at (update_leaf g path f) q
     = map_option (if q = path then f else id) (leaf_at g q)"
proof -
  assume wf: "wf_agenda g"
  have "map_of (map (\<lambda>(p, s). (p, if p = path then f s else s)) xs) q
    = map_option (if q = path then f else id) (map_of xs q)" for xs
    by (induction xs) auto
  then show ?thesis using wf by (simp add: leaf_at_map_of simulations_update)
qed

lemma traverse_keys: "keys (fst (traverse f prefix es a)) = keys es"
  by (induction f prefix es a rule: traverse.induct) (auto split: prod.splits)

lemma traverse_dom: "traverse f prefix es a = (es', a') \<Longrightarrow> fst ` set es' = fst ` set es"
  using traverse_keys [of f prefix es a] by (metis fst_conv set_map)

lemma wf_traverse: "wf_entries es \<Longrightarrow> wf_entries (fst (traverse f prefix es a))"
proof (induction f prefix es a rule: traverse.induct)
  case (2 f prefix name s es a)
  then show ?case by (auto split: prod.splits simp: traverse_dom)
next
  case (3 f prefix name gn ges sw ds es a)
  then show ?case by (auto split: prod.splits simp: traverse_dom)
qed simp

lemma wf_for_leaves [simp]: "wf_agenda g \<Longrightarrow> wf_agenda (fst (for_leaves f g a))"
  using wf_traverse [of "grp_entries g" f "''''" a]
  by (auto simp: wf_agenda_def for_leaves_def split: prod.splits)

end
