(* ===== verification/AgendaPlanner.thy ===== *)
theory AgendaPlanner
  imports AgendaTree
begin

text \<open>
  \<open>agenda/planner.py\<close>: the pure decision core. \<open>apply_states\<close> folds observed lifecycle states onto
  the agenda, \<open>plan_leaf\<close> is the branch table for one leaf, and \<open>next_actions\<close> plans every leaf in
  path order while threading a running usage, so that the batch as a whole respects the budget.
\<close>

section \<open>Resource requests\<close>

text \<open>
  \<open>ResourceRequest(**data)\<close> coerces each value as pydantic does; the three coercions are the
  argument \<open>pyd\<close>, \<open>None\<close> standing for a \<open>ValidationError\<close>.
\<close>

record pydantic =
  pd_float :: "json \<Rightarrow> pyfloat option"
  pd_opt_str :: "json \<Rightarrow> string option option"
  pd_bool :: "json \<Rightarrow> bool option"

definition resource_keys :: "string list" where
  "resource_keys = [''est_core_hours'', ''est_gpu_hours'', ''partition'', ''is_gpu'']"

text \<open>\<open>spec["resources"]\<close> first, when it is a mapping, then the same keys at the top level.\<close>

definition resource_value :: "spec \<Rightarrow> string \<Rightarrow> json option" where
  "resource_value sp key =
     (case map_of sp ''resources'' of
        Some (JObj nested) \<Rightarrow> (case map_of nested key of Some v \<Rightarrow> Some v | None \<Rightarrow> map_of sp key)
      | _ \<Rightarrow> map_of sp key)"

definition coerced :: "(json \<Rightarrow> 'a option) \<Rightarrow> 'a \<Rightarrow> json option \<Rightarrow> 'a option" where
  "coerced c dflt v = (case v of None \<Rightarrow> Some dflt | Some j \<Rightarrow> c j)"

definition resource_request_from_spec :: "pydantic \<Rightarrow> spec \<Rightarrow> resource_request option" where
  "resource_request_from_spec pyd sp =
     (case (coerced (pd_float pyd) (Fin 0) (resource_value sp ''est_core_hours''),
            coerced (pd_float pyd) (Fin 0) (resource_value sp ''est_gpu_hours''),
            coerced (pd_opt_str pyd) None (resource_value sp ''partition''),
            coerced (pd_bool pyd) False (resource_value sp ''is_gpu'')) of
        (Some ec, Some eg, Some p, Some g) \<Rightarrow>
          Some \<lparr>rq_est_core_hours = ec, rq_est_gpu_hours = eg, rq_partition = p, rq_is_gpu = g\<rparr>
      | _ \<Rightarrow> None)"

section \<open>Folding observed states\<close>

definition simulation_state_status :: "(string \<times> status) list" where
  "simulation_state_status =
    [(''accepted'', Submitted), (''simulation.submitted'', Submitted),
     (''simulation.job_running'', Running), (''simulation.step_finished'', Running),
     (''workflow.finished'', Running), (''simulation.checkpoint'', Running),
     (''results.ready'', Done), (''simulation.job_finished'', Done),
     (''simulation.job_failed'', Failed), (''simulation.failed'', Failed),
     (''simulation.cancelled'', Failed)]"

definition apply_state :: "(string \<times> string) list \<Rightarrow> string \<Rightarrow> agenda_sim \<Rightarrow> agenda_sim" where
  "apply_state states path s =
     (case map_of simulation_state_status (get_or states path '''') of
        None \<Rightarrow> s | Some st \<Rightarrow> s\<lparr>sim_status := st\<rparr>)"

definition apply_states :: "agenda_group \<Rightarrow> (string \<times> string) list \<Rightarrow> agenda_group" where
  "apply_states g states = fst (for_leaves (\<lambda>path s (_ :: unit). (apply_state states path s, ())) g ())"

section \<open>Dependencies\<close>

text \<open>\<open>_index_entries\<close>: every entry by its full path, and the group that holds it.\<close>

fun index_paths :: "entries \<Rightarrow> string \<Rightarrow> (string \<times> agenda_entry) list" where
  "index_paths [] prefix = []"
| "index_paths ((name, ESim s) # es) prefix = (child_path prefix name, ESim s) # index_paths es prefix"
| "index_paths ((name, EGroup (AgendaGroup gn ges sw ds)) # es) prefix =
     (child_path prefix name, EGroup (AgendaGroup gn ges sw ds))
     # index_paths ges (child_path prefix name) @ index_paths es prefix"

fun index_parents :: "entries \<Rightarrow> entries \<Rightarrow> string \<Rightarrow> (string \<times> entries) list" where
  "index_parents held [] prefix = []"
| "index_parents held ((name, ESim s) # es) prefix = (child_path prefix name, held) # index_parents held es prefix"
| "index_parents held ((name, EGroup (AgendaGroup gn ges sw ds)) # es) prefix =
     (child_path prefix name, held)
     # index_parents ges ges (child_path prefix name) @ index_parents held es prefix"

fun subtree_done :: "agenda_entry \<Rightarrow> bool" where
  "subtree_done (ESim s) = (sim_status s = Done)"
| "subtree_done (EGroup (AgendaGroup gn ges sw ds)) = list_all (\<lambda>(n, e). subtree_done e) ges"

fun subtree_failed :: "agenda_entry \<Rightarrow> bool" where
  "subtree_failed (ESim s) = (sim_status s = Failed)"
| "subtree_failed (EGroup (AgendaGroup gn ges sw ds)) = list_ex (\<lambda>(n, e). subtree_failed e) ges"

definition resolve_dependency :: "string \<Rightarrow> entries option \<Rightarrow> (string \<times> agenda_entry) list
    \<Rightarrow> agenda_entry option" where
  "resolve_dependency dep parent paths =
     (case (case parent of None \<Rightarrow> None | Some es \<Rightarrow> map_of es dep) of
        Some e \<Rightarrow> Some e
      | None \<Rightarrow> (case map_of paths dep of
          Some e \<Rightarrow> Some e
        | None \<Rightarrow> (case parent of None \<Rightarrow> None | Some es \<Rightarrow> map_of es (last (split_on CHR ''/'' dep)))))"

section \<open>Planning one leaf\<close>

datatype plan_action = ActSubmit | ActWait | ActDone | ActFailed

text \<open>The \<open>reason\<close> of a step, one constructor per message.\<close>

datatype plan_reason =
    Already status
  | DependencyFailed "string list"
  | DependencyNotDone "string list"
  | OverBudget budget_error

definition status_text :: "status \<Rightarrow> string" where
  "status_text st = (case st of Planned \<Rightarrow> ''planned'' | Submitted \<Rightarrow> ''submitted'' | Running \<Rightarrow> ''running''
     | Done \<Rightarrow> ''done'' | Failed \<Rightarrow> ''failed'')"

text \<open>\<open>str(exc)\<close> of a \<open>BudgetExceededError\<close>; \<open>g\<close> is the format \<open>:g\<close> of a float.\<close>

definition budget_message :: "(pyfloat \<Rightarrow> string) \<Rightarrow> budget_error \<Rightarrow> string" where
  "budget_message g e = (case e of
     JobBudgetExhausted n cap \<Rightarrow> ''job budget exhausted: '' @ show_int n @ '' submitted, cap '' @ show_int cap
       @ '' (this request would exceed it)''
   | ConcurrencyCapReached n cap \<Rightarrow> ''concurrency cap reached: '' @ show_int n @ '' running, cap ''
       @ show_int cap @ '' (this request would exceed it)''
   | CoreHoursExhausted left need cap \<Rightarrow> ''core-hour budget exhausted: '' @ g left
       @ '' h remaining, request needs '' @ g need @ '' h (cap '' @ g cap @ '' h)''
   | GpuHoursExhausted left need cap \<Rightarrow> ''gpu-hour budget exhausted: '' @ g left
       @ '' h remaining, request needs '' @ g need @ '' h (cap '' @ g cap @ '' h)''
   | PartitionNotAllowed p allowed \<Rightarrow> ''partition '' @ (case p of None \<Rightarrow> ''None'' | Some s \<Rightarrow> repr_str s)
       @ '' is not allowed; permitted: ''
       @ (if join_str '', '' allowed = [] then ''(none)'' else join_str '', '' allowed))"

definition reason_text :: "(pyfloat \<Rightarrow> string) \<Rightarrow> plan_reason \<Rightarrow> string" where
  "reason_text g r = (case r of
     Already st \<Rightarrow> ''already '' @ status_text st
   | DependencyFailed ds \<Rightarrow> ''dependency failed: '' @ join_str '', '' ds
   | DependencyNotDone ds \<Rightarrow> ''dependency not done: '' @ join_str '', '' ds
   | OverBudget e \<Rightarrow> budget_message g e)"

record plan_step =
  st_name :: string
  st_path :: string
  st_spec :: spec
  st_point :: "point option"
  st_action :: plan_action
  st_reason :: "plan_reason option"

definition dep_blocked :: "entries option \<Rightarrow> (string \<times> agenda_entry) list \<Rightarrow> string \<Rightarrow> bool" where
  "dep_blocked parent paths dep = (case resolve_dependency dep parent paths of
     None \<Rightarrow> False | Some e \<Rightarrow> subtree_failed e)"

definition dep_unmet :: "entries option \<Rightarrow> (string \<times> agenda_entry) list \<Rightarrow> string \<Rightarrow> bool" where
  "dep_unmet parent paths dep = (case resolve_dependency dep parent paths of
     None \<Rightarrow> True | Some e \<Rightarrow> \<not> subtree_failed e \<and> \<not> subtree_done e)"

definition plan_leaf :: "pydantic \<Rightarrow> budget \<Rightarrow> budget_usage \<Rightarrow> (string \<times> agenda_entry) list
    \<Rightarrow> entries option \<Rightarrow> string \<Rightarrow> agenda_sim \<Rightarrow> plan_step option" where
  "plan_leaf pyd b u paths parent path s =
     (let base = \<lparr>st_name = sim_name s, st_path = path, st_spec = sim_spec s, st_point = sim_point s,
                  st_action = ActWait, st_reason = None\<rparr>;
          blocked = filter (dep_blocked parent paths) (sim_depends_on s);
          unmet = filter (dep_unmet parent paths) (sim_depends_on s)
      in if sim_status s = Done then Some (base\<lparr>st_action := ActDone\<rparr>)
         else if sim_status s = Failed then Some (base\<lparr>st_action := ActFailed\<rparr>)
         else if sim_status s \<in> {Submitted, Running}
           then Some (base\<lparr>st_reason := Some (Already (sim_status s))\<rparr>)
         else if blocked \<noteq> []
           then Some (base\<lparr>st_action := ActFailed, st_reason := Some (DependencyFailed blocked)\<rparr>)
         else if unmet \<noteq> []
           then Some (base\<lparr>st_reason := Some (DependencyNotDone unmet)\<rparr>)
         else (case resource_request_from_spec pyd (sim_spec s) of None \<Rightarrow> None
           | Some r \<Rightarrow> (case check_admission b u r of
               Some e \<Rightarrow> Some (base\<lparr>st_reason := Some (OverBudget e)\<rparr>)
             | None \<Rightarrow> Some (base\<lparr>st_action := ActSubmit\<rparr>))))"

section \<open>Planning the batch\<close>

definition in_flight :: "agenda_sim \<Rightarrow> bool" where
  "in_flight s \<longleftrightarrow> sim_status s \<in> {Submitted, Running}"

definition count_in_flight :: "agenda_group \<Rightarrow> int" where
  "count_in_flight g = int (length (filter (\<lambda>(p, s). in_flight s) (simulations g)))"

text \<open>
  The loop of \<open>next_actions\<close>: each emitted \<open>submit\<close> is charged to the running usage before the next
  leaf is planned. \<open>None\<close> is the \<open>ValidationError\<close> of a spec whose resources do not parse.
\<close>

fun plan_leaves :: "pydantic \<Rightarrow> budget \<Rightarrow> (string \<times> agenda_entry) list \<Rightarrow> (string \<times> entries) list
    \<Rightarrow> budget_usage \<Rightarrow> (string \<times> agenda_sim) list \<Rightarrow> plan_step list option" where
  "plan_leaves pyd b paths parents u [] = Some []"
| "plan_leaves pyd b paths parents u ((path, s) # leaves) =
     (case plan_leaf pyd b u paths (map_of parents path) path s of None \<Rightarrow> None
      | Some step \<Rightarrow>
        (case (if st_action step = ActSubmit
               then map_option (charge u) (resource_request_from_spec pyd (sim_spec s)) else Some u) of
           None \<Rightarrow> None
         | Some u' \<Rightarrow> map_option ((#) step) (plan_leaves pyd b paths parents u' leaves)))"

definition next_actions :: "pydantic \<Rightarrow> agenda_group \<Rightarrow> (string \<times> string) list \<Rightarrow> budget \<Rightarrow> budget_usage
    \<Rightarrow> plan_step list option" where
  "next_actions pyd g states b u =
     (let effective = apply_states g states
      in plan_leaves pyd b (dict_of (index_paths (grp_entries effective) ''''))
           (dict_of (index_parents (grp_entries effective) (grp_entries effective) ''''))
           (u\<lparr>us_jobs_running := count_in_flight effective\<rparr>) (simulations effective))"

section \<open>Facts on planning\<close>

lemma simulations_apply_states [pass_simps]:
  "simulations (apply_states g states) = map (\<lambda>(p, s). (p, apply_state states p s)) (simulations g)"
  unfolding apply_states_def simulations_for_leaves by (rule thread_map) simp

lemma apply_states_nil [simp]: "apply_state [] p s = s"
  by (simp add: apply_state_def get_or_def simulation_state_status_def)

lemma thread_id: "(\<And>p s a. fst (f p s a) = s) \<Longrightarrow> fst (thread f xs a) = xs"
  by (induction xs arbitrary: a) (auto split: prod.splits, (metis fst_conv)+)

lemma apply_state_frame [simp]:
  "sim_spec (apply_state st p s) = sim_spec s" "sim_id (apply_state st p s) = sim_id s"
  "sim_depends_on (apply_state st p s) = sim_depends_on s" "sim_point (apply_state st p s) = sim_point s"
  "sim_name (apply_state st p s) = sim_name s" "sim_run_id (apply_state st p s) = sim_run_id s"
  by (simp_all add: apply_state_def split: option.splits)

lemma plan_leaf_path: "plan_leaf pyd b u paths par path s = Some step \<Longrightarrow>
    st_path step = path \<and> st_spec step = sim_spec s \<and> st_name step = sim_name s \<and> st_point step = sim_point s"
  by (auto simp: plan_leaf_def Let_def split: if_splits option.splits)

lemma plan_leaf_submit_iff:
  "plan_leaf pyd b u paths par path s = Some step \<Longrightarrow>
   st_action step = ActSubmit \<longleftrightarrow>
     sim_status s = Planned \<and>
     (\<forall>d \<in> set (sim_depends_on s). \<not> dep_blocked par paths d \<and> \<not> dep_unmet par paths d) \<and>
     (\<exists>r. resource_request_from_spec pyd (sim_spec s) = Some r \<and> admits b u r)"
  by (cases "sim_status s")
    (auto simp: plan_leaf_def Let_def admits_def filter_empty_conv split: if_splits option.splits)

lemma dep_met_iff:
  "\<not> dep_blocked par paths d \<and> \<not> dep_unmet par paths d \<longleftrightarrow>
   (\<exists>e. resolve_dependency d par paths = Some e \<and> subtree_done e \<and> \<not> subtree_failed e)"
  by (auto simp: dep_blocked_def dep_unmet_def split: option.splits)

lemma plan_leaves_paths:
  "plan_leaves pyd b paths parents u leaves = Some steps \<Longrightarrow>
   map st_path steps = map fst leaves \<and> map st_spec steps = map (sim_spec \<circ> snd) leaves"
proof (induction pyd b paths parents u leaves arbitrary: steps rule: plan_leaves.induct)
  case (2 pyd b paths parents u path s leaves)
  then show ?case by (auto split: option.splits if_splits dest: plan_leaf_path)
qed auto

text \<open>The requests that a plan submits, and the usage that charging them gives.\<close>

definition submit_requests :: "pydantic \<Rightarrow> plan_step list \<Rightarrow> resource_request list" where
  "submit_requests pyd steps =
     map (\<lambda>st. case resource_request_from_spec pyd (st_spec st) of Some r \<Rightarrow> r | None \<Rightarrow> default_request)
       (filter (\<lambda>st. st_action st = ActSubmit) steps)"

definition planned_usage :: "pydantic \<Rightarrow> budget_usage \<Rightarrow> plan_step list \<Rightarrow> budget_usage" where
  "planned_usage pyd u steps = fold (\<lambda>r u. charge u r) (submit_requests pyd steps) u"

text \<open>Every request of the plan was admitted at its turn, so charging the plan is a run of the gate.\<close>

lemma planned_usage_gate:
  "plan_leaves pyd b paths parents u leaves = Some steps \<Longrightarrow>
   planned_usage pyd u steps = run_gate (admits b) charge u (submit_requests pyd steps)"
proof (induction pyd b paths parents u leaves arbitrary: steps rule: plan_leaves.induct)
  case (2 pyd b paths parents u path s leaves)
  then obtain step where step: "plan_leaf pyd b u paths (map_of parents path) path s = Some step"
    by (auto split: option.splits)
  note submit = plan_leaf_submit_iff [OF step] and spec = plan_leaf_path [OF step]
  show ?case
  proof (cases "st_action step = ActSubmit")
    case True
    then obtain r where r: "resource_request_from_spec pyd (sim_spec s) = Some r" "admits b u r"
      using submit by blast
    with True step "2.prems" obtain rest where
      rest: "plan_leaves pyd b paths parents (charge u r) leaves = Some rest" "steps = step # rest"
      by (auto split: option.splits)
    have "planned_usage pyd (charge u r) rest = run_gate (admits b) charge (charge u r) (submit_requests pyd rest)"
      using "2.IH" [OF step] True r rest by simp
    with True r rest spec show ?thesis by (simp add: planned_usage_def submit_requests_def)
  next
    case False
    with step "2.prems" obtain rest where
      rest: "plan_leaves pyd b paths parents u leaves = Some rest" "steps = step # rest"
      by (auto split: option.splits)
    with "2.IH" [OF step] False show ?thesis by (simp add: planned_usage_def submit_requests_def)
  qed
qed (simp add: planned_usage_def submit_requests_def)

lemma planned_usage_fits:
  assumes "plan_leaves pyd b paths parents u leaves = Some steps" "within_budget b u" "b64_usage u"
  shows "within_budget b (planned_usage pyd u steps)"
  using budget_gate.run_fits [of b u] assms by (simp add: planned_usage_gate)

lemma fold_charge_running:
  "us_jobs_running (fold (\<lambda>r u. charge u r) rs u) = us_jobs_running u + int (length rs)"
  "us_jobs_submitted (fold (\<lambda>r u. charge u r) rs u) = us_jobs_submitted u + int (length rs)"
  by (induction rs arbitrary: u) auto

lemma plan_running_cap:
  "plan_leaves pyd b paths parents u leaves = Some steps \<Longrightarrow> bg_max_concurrent_jobs b = Some cap \<Longrightarrow>
   us_jobs_running (planned_usage pyd u steps) \<le> max cap (us_jobs_running u)"
proof (induction pyd b paths parents u leaves arbitrary: steps rule: plan_leaves.induct)
  case (2 pyd b paths parents u path s leaves)
  then obtain step where step: "plan_leaf pyd b u paths (map_of parents path) path s = Some step"
    by (auto split: option.splits)
  note submit = plan_leaf_submit_iff [OF step] and spec = plan_leaf_path [OF step]
  show ?case
  proof (cases "st_action step = ActSubmit")
    case True
    then obtain r where r: "resource_request_from_spec pyd (sim_spec s) = Some r" "admits b u r"
      using submit by blast
    with True step "2.prems" obtain rest where
      rest: "plan_leaves pyd b paths parents (charge u r) leaves = Some rest" "steps = step # rest"
      by (auto split: option.splits)
    have "us_jobs_running (planned_usage pyd (charge u r) rest) \<le> max cap (us_jobs_running (charge u r))"
      using True r by (intro "2.IH" [OF step _ rest(1) "2.prems"(2)]) simp
    moreover have "us_jobs_running u + 1 \<le> cap" using r "2.prems"(2) by (simp add: admits_iff)
    ultimately show ?thesis using True r rest spec by (simp add: planned_usage_def submit_requests_def)
  next
    case False
    with step "2.prems" obtain rest where
      rest: "plan_leaves pyd b paths parents u leaves = Some rest" "steps = step # rest"
      by (auto split: option.splits)
    with "2.IH" [OF step] False "2.prems" show ?thesis by (simp add: planned_usage_def submit_requests_def)
  qed
qed (simp add: planned_usage_def submit_requests_def)

lemma plan_leaves_submit:
  "plan_leaves pyd b paths parents u leaves = Some steps \<Longrightarrow> step \<in> set steps \<Longrightarrow> st_action step = ActSubmit \<Longrightarrow>
   \<exists>s. (st_path step, s) \<in> set leaves \<and> st_spec step = sim_spec s \<and> sim_status s = Planned \<and>
     (\<forall>d \<in> set (sim_depends_on s). \<exists>e. resolve_dependency d (map_of parents (st_path step)) paths = Some e
        \<and> subtree_done e \<and> \<not> subtree_failed e)"
proof (induction pyd b paths parents u leaves arbitrary: steps rule: plan_leaves.induct)
  case (2 pyd b paths parents u path s leaves)
  then obtain st u' rest where
    st: "plan_leaf pyd b u paths (map_of parents path) path s = Some st"
    and rest: "steps = st # rest" "plan_leaves pyd b paths parents u' leaves = Some rest"
    and u': "(if st_action st = ActSubmit then map_option (charge u) (resource_request_from_spec pyd (sim_spec s))
       else Some u) = Some u'"
    by (auto split: option.splits)
  show ?case
  proof (cases "step = st")
    case True
    have "sim_status s = Planned" and deps: "\<forall>d \<in> set (sim_depends_on s).
        \<not> dep_blocked (map_of parents path) paths d \<and> \<not> dep_unmet (map_of parents path) paths d"
      using True "2.prems"(3) plan_leaf_submit_iff [OF st] by blast+
    then show ?thesis using True plan_leaf_path [OF st] unfolding dep_met_iff by auto
  next
    case False
    with "2.prems"(2) rest have "step \<in> set rest" by simp
    with "2.IH" [OF st u'] rest "2.prems"(3) show ?thesis by auto
  qed
qed auto

end
