(* ===== verification/AgendaReuse.thy ===== *)
theory AgendaReuse
  imports Prelude
begin

text \<open>
  \<open>agenda/reuse.py\<close>: the content-addressed registry of runs. A record is \<open>pending\<close> from the moment
  a direct submission is accepted until a \<open>results.ready\<close> event promotes it to \<open>done\<close>; only \<open>done\<close>
  records are returned by \<open>lookup\<close>. The theory shows that a completed result is never lost and that
  every outstanding run of a spec can promote its record.
\<close>

record reuse_record =
  ru_wire_hash :: string
  ru_sim_id :: string
  ru_state :: string
  ru_run_dir :: "string option"
  ru_ts :: "string option"
  ru_run_id :: "string option"
  ru_pending_run_ids :: "string list"

type_synonym registry = "(string \<times> reuse_record) list"

definition reusable_states :: "string list" where
  "reusable_states = [''done'']"

definition pending_state :: string where
  "pending_state = ''pending''"

definition lookup :: "registry \<Rightarrow> string \<Rightarrow> reuse_record option" where
  "lookup reg h = (case map_of reg h of None \<Rightarrow> None
     | Some r \<Rightarrow> if ru_state r \<in> set reusable_states then Some r else None)"

definition remember :: "registry \<Rightarrow> reuse_record \<Rightarrow> registry" where
  "remember reg r = AList.update (ru_wire_hash r) r reg"

definition add_pending :: "string list \<Rightarrow> string option \<Rightarrow> string list" where
  "add_pending ids rid = (if truthy rid \<and> the rid \<notin> set ids then ids @ [the rid] else ids)"

definition record_direct :: "registry \<Rightarrow> reuse_record \<Rightarrow> registry" where
  "record_direct reg r = (case map_of reg (ru_wire_hash r) of
     None \<Rightarrow> remember reg r
   | Some ex \<Rightarrow>
       if ru_state ex \<in> set reusable_states then reg
       else if ru_state r \<in> set reusable_states
         then remember reg (ex\<lparr>ru_state := ru_state r, ru_run_id := ru_run_id r, ru_pending_run_ids := []\<rparr>)
       else (let ids = add_pending (add_pending (ru_pending_run_ids ex) (ru_run_id ex)) (ru_run_id r)
         in if ids = ru_pending_run_ids ex then reg else remember reg (ex\<lparr>ru_pending_run_ids := ids\<rparr>)))"

text \<open>A record that \<open>promote\<close> may promote for \<open>run_id\<close>.\<close>

definition awaits :: "reuse_record \<Rightarrow> string \<Rightarrow> bool" where
  "awaits r rid \<longleftrightarrow> ru_state r = pending_state \<and> (ru_run_id r = Some rid \<or> rid \<in> set (ru_pending_run_ids r))"

definition promote :: "registry \<Rightarrow> string \<Rightarrow> string \<Rightarrow> registry" where
  "promote reg rid state =
     (if rid = [] then reg
      else case find (\<lambda>(h, r). awaits r rid) reg of
        None \<Rightarrow> reg
      | Some (h, r) \<Rightarrow> AList.update h (r\<lparr>ru_state := state, ru_run_id := Some rid, ru_pending_run_ids := []\<rparr>) reg)"

section \<open>Invariant\<close>

text \<open>
  Keys are distinct and every record is stored under its own wire hash, and no id is awaited by two
  records: an id is a hash of the campaign, the leaf path and the spec.
\<close>

definition wf_registry :: "registry \<Rightarrow> bool" where
  "wf_registry reg \<longleftrightarrow> distinct (keys reg) \<and> (\<forall>(h, r) \<in> set reg. ru_wire_hash r = h)"

lemma wf_registry_hash: "wf_registry reg \<Longrightarrow> map_of reg h = Some r \<Longrightarrow> ru_wire_hash r = h"
  by (auto simp: wf_registry_def dest!: map_of_SomeD)

lemma wf_update: "wf_registry reg \<Longrightarrow> ru_wire_hash r = h \<Longrightarrow> wf_registry (AList.update h r reg)"
  using update_set [of h r reg] by (auto simp: wf_registry_def distinct_update)

lemma wf_remember [simp]: "wf_registry reg \<Longrightarrow> wf_registry (remember reg r)"
  by (simp add: remember_def wf_update)

lemma wf_record_direct [simp]: "wf_registry reg \<Longrightarrow> wf_registry (record_direct reg r)"
  by (simp add: record_direct_def Let_def split: option.splits)

lemma find_SomeD: "find P xs = Some x \<Longrightarrow> x \<in> set xs \<and> P x"
  by (auto simp: find_Some_iff)

lemma wf_promote [simp]: "wf_registry reg \<Longrightarrow> wf_registry (promote reg rid st)"
proof -
  assume wf: "wf_registry reg"
  have "ru_wire_hash r = h" if "find (\<lambda>(h, r). awaits r rid) reg = Some (h, r)" for h r
    using find_SomeD [OF that] wf by (auto simp: wf_registry_def)
  then show ?thesis using wf by (auto simp: promote_def wf_update split: option.splits)
qed

section \<open>A store of completed results\<close>

text \<open>
  The contract the engine relies on: no operation of the store takes back a result it has once
  returned. It then holds along any history of operations.
\<close>

locale completed_store =
  fixes find_result :: "'s \<Rightarrow> 'k \<Rightarrow> 'r option"
    and step :: "'s \<Rightarrow> 'op \<Rightarrow> 's"
    and inv :: "'s \<Rightarrow> bool"
  assumes inv_step: "inv s \<Longrightarrow> inv (step s x)"
    and keeps: "inv s \<Longrightarrow> find_result s k = Some r \<Longrightarrow> find_result (step s x) k = Some r"
begin

lemma inv_run: "inv s \<Longrightarrow> inv (fold (\<lambda>x s. step s x) xs s)"
  by (induction xs arbitrary: s) (auto intro: inv_step)

lemma keeps_run:
  "inv s \<Longrightarrow> find_result s k = Some r \<Longrightarrow> find_result (fold (\<lambda>x s. step s x) xs s) k = Some r"
  by (induction xs arbitrary: s) (auto intro: inv_step keeps)

end

text \<open>The two operations the server applies as submissions are accepted and results arrive.\<close>

datatype reuse_op = RecordDirect reuse_record | Promote string

fun reuse_step :: "registry \<Rightarrow> reuse_op \<Rightarrow> registry" where
  "reuse_step reg (RecordDirect r) = record_direct reg r"
| "reuse_step reg (Promote rid) = promote reg rid ''done''"

lemma lookup_SomeD: "lookup reg h = Some r \<Longrightarrow> map_of reg h = Some r \<and> ru_state r = ''done''"
  by (auto simp: lookup_def reusable_states_def split: option.splits if_splits)

lemma record_direct_keeps:
  assumes wf: "wf_registry reg" and l: "lookup reg h = Some r" shows "lookup (record_direct reg x) h = Some r"
proof -
  have m: "map_of reg h = Some r" "ru_state r \<in> set reusable_states"
    using lookup_SomeD [OF l] by (auto simp: reusable_states_def)
  let ?k = "ru_wire_hash x"
  have keep: "lookup (remember reg y) h = Some r" if "ru_wire_hash y \<noteq> h" for y
    using that l by (simp add: lookup_def remember_def)
  show ?thesis
  proof (cases "map_of reg ?k")
    case None
    with m have "?k \<noteq> h" by auto
    with None show ?thesis by (simp add: record_direct_def keep)
  next
    case (Some ex)
    have h: "ru_wire_hash ex = ?k" using wf_registry_hash [OF wf Some] .
    show ?thesis
    proof (cases "ru_state ex \<in> set reusable_states")
      case True
      with Some l show ?thesis by (simp add: record_direct_def)
    next
      case False
      with m Some have "?k \<noteq> h" by auto
      with Some False h l show ?thesis by (auto simp: record_direct_def keep Let_def)
    qed
  qed
qed

lemma promote_keeps:
  assumes wf: "wf_registry reg" and l: "lookup reg h = Some r" shows "lookup (promote reg rid st) h = Some r"
proof -
  have m: "map_of reg h = Some r" "ru_state r = ''done''" using lookup_SomeD [OF l] by auto
  have "k \<noteq> h" if "find (\<lambda>(h, r). awaits r rid) reg = Some (k, x)" for k x
  proof -
    from find_SomeD [OF that] wf have "map_of reg k = Some x" "awaits x rid"
      by (auto simp: wf_registry_def)
    with m show ?thesis by (auto simp: awaits_def pending_state_def)
  qed
  then show ?thesis using l by (auto simp: promote_def lookup_def split: option.splits)
qed

interpretation reuse: completed_store lookup reuse_step wf_registry
proof
  show "wf_registry (reuse_step s x)" if "wf_registry s" for s x
    using that by (cases x) auto
  show "lookup (reuse_step s x) k = Some r" if "wf_registry s" "lookup s k = Some r" for s k r x
    using that by (cases x) (auto intro: record_direct_keeps promote_keeps)
qed

section \<open>Every outstanding run can promote its record\<close>

definition awaited_at :: "registry \<Rightarrow> string \<Rightarrow> string \<Rightarrow> bool" where
  "awaited_at reg h rid \<longleftrightarrow> (\<exists>r. map_of reg h = Some r \<and> awaits r rid)"

lemma add_pending_set: "set (add_pending ids rid) = set ids \<union> (if truthy rid then {the rid} else {})"
  by (auto simp: add_pending_def)

lemma record_direct_awaits:
  assumes "ru_run_id r = Some rid" "rid \<noteq> []" "ru_state r = pending_state"
    and "\<forall>ex. map_of reg (ru_wire_hash r) = Some ex \<longrightarrow> ru_state ex = pending_state"
    and "wf_registry reg"
  shows "awaited_at (record_direct reg r) (ru_wire_hash r) rid"
proof (cases "map_of reg (ru_wire_hash r)")
  case None
  with assms show ?thesis by (simp add: awaited_at_def awaits_def record_direct_def remember_def)
next
  case (Some ex)
  with assms(4) have ex: "ru_state ex = pending_state" by blast
  have h: "ru_wire_hash ex = ru_wire_hash r" using wf_registry_hash [OF assms(5) Some] .
  define ids where "ids = add_pending (add_pending (ru_pending_run_ids ex) (ru_run_id ex)) (ru_run_id r)"
  have "rid \<in> set ids" using assms(1,2) by (simp add: ids_def add_pending_set truthy_def)
  moreover have "record_direct reg r = (if ids = ru_pending_run_ids ex then reg
      else remember reg (ex\<lparr>ru_pending_run_ids := ids\<rparr>))"
    using Some ex assms(3) by (simp add: record_direct_def ids_def Let_def reusable_states_def pending_state_def)
  ultimately show ?thesis using Some ex h by (auto simp: awaited_at_def awaits_def remember_def)
qed

lemma record_direct_keeps_awaited:
  assumes "awaited_at reg h rid" "rid \<noteq> []" "ru_state r = pending_state" "wf_registry reg"
  shows "awaited_at (record_direct reg r) h rid"
proof -
  obtain x where x: "map_of reg h = Some x" "awaits x rid" using assms(1) by (auto simp: awaited_at_def)
  show ?thesis
  proof (cases "h = ru_wire_hash r")
    case False
    then show ?thesis using x wf_registry_hash [OF assms(4)]
      by (auto simp: awaited_at_def record_direct_def remember_def Let_def split: option.splits)
  next
    case True
    define ids where "ids = add_pending (add_pending (ru_pending_run_ids x) (ru_run_id x)) (ru_run_id r)"
    have "rid \<in> set ids" using x(2) assms(2) by (auto simp: ids_def add_pending_set awaits_def truthy_def)
    moreover have "record_direct reg r = (if ids = ru_pending_run_ids x then reg
        else remember reg (x\<lparr>ru_pending_run_ids := ids\<rparr>))"
      using True x assms(3)
      by (simp add: record_direct_def ids_def Let_def reusable_states_def pending_state_def awaits_def)
    ultimately show ?thesis using x True wf_registry_hash [OF assms(4) x(1)]
      by (auto simp: awaited_at_def awaits_def remember_def)
  qed
qed

text \<open>
  When \<open>h\<close> is the only record that awaits \<open>rid\<close>, the event of that run makes its result reusable
  under the run's own identity.
\<close>

lemma promote_completes:
  assumes "awaited_at reg h rid" "rid \<noteq> []" "wf_registry reg"
    and "\<forall>k. awaited_at reg k rid \<longrightarrow> k = h"
  shows "\<exists>r. lookup (promote reg rid ''done'') h = Some r \<and> ru_run_id r = Some rid"
proof -
  obtain x where x: "map_of reg h = Some x" "awaits x rid" using assms(1) by (auto simp: awaited_at_def)
  then have "find (\<lambda>(h, r). awaits r rid) reg \<noteq> None"
    by (auto simp: find_None_iff dest!: map_of_SomeD)
  then obtain k y where ky: "find (\<lambda>(h, r). awaits r rid) reg = Some (k, y)" by auto
  from find_SomeD [OF this] assms(3) have "map_of reg k = Some y" "awaits y rid"
    by (auto simp: wf_registry_def)
  with assms(4) have "k = h" by (auto simp: awaited_at_def)
  then show ?thesis using ky assms(2) by (simp add: promote_def lookup_def reusable_states_def)
qed

lemma promote_idempotent:
  assumes "wf_registry reg" "\<forall>k k'. awaited_at reg k rid \<longrightarrow> awaited_at reg k' rid \<longrightarrow> k = k'"
  shows "promote (promote reg rid ''done'') rid ''done'' = promote reg rid ''done''"
proof (cases "rid = [] \<or> find (\<lambda>(h, r). awaits r rid) reg = None")
  case True
  then show ?thesis by (auto simp: promote_def)
next
  case False
  then obtain k y where ky: "find (\<lambda>(h, r). awaits r rid) reg = Some (k, y)" by auto
  from find_SomeD [OF this] assms(1) have y: "map_of reg k = Some y" "awaits y rid"
    by (auto simp: wf_registry_def)
  let ?r = "AList.update k (y\<lparr>ru_state := ''done'', ru_run_id := Some rid, ru_pending_run_ids := []\<rparr>) reg"
  have p: "promote reg rid ''done'' = ?r" using ky False by (simp add: promote_def)
  have "\<not> awaits r rid" if "(h, r) \<in> set ?r" for h r
  proof
    assume "awaits r rid"
    have d: "distinct (keys ?r)" using assms(1) by (simp add: wf_registry_def distinct_update)
    from map_of_is_SomeI [OF d that] have m: "map_of ?r h = Some r" .
    show False
    proof (cases "h = k")
      case True
      with m \<open>awaits r rid\<close> show False by (auto simp: awaits_def pending_state_def)
    next
      case False
      with m \<open>awaits r rid\<close> have "awaited_at reg h rid" by (auto simp: awaited_at_def)
      moreover have "awaited_at reg k rid" using y by (auto simp: awaited_at_def)
      ultimately show False using assms(2) False by blast
    qed
  qed
  then have "find (\<lambda>(h, r). awaits r rid) ?r = None" by (auto simp: find_None_iff)
  then show ?thesis using p by (simp add: promote_def)
qed

end
