(* ===== verification/AgendaCampaign.thy ===== *)
theory AgendaCampaign
  imports AgendaPlanner AgendaReuse
begin

text \<open>
  The data of \<open>agenda/campaign.py\<close> and \<open>agenda/engine.py\<close>, the identities the engine derives from a
  leaf (\<open>_spec_hash\<close>, \<open>_wire_hash\<close>, \<open>_idempotency_key_for\<close>), and the digest of a tick's failures.
\<close>

section \<open>Campaigns\<close>

datatype campaign_state = CRunning | CPaused | CStopped

datatype callback_kind = KDone | KFailed

record callback =
  cb_path :: string
  cb_kind :: callback_kind
  cb_sim_id :: "string option"
  cb_ts :: "string option"
  cb_error :: "string option"
  cb_error_code :: "string option"
  cb_stage :: "string option"
  cb_suspect :: "string option"

definition new_callback :: "string \<Rightarrow> callback_kind \<Rightarrow> string option \<Rightarrow> string \<Rightarrow> callback" where
  "new_callback path kind sid ts = \<lparr>cb_path = path, cb_kind = kind, cb_sim_id = sid, cb_ts = Some ts,
     cb_error = None, cb_error_code = None, cb_stage = None, cb_suspect = None\<rparr>"

record campaign =
  cp_name :: string
  cp_agenda :: agenda_group
  cp_budget :: budget
  cp_usage :: budget_usage
  cp_created_ts :: "string option"
  cp_callbacks :: "callback list"
  cp_state :: campaign_state
  cp_analyses :: "(string \<times> json) list"
  cp_conclusion :: "string option"

definition with_created_ts :: "string \<Rightarrow> campaign \<Rightarrow> campaign" where
  "with_created_ts now c = (if truthy (cp_created_ts c) then c else c\<lparr>cp_created_ts := Some now\<rparr>)"

section \<open>The engine's own records\<close>

record actual_usage =
  au_core_hours :: pyfloat
  au_gpu_hours :: pyfloat
  au_is_gpu :: bool

record failure_info =
  fi_error :: "string option"
  fi_error_code :: "string option"
  fi_stage :: "string option"

record suspect_info =
  su_warning :: string

record engine_policy =
  po_max_submits_per_tick :: int
  po_require_approval :: bool
  po_approve_over_est_core_hours :: "pyfloat option"
  po_deferred_outcome_timeout_s :: pyfloat

definition default_policy :: engine_policy where
  "default_policy = \<lparr>po_max_submits_per_tick = 8, po_require_approval = False,
     po_approve_over_est_core_hours = None, po_deferred_outcome_timeout_s = Fin 900\<rparr>"

record failure_group =
  fg_error_code :: "string option"
  fg_stage :: "string option"
  fg_message :: string
  fg_paths :: "string list"

datatype tick_state = Lifecycle campaign_state | TickComplete

record tick_result =
  tr_submitted :: "string list"
  tr_pending_approval :: "string list"
  tr_waiting :: "string list"
  tr_deferred :: "string list"
  tr_done :: "string list"
  tr_failed :: "string list"
  tr_reused :: "string list"
  tr_complete :: bool
  tr_usage :: budget_usage
  tr_callbacks :: "callback list"
  tr_failure_groups :: "failure_group list"
  tr_failure_summary :: "string option"
  tr_suspects :: "(string \<times> string) list"
  tr_state :: tick_state
  tr_lifecycle :: campaign_state
  tr_held :: "string list"

section \<open>Library functions\<close>

text \<open>
  What the engine uses of the standard library and pydantic: \<open>lb_sha t\<close> is
  \<open>sha256(t.encode("utf-8")).hexdigest()\<close>, \<open>lb_frepr\<close> prints a float, \<open>lb_fmt0\<close> and \<open>lb_fmtg\<close> are the
  formats \<open>.0f\<close> and \<open>g\<close>, \<open>lb_strftime\<close> and \<open>lb_strptime\<close> write and read \<open>%Y-%m-%dT%H:%M:%SZ\<close> for a time in
  microseconds, and \<open>lb_invalid\<close> is the text of a \<open>ValidationError\<close>.
\<close>

record library =
  lb_sha :: "string \<Rightarrow> string"
  lb_frepr :: "pyfloat \<Rightarrow> string"
  lb_fmt0 :: "pyfloat \<Rightarrow> string"
  lb_fmtg :: "pyfloat \<Rightarrow> string"
  lb_strftime :: "int \<Rightarrow> string"
  lb_strptime :: "string \<Rightarrow> int option"
  lb_pydantic :: pydantic
  lb_invalid :: "spec \<Rightarrow> string"
  lb_str :: "json \<Rightarrow> string"

section \<open>Identities\<close>

definition spec_hash :: "library \<Rightarrow> spec \<Rightarrow> string" where
  "spec_hash lib sp = lb_sha lib (json_dumps (lb_frepr lib) (JObj sp))"

definition json_scalar :: "scalar \<Rightarrow> json" where
  "json_scalar v = (case v of SFloat f \<Rightarrow> JFloat f | SInt i \<Rightarrow> JInt i | SStr s \<Rightarrow> JStr s)"

definition json_point :: "point \<Rightarrow> json" where
  "json_point pt = JObj (map (\<lambda>(k, v). (k, json_scalar v)) pt)"

definition wire_payload :: "spec \<Rightarrow> spec" where
  "wire_payload sp = (case map_of sp ''sim'' of None \<Rightarrow> sp | Some JNull \<Rightarrow> sp | Some v \<Rightarrow> [(''sim'', v)])"

definition wire_hash :: "library \<Rightarrow> spec \<Rightarrow> point option \<Rightarrow> string" where
  "wire_hash lib sp pt = spec_hash lib (case pt of None \<Rightarrow> wire_payload sp
     | Some p \<Rightarrow> AList.update ''point'' (json_point p) (wire_payload sp))"

definition idempotency_key_for :: "library \<Rightarrow> campaign \<Rightarrow> string \<Rightarrow> spec \<Rightarrow> string" where
  "idempotency_key_for lib c path sp =
     take 32 (lb_sha lib (cp_name c @ CHR 0x00 # path @ CHR 0x00 # spec_hash lib sp))"

definition idempotency_key :: "library \<Rightarrow> campaign \<Rightarrow> string \<Rightarrow> plan_step \<Rightarrow> string" where
  "idempotency_key lib c path step = idempotency_key_for lib c path (st_spec step)"

text \<open>The message of \<open>DuplicateSpecError\<close>.\<close>

definition duplicate_message :: "string \<Rightarrow> string \<Rightarrow> string" where
  "duplicate_message path other = ''duplicate payload at '' @ repr_str path @ '' and '' @ repr_str other
     @ '': identical simulations map to the same sim_id and would collapse into one job; ''
     @ ''make replicas distinct (e.g. per-replica tag)''"

text \<open>\<open>_reject_duplicate_spec\<close>: the first leaf that already carries a \<open>sim_id\<close> and the same wire hash.\<close>

definition colliding :: "library \<Rightarrow> string \<Rightarrow> spec \<Rightarrow> (string \<times> agenda_sim) list \<Rightarrow> (string \<times> agenda_sim) option" where
  "colliding lib path sp others =
     find (\<lambda>(p, s). p \<noteq> path \<and> wire_hash lib (sim_spec s) None = wire_hash lib sp None) others"

definition with_sim_id :: "(string \<times> agenda_sim) list \<Rightarrow> (string \<times> agenda_sim) list" where
  "with_sim_id leaves = filter (\<lambda>(p, s). truthy (sim_id s)) leaves"

definition reject_duplicate_spec :: "library \<Rightarrow> campaign \<Rightarrow> string \<Rightarrow> plan_step \<Rightarrow> string option" where
  "reject_duplicate_spec lib c path step =
     map_option (\<lambda>(p, s). duplicate_message path p)
       (colliding lib path (st_spec step) (with_sim_id (simulations (cp_agenda c))))"

text \<open>
  \<open>_reject_duplicate_specs\<close>: each pending leaf against the submitted ones and the pending ones
  before it; the value is the first colliding pair.
\<close>

fun scan_pending :: "library \<Rightarrow> (string \<times> agenda_sim) list \<Rightarrow> (string \<times> agenda_sim) list
    \<Rightarrow> (string \<times> agenda_sim) list \<Rightarrow> (string \<times> string) option" where
  "scan_pending lib submitted earlier [] = None"
| "scan_pending lib submitted earlier ((path, s) # rest) =
     (case colliding lib path (sim_spec s) (submitted @ earlier) of
        Some (other, t) \<Rightarrow> Some (path, other)
      | None \<Rightarrow> scan_pending lib submitted (earlier @ [(path, s)]) rest)"

definition pending_leaves :: "campaign \<Rightarrow> string list \<Rightarrow> (string \<times> agenda_sim) list" where
  "pending_leaves c paths = (let by_path = dict_of (simulations (cp_agenda c))
     in concat (map (\<lambda>p. case map_of by_path p of None \<Rightarrow> [] | Some s \<Rightarrow> [(p, s)]) paths))"

definition reject_duplicate_specs :: "library \<Rightarrow> campaign \<Rightarrow> string list \<Rightarrow> (string \<times> string) option" where
  "reject_duplicate_specs lib c paths =
     scan_pending lib (with_sim_id (simulations (cp_agenda c))) [] (pending_leaves c paths)"

section \<open>The digest of a tick's failures\<close>

definition failure_message_max_chars :: nat where
  "failure_message_max_chars = 500"

definition failure_truncation_marker :: string where
  "failure_truncation_marker = ''...(truncated)''"

definition truncate_text :: "string \<Rightarrow> string" where
  "truncate_text t = (if length t \<le> failure_message_max_chars then t
     else take failure_message_max_chars t @ failure_truncation_marker)"

definition failure_reason :: "callback \<Rightarrow> string" where
  "failure_reason cb =
     (if truthy (cb_error cb) then the (cb_error cb)
      else if truthy (cb_error_code cb)
        then ''the failure reason was not reported (error_code='' @ the (cb_error_code cb) @ '')''
      else ''the failure reason was not reported'')"

type_synonym failure_key = "string option \<times> string option \<times> string"

definition failure_key :: "callback \<Rightarrow> failure_key" where
  "failure_key cb = (cb_error_code cb, cb_stage cb, failure_reason cb)"

text \<open>The dict of groups in first-seen order; a group grows by one path per callback.\<close>

definition add_failure :: "callback \<Rightarrow> (failure_key \<times> failure_group) list \<Rightarrow> (failure_key \<times> failure_group) list" where
  "add_failure cb gs =
     (let g = (case map_of gs (failure_key cb) of Some g \<Rightarrow> g
               | None \<Rightarrow> \<lparr>fg_error_code = cb_error_code cb, fg_stage = cb_stage cb,
                   fg_message = truncate_text (failure_reason cb), fg_paths = []\<rparr>)
      in AList.update (failure_key cb) (g\<lparr>fg_paths := fg_paths g @ [cb_path cb]\<rparr>) gs)"

definition failure_groups :: "callback list \<Rightarrow> (failure_key \<times> failure_group) list" where
  "failure_groups cbs = fold (\<lambda>cb gs. if cb_kind cb = KFailed then add_failure cb gs else gs) cbs []"

definition failure_summary :: "failure_group list \<Rightarrow> string option" where
  "failure_summary gs =
     (if gs = [] then None
      else (let total = sum_list (map (\<lambda>g. length (fg_paths g)) gs)
        in Some (show_nat total @ '' '' @ (if total = 1 then ''leaf'' else ''leaves'') @ '' failed: ''
          @ join_str '', '' (map (\<lambda>g. if truthy (fg_error_code g)
                then the (fg_error_code g) @ '': '' @ fg_message g else fg_message g) gs))))"

definition compact_failures :: "tick_result \<Rightarrow> tick_result" where
  "compact_failures r =
     (let gs = map snd (failure_groups (tr_callbacks r)) in
      r\<lparr>tr_callbacks := map (\<lambda>cb. if cb_kind cb = KFailed
            then cb\<lparr>cb_error := map_option truncate_text (cb_error cb)\<rparr> else cb) (tr_callbacks r),
        tr_failure_groups := gs, tr_failure_summary := failure_summary gs\<rparr>)"

section \<open>Facts on identities\<close>

lemma colliding_None:
  "colliding lib path sp others = None \<longleftrightarrow>
   (\<forall>(p, s) \<in> set others. p = path \<or> wire_hash lib (sim_spec s) None \<noteq> wire_hash lib sp None)"
  by (auto simp: colliding_def find_None_iff)

lemma colliding_SomeD:
  "colliding lib path sp others = Some (p, s) \<Longrightarrow>
   (p, s) \<in> set others \<and> p \<noteq> path \<and> wire_hash lib (sim_spec s) None = wire_hash lib sp None"
  by (auto simp: colliding_def dest!: find_SomeD)

lemma with_sim_id_iff [simp]: "(p, s) \<in> set (with_sim_id leaves) \<longleftrightarrow> (p, s) \<in> set leaves \<and> truthy (sim_id s)"
  by (auto simp: with_sim_id_def)

text \<open>A scan that reports nothing leaves no two leaves, pending or submitted, with one payload.\<close>

lemma scan_pending_None:
  "scan_pending lib submitted earlier rest = None \<Longrightarrow>
   (\<forall>(p, s) \<in> set rest. \<forall>(q, t) \<in> set (submitted @ earlier). q = p \<or>
      wire_hash lib (sim_spec t) None \<noteq> wire_hash lib (sim_spec s) None) \<and>
   pairwise (\<lambda>(p, s) (q, t). p = q \<or> wire_hash lib (sim_spec t) None \<noteq> wire_hash lib (sim_spec s) None) (set rest)"
proof (induction rest arbitrary: earlier)
  case (Cons x rest)
  obtain path s where x: "x = (path, s)" by (cases x)
  with Cons.prems have c: "colliding lib path (sim_spec s) (submitted @ earlier) = None"
    and rest: "scan_pending lib submitted (earlier @ [(path, s)]) rest = None"
    by (auto split: option.splits)
  from Cons.IH [OF rest] c x show ?case
    unfolding colliding_None by (auto simp: pairwise_insert) fastforce+
qed (simp add: pairwise_def)

lemma scan_pending_SomeD:
  "scan_pending lib submitted earlier rest = Some (path, other) \<Longrightarrow>
   \<exists>s t. (path, s) \<in> set rest \<and> (other, t) \<in> set (submitted @ earlier @ rest) \<and> other \<noteq> path \<and>
     wire_hash lib (sim_spec t) None = wire_hash lib (sim_spec s) None"
proof (induction rest arbitrary: earlier)
  case (Cons x rest)
  obtain p s where x: "x = (p, s)" by (cases x)
  show ?case
  proof (cases "colliding lib p (sim_spec s) (submitted @ earlier)")
    case None
    with Cons.prems x have "scan_pending lib submitted (earlier @ [(p, s)]) rest = Some (path, other)" by simp
    from Cons.IH [OF this] x show ?thesis by auto
  next
    case (Some y)
    then obtain q t where "y = (q, t)" by (cases y)
    with Some Cons.prems x show ?thesis using colliding_SomeD [of lib p "sim_spec s" "submitted @ earlier" q t]
      by auto
  qed
qed simp

lemma pending_leaves_iff:
  assumes "distinct (map fst (simulations (cp_agenda c)))"
  shows "(p, s) \<in> set (pending_leaves c paths) \<longleftrightarrow> p \<in> set paths \<and> (p, s) \<in> set (simulations (cp_agenda c))"
proof -
  have m: "map_of (dict_of (simulations (cp_agenda c))) q = Some t \<longleftrightarrow> (q, t) \<in> set (simulations (cp_agenda c))" for q t
    using map_of_dict_of_distinct [OF assms] map_of_eq_Some_iff [OF assms] by simp
  show ?thesis
    using m [of p s] by (force simp: pending_leaves_def Let_def split: option.splits)
qed

lemma split_nul: "CHR 0x00 \<notin> set a \<Longrightarrow> CHR 0x00 \<notin> set b \<Longrightarrow> a @ CHR 0x00 # x = b @ CHR 0x00 # y \<Longrightarrow> a = b \<and> x = y"
proof (induction a arbitrary: b)
  case Nil
  then show ?case by (cases b) auto
next
  case (Cons c a)
  then show ?case by (cases b) auto
qed

text \<open>
  Under a hash that does not collide on the texts at hand, the command id determines the campaign,
  the path and the spec (up to the order of its keys).
\<close>

definition key_seed :: "library \<Rightarrow> campaign \<Rightarrow> string \<Rightarrow> spec \<Rightarrow> string" where
  "key_seed lib c path sp = cp_name c @ CHR 0x00 # path @ CHR 0x00 # spec_hash lib sp"

definition hashed_texts :: "library \<Rightarrow> campaign \<Rightarrow> string \<Rightarrow> spec \<Rightarrow> string set" where
  "hashed_texts lib c path sp = {key_seed lib c path sp, json_dumps (lb_frepr lib) (JObj sp)}"

definition collision_free :: "library \<Rightarrow> string set \<Rightarrow> bool" where
  "collision_free lib T \<longleftrightarrow> inj_on (\<lambda>x. take 32 (lb_sha lib x)) T"

lemma collision_freeD: "collision_free lib T \<Longrightarrow> x \<in> T \<Longrightarrow> y \<in> T \<Longrightarrow>
    take 32 (lb_sha lib x) = take 32 (lb_sha lib y) \<Longrightarrow> x = y"
  by (auto simp: collision_free_def inj_on_def)

lemma idempotency_key_inject:
  assumes key: "idempotency_key_for lib c p sp = idempotency_key_for lib c' p' sp'"
    and sha: "collision_free lib (hashed_texts lib c p sp \<union> hashed_texts lib c' p' sp')"
    and nul: "CHR 0x00 \<notin> set (cp_name c @ cp_name c' @ p @ p')"
    and wf: "float_free (JObj sp)" "float_free (JObj sp')"
  shows "cp_name c = cp_name c' \<and> p = p' \<and> json_eq (JObj sp) (JObj sp')"
proof -
  have "cp_name c @ CHR 0x00 # p @ CHR 0x00 # spec_hash lib sp = cp_name c' @ CHR 0x00 # p' @ CHR 0x00 # spec_hash lib sp'"
    by (rule collision_freeD [OF sha _ _ key [unfolded idempotency_key_for_def]])
      (simp_all add: hashed_texts_def key_seed_def)
  from split_nul [OF _ _ this] nul have n: "cp_name c = cp_name c'"
    and rest: "p @ CHR 0x00 # spec_hash lib sp = p' @ CHR 0x00 # spec_hash lib sp'" by simp_all
  from split_nul [OF _ _ rest] nul have p: "p = p'" and h: "spec_hash lib sp = spec_hash lib sp'" by simp_all
  have "json_dumps (lb_frepr lib) (JObj sp) = json_dumps (lb_frepr lib) (JObj sp')"
    by (rule collision_freeD [OF sha]) (simp_all add: hashed_texts_def h [unfolded spec_hash_def])
  with n p show ?thesis using json_dumps_eq_iff [OF wf] by simp
qed

lemma spec_hash_key_order: "json_eq (JObj sp) (JObj sp') \<Longrightarrow> spec_hash lib sp = spec_hash lib sp'"
  by (simp add: spec_hash_def json_eq_dumps)

section \<open>Facts on the digest\<close>

lemma truncate_text_length: "length (truncate_text t) \<le> 514"
  by (simp add: truncate_text_def failure_message_max_chars_def failure_truncation_marker_def)

lemma truncate_text_idem_short: "length t \<le> 500 \<Longrightarrow> truncate_text t = t"
  by (simp add: truncate_text_def failure_message_max_chars_def)

definition failed_with :: "failure_key \<Rightarrow> callback \<Rightarrow> bool" where
  "failed_with k cb \<longleftrightarrow> cb_kind cb = KFailed \<and> failure_key cb = k"

text \<open>Each group lists, in order, the paths of exactly the failed callbacks with its key.\<close>

lemma failure_groups_lookup:
  "map_of (failure_groups cbs) k =
     (case filter (failed_with k) cbs of [] \<Rightarrow> None
      | cb # rest \<Rightarrow> Some \<lparr>fg_error_code = cb_error_code cb, fg_stage = cb_stage cb,
          fg_message = truncate_text (failure_reason cb), fg_paths = map cb_path (cb # rest)\<rparr>)"
proof (induction cbs rule: rev_induct)
  case Nil
  then show ?case by (simp add: failure_groups_def)
next
  case (snoc cb cbs)
  show ?case
  proof (cases "failed_with k cb")
    case True
    then have "cb_kind cb = KFailed" "failure_key cb = k" by (auto simp: failed_with_def)
    then show ?thesis using snoc True
      by (cases "filter (failed_with k) cbs") (auto simp: failure_groups_def add_failure_def Let_def)
  next
    case False
    then have "cb_kind cb \<noteq> KFailed \<or> failure_key cb \<noteq> k" by (auto simp: failed_with_def)
    then have "map_of (failure_groups (cbs @ [cb])) k = map_of (failure_groups cbs) k"
      by (auto simp: failure_groups_def add_failure_def Let_def)
    then show ?thesis using snoc False by simp
  qed
qed

lemma failure_groups_distinct: "distinct (keys (failure_groups cbs))"
  by (induction cbs rule: rev_induct) (auto simp: failure_groups_def add_failure_def Let_def distinct_update)

lemma sum_list_update_new: "map_of gs k = None \<Longrightarrow>
    sum_list (map (f \<circ> snd) (AList.update k g gs)) = sum_list (map (f \<circ> snd) gs) + (f g :: nat)"
  by (induction gs) auto

lemma sum_list_update_old: "map_of gs k = Some h \<Longrightarrow>
    sum_list (map (f \<circ> snd) (AList.update k g gs)) + f h = sum_list (map (f \<circ> snd) gs) + (f g :: nat)"
  by (induction gs) (auto split: if_splits)

lemma add_failure_total:
  "sum_list (map ((\<lambda>g. length (fg_paths g)) \<circ> snd) (add_failure cb gs))
   = sum_list (map ((\<lambda>g. length (fg_paths g)) \<circ> snd) gs) + 1"
proof (cases "map_of gs (failure_key cb)")
  case None
  then show ?thesis by (simp add: add_failure_def Let_def sum_list_update_new)
next
  case (Some g)
  then show ?thesis
    using sum_list_update_old [of gs "failure_key cb" g "\<lambda>g. length (fg_paths g)" "g\<lparr>fg_paths := fg_paths g @ [cb_path cb]\<rparr>"]
    by (simp add: add_failure_def Let_def)
qed

text \<open>The total in the summary is the number of failed callbacks.\<close>

lemma failure_groups_total:
  "sum_list (map (\<lambda>g. length (fg_paths g)) (map snd (failure_groups cbs)))
   = length (filter (\<lambda>cb. cb_kind cb = KFailed) cbs)"
proof (induction cbs rule: rev_induct)
  case Nil
  then show ?case by (simp add: failure_groups_def)
next
  case (snoc cb cbs)
  then show ?case by (simp add: failure_groups_def add_failure_total)
qed

end
