(* ===== verification/AgendaEngine.thy ===== *)
theory AgendaEngine
  imports AgendaCampaign
begin

text \<open>
  \<open>agenda/engine.py\<close>: one tick of \<open>AgendaEngine\<close>. The store, the submit callable and the registry
  are the outside: a tick is a function of the loaded campaign and the state \<open>'w\<close> of the submit side,
  and returns what it did to them, in order, as a list of effects. The list makes the durability
  claims statements about prefixes: a crash leaves the store at the last \<open>Save\<close> before it.
\<close>

section \<open>The outside of a tick\<close>

text \<open>
  What the submit callable may do: return a \<open>sim_id\<close>, raise \<open>TransientSubmitError\<close> with its message,
  \<open>error_code\<close> and \<open>sim_id\<close>, or raise another exception with its message and, where it has them,
  \<open>error_code\<close> and \<open>stage\<close>.
\<close>

datatype submit_result =
    SubmitOk string
  | SubmitTransient string "string option" "string option"
  | SubmitError string "string option" "string option"

text \<open>An optional observation callable: not injected, raising, or returning its mapping.\<close>

datatype 'a lookup_call = NotInjected | Raising | Returning "(string \<times> 'a) list"

datatype effect =
    Save campaign
  | Submit string spec submit_result
  | RecordReuse string string string

record 'w engine =
  en_budget :: "budget option"
  en_submit :: "'w \<Rightarrow> spec \<Rightarrow> string \<Rightarrow> submit_result \<times> 'w"
  en_observe :: "(string \<times> string) list"
  en_policy :: engine_policy
  en_approve :: "(string \<Rightarrow> bool) option"
  en_actuals :: "actual_usage lookup_call"
  en_failures :: "failure_info lookup_call"
  en_suspects :: "suspect_info lookup_call"
  en_reuse_lookup :: "(string \<Rightarrow> reuse_record option) option"
  en_reuse_record :: bool
  en_reuse_key :: "(spec \<Rightarrow> point option \<Rightarrow> string) option"
  en_clock :: "'w \<Rightarrow> int"
  en_now_iso :: "'w \<Rightarrow> string"
  en_lib :: library

text \<open>The state a tick threads: the submit side, and the effects so far.\<close>

type_synonym 'w io = "'w \<times> effect list"

definition emit :: "effect \<Rightarrow> 'w io \<Rightarrow> 'w io" where
  "emit e io = (fst io, snd io @ [e])"

definition reuse_key :: "'w engine \<Rightarrow> spec \<Rightarrow> point option \<Rightarrow> string" where
  "reuse_key en = (case en_reuse_key en of None \<Rightarrow> wire_hash (en_lib en) | Some k \<Rightarrow> k)"

definition observed_or_empty :: "'a lookup_call \<Rightarrow> (string \<times> 'a) list" where
  "observed_or_empty c = (case c of Returning m \<Rightarrow> m | _ \<Rightarrow> [])"

definition observe_failures :: "'w engine \<Rightarrow> (string \<times> failure_info) list" where
  "observe_failures en = observed_or_empty (en_failures en)"

definition observe_suspects :: "'w engine \<Rightarrow> (string \<times> suspect_info) list" where
  "observe_suspects en = observed_or_empty (en_suspects en)"

section \<open>Planning\<close>

definition reuse_leaf :: "'w engine \<Rightarrow> (string \<Rightarrow> reuse_record option) \<Rightarrow> string list leaf_body" where
  "reuse_leaf en look path s reused =
     (if sim_status s \<noteq> Planned then (s, reused)
      else case look (reuse_key en (sim_spec s) (sim_point s)) of
        None \<Rightarrow> (s, reused)
      | Some r \<Rightarrow> (s\<lparr>sim_id := Some (ru_sim_id r), sim_run_id := ru_run_id r, sim_status := Done,
            sim_reused := True\<rparr>, reused @ [path]))"

definition apply_reuse :: "'w engine \<Rightarrow> agenda_group \<Rightarrow> agenda_group \<times> string list" where
  "apply_reuse en g = (case en_reuse_lookup en of None \<Rightarrow> (g, [])
     | Some look \<Rightarrow> for_leaves (reuse_leaf en look) g [])"

definition reconcile_leaf :: "(string \<times> actual_usage) list \<Rightarrow> budget_usage leaf_body" where
  "reconcile_leaf actuals path s u =
     (if sim_reused s \<or> sim_status s \<notin> {Done, Failed} \<or> sim_actual_core_hours s \<noteq> None \<or> \<not> truthy (sim_id s)
      then (s, u)
      else case map_of actuals (the (sim_id s)) of None \<Rightarrow> (s, u)
      | Some a \<Rightarrow>
         (s\<lparr>sim_actual_core_hours := Some (au_core_hours a), sim_actual_gpu_hours := Some (au_gpu_hours a)\<rparr>,
          reconcile u (sim_estimated_core_hours s) (Some (au_core_hours a))
            (sim_estimated_gpu_hours s) (Some (au_gpu_hours a)) (sim_is_gpu s)))"

definition reconcile_actuals :: "'w engine \<Rightarrow> agenda_group \<Rightarrow> budget_usage \<Rightarrow> agenda_group \<times> budget_usage" where
  "reconcile_actuals en g u = (case en_actuals en of
     Returning actuals \<Rightarrow> for_leaves (reconcile_leaf actuals) g u | _ \<Rightarrow> (g, u))"

text \<open>\<open>_plan\<close>: \<open>None\<close> is the \<open>ValidationError\<close> of a leaf whose resources do not parse.\<close>

definition path_states :: "agenda_group \<Rightarrow> (string \<times> string) list \<Rightarrow> (string \<times> string) list" where
  "path_states g observed =
     (let by_sim = dict_of (map (\<lambda>(p, s). (the (sim_id s), p)) (with_sim_id (simulations g)))
      in dict_of (concat (map (\<lambda>(sid, st). case map_of by_sim sid of None \<Rightarrow> [] | Some p \<Rightarrow> [(p, st)]) observed)))"

definition plan :: "'w engine \<Rightarrow> campaign \<Rightarrow> budget \<Rightarrow> (campaign \<times> plan_step list \<times> string list) option" where
  "plan en c b =
     (let folded = apply_states (cp_agenda c) (path_states (cp_agenda c) (en_observe en));
          (g1, reused) = apply_reuse en folded;
          (g2, u) = reconcile_actuals en g1 ((cp_usage c)\<lparr>us_jobs_running := count_in_flight g1\<rparr>)
      in map_option (\<lambda>steps. (c\<lparr>cp_agenda := g2, cp_usage := u\<rparr>, steps, reused))
           (next_actions (lb_pydantic (en_lib en)) g2 [] b u))"

section \<open>Callbacks\<close>

definition callback_leaf :: "(string \<times> status) list \<Rightarrow> (string \<times> failure_info) list
    \<Rightarrow> (string \<times> suspect_info) list \<Rightarrow> string \<Rightarrow> (callback list \<times> (string \<times> string) list) leaf_body" where
  "callback_leaf before failures susp now path s acc =
     (let warning = map_option su_warning (case sim_id s of None \<Rightarrow> None | Some i \<Rightarrow> map_of susp i);
          (s1, suspects) = (if sim_status s = Done \<and> warning \<noteq> None
             then (s\<lparr>sim_suspect := warning\<rparr>, AList.update path (the warning) (snd acc)) else (s, snd acc))
      in if sim_status s1 \<notin> {Done, Failed} \<or> map_of before path = Some (sim_status s1)
         then (s1, (fst acc, suspects))
         else (let failure = (if truthy (sim_id s1) then map_of failures (the (sim_id s1)) else None);
                   cb = new_callback path (if sim_status s1 = Done then KDone else KFailed) (sim_id s1) now;
                   (s2, cb1) = (case failure of
                       Some f \<Rightarrow> if sim_status s1 = Failed
                         then (s1\<lparr>sim_error := fi_error f, sim_error_code := fi_error_code f, sim_stage := fi_stage f\<rparr>,
                               cb\<lparr>cb_error := fi_error f, cb_error_code := fi_error_code f, cb_stage := fi_stage f\<rparr>)
                         else (s1, cb)
                     | None \<Rightarrow> (s1, cb));
                   cb2 = (if sim_status s1 = Done \<and> warning \<noteq> None then cb1\<lparr>cb_suspect := warning\<rparr> else cb1)
               in (s2, (fst acc @ [cb2], suspects))))"

definition emit_callbacks :: "campaign \<Rightarrow> (string \<times> status) list \<Rightarrow> (string \<times> failure_info) list
    \<Rightarrow> (string \<times> suspect_info) list \<Rightarrow> string \<Rightarrow> campaign \<times> callback list \<times> (string \<times> string) list" where
  "emit_callbacks c before failures susp now =
     (let (g, emitted, suspects) = for_leaves (callback_leaf before failures susp now) (cp_agenda c) ([], [])
      in (c\<lparr>cp_agenda := g, cp_callbacks := cp_callbacks c @ emitted\<rparr>, emitted, suspects))"

definition persist_terminal :: "library \<Rightarrow> campaign \<Rightarrow> plan_step \<Rightarrow> string \<Rightarrow> campaign \<times> callback option" where
  "persist_terminal lib c step now =
     (let path = st_path step in
      if st_action step \<notin> {ActFailed, ActDone} then (c, None)
      else case leaf_at (cp_agenda c) path of
        None \<Rightarrow> (c, None)
      | Some leaf \<Rightarrow>
         if sim_status leaf \<in> {Failed, Done} then (c, None)
         else (let failed = (st_action step = ActFailed);
                   reason = (case st_reason step of None \<Rightarrow> None | Some r \<Rightarrow> Some (reason_text (lb_fmtg lib) r));
                   cb = new_callback path (if failed then KFailed else KDone) (sim_id leaf) now;
                   stamp = failed \<and> truthy reason
               in (c\<lparr>cp_agenda := update_leaf (cp_agenda c) path (\<lambda>s. (s\<lparr>sim_status := if failed then Failed else Done,
                       sim_error := if stamp then reason else sim_error s\<rparr>)),
                     cp_callbacks := cp_callbacks c @ [if stamp then cb\<lparr>cb_error := reason\<rparr> else cb]\<rparr>,
                   Some (if stamp then cb\<lparr>cb_error := reason\<rparr> else cb))))"

section \<open>Submitting one leaf\<close>

datatype submit_exception =
    Transient string "string option" "string option"
  | OtherException string "string option" "string option"

definition accept_leaf :: "string \<Rightarrow> string \<Rightarrow> resource_request \<Rightarrow> agenda_sim \<Rightarrow> agenda_sim" where
  "accept_leaf sid key r s = s\<lparr>sim_id := Some sid, sim_run_id := Some key, sim_status := Submitted,
     sim_deferred_attempts := 0, sim_deferred_since := None, sim_error := None, sim_error_code := None,
     sim_stage := None, sim_estimated_core_hours := rq_est_core_hours r,
     sim_estimated_gpu_hours := rq_est_gpu_hours r, sim_is_gpu := rq_is_gpu r\<rparr>"

definition do_submit :: "'w engine \<Rightarrow> campaign \<Rightarrow> plan_step \<Rightarrow> 'w io \<Rightarrow> (submit_exception + campaign) \<times> 'w io" where
  "do_submit en c step io =
     (let lib = en_lib en; path = st_path step in
      case reject_duplicate_spec lib c path step of
        Some msg \<Rightarrow> (Inl (OtherException msg None None), io)
      | None \<Rightarrow>
         (let key = idempotency_key lib c path step;
              (res, w') = en_submit en (fst io) (st_spec step) key;
              io' = (w', snd io @ [Submit key (st_spec step) res])
          in case res of
               SubmitTransient m code sid \<Rightarrow> (Inl (Transient m code sid), io')
             | SubmitError m code stage \<Rightarrow> (Inl (OtherException m code stage), io')
             | SubmitOk sid \<Rightarrow>
                (case resource_request_from_spec (lb_pydantic lib) (st_spec step) of
                   None \<Rightarrow> (Inl (OtherException (lb_invalid lib (st_spec step)) None None), io')
                 | Some r \<Rightarrow> (Inr (c\<lparr>cp_agenda := update_leaf (cp_agenda c) path (accept_leaf sid key r),
                       cp_usage := charge (cp_usage c) r\<rparr>), io'))))"

text \<open>\<open>_elapsed_seconds\<close>: whole seconds are stored, the difference is a float, never negative.\<close>

definition elapsed_seconds :: "library \<Rightarrow> string option \<Rightarrow> int \<Rightarrow> pyfloat" where
  "elapsed_seconds lib since now =
     (if \<not> truthy since then Fin 0
      else case lb_strptime lib (the since) of None \<Rightarrow> Fin 0
      | Some started \<Rightarrow> fmax2 (Fin 0) (rnd (of_int (now - started) / 1000000)))"

definition outcome_unknown_error_code :: string where
  "outcome_unknown_error_code = ''outcome_unknown''"

definition outcome_unknown_message :: "library \<Rightarrow> pyfloat \<Rightarrow> int \<Rightarrow> string \<Rightarrow> string \<Rightarrow> string" where
  "outcome_unknown_message lib elapsed attempts code msg =
     ''submission outcome still unknown after '' @ lb_fmt0 lib elapsed @ ''s and '' @ show_int attempts
     @ '' deferred attempts ('' @ code @ ''); the job may have been accepted -- check ''
     @ ''list_simulations/get_status and cancel_simulation before resubmitting: '' @ msg"

definition defer_leaf :: "library \<Rightarrow> string option \<Rightarrow> int \<Rightarrow> agenda_sim \<Rightarrow> agenda_sim" where
  "defer_leaf lib sid now s = s\<lparr>sim_deferred_attempts := sim_deferred_attempts s + 1,
     sim_id := if truthy sid \<and> \<not> truthy (sim_id s) then sid else sim_id s,
     sim_deferred_since := if sim_deferred_since s = None then Some (lb_strftime lib now) else sim_deferred_since s\<rparr>"

definition record_deferral :: "'w engine \<Rightarrow> campaign \<Rightarrow> string \<Rightarrow> string \<Rightarrow> string option \<Rightarrow> string option
    \<Rightarrow> int \<Rightarrow> string \<Rightarrow> campaign \<times> callback option" where
  "record_deferral en c path msg code sid now now_iso =
     (case leaf_at (cp_agenda c) path of
        None \<Rightarrow> (c, None)
      | Some leaf0 \<Rightarrow>
         (let lib = en_lib en;
              leaf = defer_leaf lib sid now leaf0;
              error_code = (if truthy code then the code else outcome_unknown_error_code);
              elapsed = elapsed_seconds lib (sim_deferred_since leaf) now;
              give_up = outcome_unknown_message lib elapsed (sim_deferred_attempts leaf) error_code msg
          in if flt elapsed (po_deferred_outcome_timeout_s (en_policy en))
             then (c\<lparr>cp_agenda := update_leaf (cp_agenda c) path (\<lambda>s. (defer_leaf lib sid now s)
                       \<lparr>sim_error := Some msg, sim_error_code := Some error_code\<rparr>)\<rparr>, None)
             else (let cb = (new_callback path KFailed (sim_id leaf) now_iso)
                       \<lparr>cb_error := Some give_up, cb_error_code := Some error_code\<rparr>
               in (c\<lparr>cp_agenda := update_leaf (cp_agenda c) path (\<lambda>s. (defer_leaf lib sid now s)
                       \<lparr>sim_status := Failed, sim_error := Some give_up, sim_error_code := Some error_code\<rparr>),
                     cp_callbacks := cp_callbacks c @ [cb]\<rparr>, Some cb))))"

definition fail_leaf :: "string \<Rightarrow> string option \<Rightarrow> string option \<Rightarrow> agenda_sim \<Rightarrow> agenda_sim" where
  "fail_leaf msg code stage s =
     s\<lparr>sim_status := Failed, sim_error := Some msg, sim_error_code := code, sim_stage := stage\<rparr>"

definition record_failure :: "campaign \<Rightarrow> string \<Rightarrow> string \<Rightarrow> string option \<Rightarrow> string option \<Rightarrow> string
    \<Rightarrow> campaign \<times> callback option" where
  "record_failure c path msg code stage now_iso =
     (case leaf_at (cp_agenda c) path of
        None \<Rightarrow> (c, None)
      | Some leaf \<Rightarrow>
         (let cb = (new_callback path KFailed (sim_id leaf) now_iso)
                \<lparr>cb_error := Some msg, cb_error_code := code, cb_stage := stage\<rparr>
          in (c\<lparr>cp_agenda := update_leaf (cp_agenda c) path (fail_leaf msg code stage),
                cp_callbacks := cp_callbacks c @ [cb]\<rparr>, Some cb)))"

text \<open>\<open>_submit_one\<close>: the campaign, the callback of a terminal failure, and whether it was deferred.\<close>

definition submit_one :: "'w engine \<Rightarrow> campaign \<Rightarrow> plan_step \<Rightarrow> 'w io
    \<Rightarrow> (campaign \<times> callback option \<times> bool) \<times> 'w io" where
  "submit_one en c step io =
     (let (res, io') = do_submit en c step io; w = fst io' in
      case res of
        Inr c' \<Rightarrow> ((c', None, False), io')
      | Inl (Transient msg code sid) \<Rightarrow>
         (let (c', cb) = record_deferral en c (st_path step) msg code sid (en_clock en w) (en_now_iso en w)
          in ((c', cb, True), io'))
      | Inl (OtherException msg code stage) \<Rightarrow>
         (let (c', cb) = record_failure c (st_path step) msg code stage (en_now_iso en w)
          in ((c', cb, False), io')))"

section \<open>The gates\<close>

text \<open>\<open>None\<close>: the \<open>ValidationError\<close> of a spec whose resources do not parse.\<close>

definition may_submit :: "'w engine \<Rightarrow> agenda_sim option \<Rightarrow> plan_step \<Rightarrow> bool option" where
  "may_submit en leaf step =
     (if (case en_approve en of None \<Rightarrow> False | Some ok \<Rightarrow> ok (st_path step)) then Some True
      else if (case leaf of None \<Rightarrow> False | Some s \<Rightarrow> sim_approved s) then Some True
      else if (case leaf of None \<Rightarrow> False | Some s \<Rightarrow> sim_requires_approval s) \<or> po_require_approval (en_policy en)
        then Some False
      else case po_approve_over_est_core_hours (en_policy en) of None \<Rightarrow> Some True
      | Some threshold \<Rightarrow> map_option (\<lambda>r. fle (rq_est_core_hours r) threshold)
          (resource_request_from_spec (lb_pydantic (en_lib en)) (st_spec step)))"

datatype gate = Proceed | Held | Waiting | PendingApproval

definition submission_block :: "'w engine \<Rightarrow> campaign \<Rightarrow> plan_step \<Rightarrow> tick_result \<Rightarrow> int \<Rightarrow> int option \<Rightarrow> gate option" where
  "submission_block en c step r running cap =
     (if cp_state c \<noteq> CRunning then Some Held
      else if int (length (tr_submitted r)) \<ge> po_max_submits_per_tick (en_policy en) then Some Waiting
      else if (case cap of None \<Rightarrow> False | Some k \<Rightarrow> running \<ge> k) then Some Waiting
      else map_option (\<lambda>ok. if ok then Proceed else PendingApproval)
             (may_submit en (leaf_at (cp_agenda c) (st_path step)) step))"

definition bucket :: "tick_result \<Rightarrow> string \<Rightarrow> plan_action \<Rightarrow> tick_result" where
  "bucket r path a = (case a of
     ActWait \<Rightarrow> r\<lparr>tr_waiting := tr_waiting r @ [path]\<rparr>
   | ActDone \<Rightarrow> r\<lparr>tr_done := tr_done r @ [path]\<rparr>
   | ActFailed \<Rightarrow> r\<lparr>tr_failed := tr_failed r @ [path]\<rparr>
   | ActSubmit \<Rightarrow> r)"

definition hold :: "tick_result \<Rightarrow> string \<Rightarrow> gate \<Rightarrow> tick_result" where
  "hold r path g = (case g of
     Held \<Rightarrow> r\<lparr>tr_held := tr_held r @ [path]\<rparr>
   | Waiting \<Rightarrow> r\<lparr>tr_waiting := tr_waiting r @ [path]\<rparr>
   | PendingApproval \<Rightarrow> r\<lparr>tr_pending_approval := tr_pending_approval r @ [path]\<rparr>
   | Proceed \<Rightarrow> r)"

definition add_callback :: "tick_result \<Rightarrow> callback option \<Rightarrow> tick_result" where
  "add_callback r cb = (case cb of None \<Rightarrow> r | Some x \<Rightarrow> r\<lparr>tr_callbacks := tr_callbacks r @ [x]\<rparr>)"

text \<open>The bookkeeping of \<open>_run_steps\<close> after \<open>_submit_one\<close>.\<close>

definition note_submission :: "tick_result \<Rightarrow> string \<Rightarrow> callback option \<Rightarrow> bool \<Rightarrow> tick_result" where
  "note_submission r path failure deferred =
     (let r1 = (if deferred then r\<lparr>tr_deferred := tr_deferred r @ [path]\<rparr> else r) in
      case failure of
        Some cb \<Rightarrow> r1\<lparr>tr_failed := tr_failed r1 @ [path], tr_callbacks := tr_callbacks r1 @ [cb]\<rparr>
      | None \<Rightarrow> if deferred then r1 else r1\<lparr>tr_submitted := tr_submitted r1 @ [path]\<rparr>)"

section \<open>The tick\<close>

datatype tick_error = DuplicateSpec string string | InvalidResources

text \<open>One iteration of \<open>_run_steps\<close>: the campaign, the result and \<open>in_flight\<close> after it.\<close>

definition run_step :: "'w engine \<Rightarrow> budget \<Rightarrow> plan_step \<Rightarrow> campaign \<times> tick_result \<times> int \<Rightarrow> 'w io
    \<Rightarrow> (tick_error + campaign \<times> tick_result \<times> int) \<times> 'w io" where
  "run_step en b step st io =
     (case st of (c, r, inflight) \<Rightarrow>
      if st_action step \<noteq> ActSubmit
      then (let (c', cb) = persist_terminal (en_lib en) c step (en_now_iso en (fst io))
            in (Inr (c', bucket (add_callback r cb) (st_path step) (st_action step), inflight), io))
      else case submission_block en c step r inflight (bg_max_concurrent_jobs b) of
        None \<Rightarrow> (Inl (InvalidResources), io)
      | Some Proceed \<Rightarrow>
         (let ((c', failure, deferred), io') = submit_one en c step io;
              ok = (\<not> deferred \<and> failure = None)
          in (Inr (c', note_submission r (st_path step) failure deferred,
                   if ok then inflight + 1 else inflight), emit (Save c') io'))
      | Some g \<Rightarrow> (Inr (c, hold r (st_path step) g, inflight), io))"

fun run_loop :: "'w engine \<Rightarrow> budget \<Rightarrow> plan_step list \<Rightarrow> campaign \<times> tick_result \<times> int \<Rightarrow> 'w io
    \<Rightarrow> (tick_error + campaign \<times> tick_result \<times> int) \<times> 'w io" where
  "run_loop en b [] st io = (Inr st, io)"
| "run_loop en b (step # steps) st io =
     (case run_step en b step st io of
        (Inl e, io') \<Rightarrow> (Inl e, io')
      | (Inr st', io') \<Rightarrow> run_loop en b steps st' io')"

definition run_steps :: "'w engine \<Rightarrow> campaign \<Rightarrow> plan_step list \<Rightarrow> tick_result \<Rightarrow> budget \<Rightarrow> 'w io
    \<Rightarrow> (tick_error + campaign \<times> tick_result \<times> int) \<times> 'w io" where
  "run_steps en c steps r b io = run_loop en b steps (c, r, us_jobs_running (cp_usage c)) io"

definition is_complete :: "agenda_group \<Rightarrow> bool" where
  "is_complete g \<longleftrightarrow> list_all (\<lambda>(p, s). sim_status s \<notin> {Planned, Submitted, Running}) (simulations g)"

definition reusable_observed_states :: "string list" where
  "reusable_observed_states = [''results.ready'']"

text \<open>\<open>_record_reuse\<close>: the calls made to the registry, as effects.\<close>

definition reuse_calls :: "'w engine \<Rightarrow> campaign \<Rightarrow> (string \<times> status) list \<Rightarrow> effect list" where
  "reuse_calls en c before =
     (if \<not> en_reuse_record en then []
      else (let by_sim = dict_of (map (\<lambda>(p, s). (the (sim_id s), (p, s))) (with_sim_id (simulations (cp_agenda c)))) in
        concat (map (\<lambda>(sid, state).
          case map_of by_sim sid of
            None \<Rightarrow> []
          | Some (p, s) \<Rightarrow>
              if state \<notin> set reusable_observed_states \<or> sim_reused s \<or> map_of before p = Some Done then []
              else [RecordReuse (reuse_key en (sim_spec s) (sim_point s)) (the (sim_id s))
                      (idempotency_key_for (en_lib en) c p (sim_spec s))])
          (en_observe en))))"

definition initial_result :: "campaign \<Rightarrow> callback list \<Rightarrow> string list \<Rightarrow> (string \<times> string) list \<Rightarrow> tick_result" where
  "initial_result c emitted reused suspects = \<lparr>tr_submitted = [], tr_pending_approval = [], tr_waiting = [],
     tr_deferred = [], tr_done = [], tr_failed = [], tr_reused = reused, tr_complete = False,
     tr_usage = no_usage, tr_callbacks = emitted, tr_failure_groups = [], tr_failure_summary = None,
     tr_suspects = suspects, tr_state = Lifecycle (cp_state c), tr_lifecycle = cp_state c, tr_held = []\<rparr>"

definition submit_paths :: "plan_step list \<Rightarrow> string list" where
  "submit_paths steps = map st_path (filter (\<lambda>st. st_action st = ActSubmit) steps)"

text \<open>The end of a tick: completion, usage, the registry, the last save, the digest.\<close>

definition finish_tick :: "'w engine \<Rightarrow> (string \<times> status) list \<Rightarrow> campaign \<Rightarrow> tick_result \<Rightarrow> 'w io
    \<Rightarrow> (tick_result \<times> campaign) \<times> 'w io" where
  "finish_tick en before c r io =
     (let complete = is_complete (cp_agenda c);
          r' = r\<lparr>tr_complete := complete, tr_state := if complete then TickComplete else tr_state r,
                 tr_usage := cp_usage c\<rparr>
      in ((compact_failures r', c), (fst io, snd io @ reuse_calls en c before @ [Save c])))"

definition tick :: "'w engine \<Rightarrow> campaign \<Rightarrow> 'w \<Rightarrow> (tick_error + tick_result \<times> campaign) \<times> 'w io" where
  "tick en stored w =
     (let c0 = with_created_ts (en_now_iso en w) stored;
          before = dict_of (map (\<lambda>(p, s). (p, sim_status s)) (simulations (cp_agenda c0)));
          b = (case en_budget en of None \<Rightarrow> cp_budget c0 | Some b \<Rightarrow> b)
      in case plan en c0 b of
           None \<Rightarrow> (Inl (InvalidResources), (w, []))
         | Some (c1, steps, reused) \<Rightarrow>
            (case reject_duplicate_specs (en_lib en) c1 (submit_paths steps) of
               Some (p, q) \<Rightarrow> (Inl (DuplicateSpec p q), (w, []))
             | None \<Rightarrow>
                (let (c2, emitted, suspects) =
                       emit_callbacks c1 before (observe_failures en) (observe_suspects en) (en_now_iso en w);
                     (res, io) = run_steps en c2 steps (initial_result c2 emitted reused suspects) b (w, [Save c2])
                 in case res of
                      Inl e \<Rightarrow> (Inl e, io)
                    | Inr (c3, r, _) \<Rightarrow>
                       (let (out, io') = finish_tick en before c3 r io in (Inr out, io')))))"

end
