(* ===== verification/AgendaEngineFacts.thy ===== *)
theory AgendaEngineFacts
  imports AgendaEngine
begin

text \<open>
  Lemmas on the tick of \<open>AgendaEngine\<close>: every pass over the leaves keeps what identifies a leaf, every
  step of the loop touches the leaf of its own path only, and the loop cannot raise. The properties
  of the root theory are short consequences of these.
\<close>

section \<open>What identifies a leaf never changes\<close>

type_synonym static_leaf = "string \<times> spec \<times> point option \<times> string list"

definition static :: "agenda_sim \<Rightarrow> static_leaf" where
  "static s = (sim_name s, sim_spec s, sim_point s, sim_depends_on s)"

definition static_leaves :: "agenda_group \<Rightarrow> (string \<times> static_leaf) list" where
  "static_leaves g = map (\<lambda>(p, s). (p, static s)) (simulations g)"

text \<open>A loop over the leaves whose body keeps the identity of its leaf keeps that of all leaves.\<close>

locale leaf_pass =
  fixes body :: "'a leaf_body"
  assumes body_static: "static (fst (body path s a)) = static s"
begin

lemma thread_static: "map (\<lambda>(p, s). (p, static s)) (fst (thread body xs a)) = map (\<lambda>(p, s). (p, static s)) xs"
proof (induction xs arbitrary: a)
  case (Cons x xs)
  obtain p s where x: "x = (p, s)" by (cases x)
  show ?case using body_static [of p s a] Cons by (auto simp: x split: prod.splits) (metis fst_conv)
qed simp

lemma pass_static: "static_leaves (fst (for_leaves body g a)) = static_leaves g"
  by (simp add: static_leaves_def simulations_for_leaves thread_static)

end

lemma static_simps [simp]:
  "static (s\<lparr>sim_status := x1\<rparr>) = static s" "static (s\<lparr>sim_id := x2\<rparr>) = static s"
  "static (s\<lparr>sim_run_id := x2\<rparr>) = static s" "static (s\<lparr>sim_reused := x3\<rparr>) = static s"
  "static (s\<lparr>sim_actual_core_hours := x4\<rparr>) = static s" "static (s\<lparr>sim_actual_gpu_hours := x4\<rparr>) = static s"
  "static (s\<lparr>sim_suspect := x2\<rparr>) = static s" "static (s\<lparr>sim_error := x2\<rparr>) = static s"
  "static (s\<lparr>sim_error_code := x2\<rparr>) = static s" "static (s\<lparr>sim_stage := x2\<rparr>) = static s"
  "static (s\<lparr>sim_deferred_attempts := x5\<rparr>) = static s" "static (s\<lparr>sim_deferred_since := x2\<rparr>) = static s"
  "static (s\<lparr>sim_estimated_core_hours := x6\<rparr>) = static s" "static (s\<lparr>sim_estimated_gpu_hours := x6\<rparr>) = static s"
  "static (s\<lparr>sim_is_gpu := x3\<rparr>) = static s"
  by (simp_all add: static_def)

lemma static_steps [simp]:
  "static (accept_leaf sid key r s) = static s" "static (defer_leaf lib i now s) = static s"
  "static (fail_leaf m c g s) = static s" "static (apply_state st p s) = static s"
  by (simp_all add: accept_leaf_def defer_leaf_def fail_leaf_def apply_state_def split: option.splits)

interpretation fold_pass: leaf_pass "\<lambda>path s (u :: unit). (apply_state st path s, ())" for st
  by unfold_locales simp

interpretation reuse_pass: leaf_pass "reuse_leaf en look" for en look
  by unfold_locales (simp add: reuse_leaf_def split: option.splits)

interpretation reconcile_pass: leaf_pass "reconcile_leaf actuals" for actuals
  by unfold_locales (simp add: reconcile_leaf_def split: option.splits)

interpretation callback_pass: leaf_pass "callback_leaf before failures susp now" for before failures susp now
  by unfold_locales (auto simp: callback_leaf_def Let_def split: option.splits prod.splits)

lemma apply_states_static: "static_leaves (apply_states g st) = static_leaves g"
  unfolding apply_states_def by (rule fold_pass.pass_static)

lemma apply_reuse_static: "static_leaves (fst (apply_reuse en g)) = static_leaves g"
  by (simp add: apply_reuse_def reuse_pass.pass_static split: option.splits)

lemma reconcile_static: "static_leaves (fst (reconcile_actuals en g u)) = static_leaves g"
  by (simp add: reconcile_actuals_def reconcile_pass.pass_static split: lookup_call.splits)

lemma emit_agenda: "cp_agenda (fst (emit_callbacks c b f s now)) =
    fst (for_leaves (callback_leaf b f s now) (cp_agenda c) ([], []))"
  by (auto simp: emit_callbacks_def split: prod.splits)

lemma emit_static: "static_leaves (cp_agenda (fst (emit_callbacks c b f s now))) = static_leaves (cp_agenda c)"
  by (simp add: emit_agenda callback_pass.pass_static)

lemma wf_apply_states [simp]: "wf_agenda g \<Longrightarrow> wf_agenda (apply_states g st)"
  by (simp add: apply_states_def)

lemma wf_apply_reuse [simp]: "wf_agenda g \<Longrightarrow> wf_agenda (fst (apply_reuse en g))"
  by (simp add: apply_reuse_def split: option.splits)

lemma wf_reconcile [simp]: "wf_agenda g \<Longrightarrow> wf_agenda (fst (reconcile_actuals en g u))"
  by (simp add: reconcile_actuals_def split: lookup_call.splits)

lemma wf_emit [simp]: "wf_agenda (cp_agenda c) \<Longrightarrow> wf_agenda (cp_agenda (fst (emit_callbacks c b f s now)))"
  by (simp add: emit_agenda)

section \<open>Status changes of the passes\<close>

text \<open>A pass keeps the status of every leaf when its body does.\<close>

lemma thread_statuses:
  assumes "\<And>p s a. sim_status (fst (body p s a)) = sim_status s"
  shows "map (\<lambda>(p, s). (p, sim_status s)) (fst (thread body xs a)) = map (\<lambda>(p, s). (p, sim_status s)) xs"
proof (induction xs arbitrary: a)
  case (Cons x xs)
  obtain p s where x: "x = (p, s)" by (cases x)
  show ?case using assms [of p s a] Cons by (auto simp: x split: prod.splits) (metis fst_conv)
qed simp

definition statuses :: "agenda_group \<Rightarrow> (string \<times> status) list" where
  "statuses g = map (\<lambda>(p, s). (p, sim_status s)) (simulations g)"

lemma reconcile_statuses: "statuses (fst (reconcile_actuals en g u)) = statuses g"
  unfolding statuses_def
  by (auto simp: reconcile_actuals_def simulations_for_leaves reconcile_leaf_def intro!: thread_statuses
      split: lookup_call.splits option.splits)

lemma callback_leaf_status: "sim_status (fst (callback_leaf b f su now p s a)) = sim_status s"
  by (auto simp: callback_leaf_def Let_def split: option.splits prod.splits if_splits)

lemma emit_statuses: "statuses (cp_agenda (fst (emit_callbacks c b f s now))) = statuses (cp_agenda c)"
  by (simp add: emit_agenda statuses_def simulations_for_leaves thread_statuses callback_leaf_status)

section \<open>Planning\<close>

lemma static_spec: "static s = static t \<Longrightarrow> sim_spec s = sim_spec t"
  by (simp add: static_def)

lemma leaves_corr:
  assumes "map (\<lambda>(p, s). (p, f s)) xs = map (\<lambda>(p, s). (p, f s)) ys" "(p, s) \<in> set xs"
  shows "\<exists>t. (p, t) \<in> set ys \<and> f t = f s"
proof -
  have "(p, f s) \<in> set (map (\<lambda>(p, s). (p, f s)) xs)" using assms(2) by force
  then show ?thesis unfolding assms(1) by auto
qed

lemmas static_corr = leaves_corr
  [where f = static and xs = "simulations g" and ys = "simulations h" for g h, folded static_leaves_def]
lemmas status_corr = leaves_corr
  [where f = sim_status and xs = "simulations g" and ys = "simulations h" for g h, folded statuses_def]

lemma static_paths: "static_leaves g = static_leaves h \<Longrightarrow> map fst (simulations g) = map fst (simulations h)"
proof -
  assume "static_leaves g = static_leaves h"
  then have "map fst (static_leaves g) = map fst (static_leaves h)" by simp
  then show ?thesis by (simp add: static_leaves_def comp_def case_prod_beta)
qed

lemma count_in_flight_statuses:
  "count_in_flight g = int (length (filter (\<lambda>(p, st). st \<in> {Submitted, Running}) (statuses g)))"
  by (simp add: count_in_flight_def statuses_def filter_map comp_def split_def in_flight_def)

lemma apply_state_planned: "sim_status (apply_state st p s) = Planned \<Longrightarrow> sim_status s = Planned"
  by (auto simp: apply_state_def simulation_state_status_def split: option.splits if_splits)

lemma apply_states_planned:
  "(p, s) \<in> set (simulations (apply_states g st)) \<Longrightarrow> sim_status s = Planned \<Longrightarrow>
   \<exists>t. (p, t) \<in> set (simulations g) \<and> sim_status t = Planned"
  by (auto simp: simulations_apply_states dest: apply_state_planned)

lemma reuse_leaf_planned: "sim_status (fst (reuse_leaf en look p s a)) = Planned \<Longrightarrow> sim_status s = Planned"
  by (auto simp: reuse_leaf_def split: if_splits option.splits)

lemma thread_mem: "(p, s') \<in> set (fst (thread body xs a)) \<Longrightarrow>
    \<exists>s a'. (p, s) \<in> set xs \<and> s' = fst (body p s a')"
proof (induction xs arbitrary: a)
  case (Cons x xs)
  obtain q s where x: "x = (q, s)" by (cases x)
  show ?case using Cons.prems Cons.IH by (auto simp: x split: prod.splits) (metis fst_conv)+
qed simp

lemma apply_reuse_planned:
  "(p, s) \<in> set (simulations (fst (apply_reuse en g))) \<Longrightarrow> sim_status s = Planned \<Longrightarrow>
   \<exists>t. (p, t) \<in> set (simulations g) \<and> sim_status t = Planned"
  by (auto simp: apply_reuse_def simulations_for_leaves split: option.splits
      dest!: thread_mem dest: reuse_leaf_planned)

lemma plan_cases:
  assumes "plan en c b = Some (c1, steps, reused)"
  obtains folded g1 u where
    "folded = apply_states (cp_agenda c) (path_states (cp_agenda c) (en_observe en))"
    "fst (apply_reuse en folded) = g1" "snd (apply_reuse en folded) = reused"
    "c1 = c\<lparr>cp_agenda := fst (reconcile_actuals en g1 u), cp_usage := snd (reconcile_actuals en g1 u)\<rparr>"
    "u = (cp_usage c)\<lparr>us_jobs_running := count_in_flight g1\<rparr>"
    "next_actions (lb_pydantic (en_lib en)) (cp_agenda c1) [] b (cp_usage c1) = Some steps"
  using assms by (fastforce simp: plan_def Let_def split: prod.splits)

lemma plan_frame:
  assumes "plan en c b = Some (c1, steps, reused)"
  shows "static_leaves (cp_agenda c1) = static_leaves (cp_agenda c)" "cp_name c1 = cp_name c"
    "cp_state c1 = cp_state c" "cp_callbacks c1 = cp_callbacks c" "cp_budget c1 = cp_budget c"
    "wf_agenda (cp_agenda c) \<Longrightarrow> wf_agenda (cp_agenda c1)"
  using assms
  by (auto elim!: plan_cases simp: reconcile_static apply_reuse_static apply_states_static)

lemma plan_planned:
  assumes "plan en c b = Some (c1, steps, reused)" "(p, s) \<in> set (simulations (cp_agenda c1))" "sim_status s = Planned"
  shows "\<exists>t. (p, t) \<in> set (simulations (cp_agenda c)) \<and> sim_status t = Planned"
proof -
  from assms(1) obtain folded g1 u where g: "folded = apply_states (cp_agenda c) (path_states (cp_agenda c) (en_observe en))"
    "fst (apply_reuse en folded) = g1" "cp_agenda c1 = fst (reconcile_actuals en g1 u)"
    by (rule plan_cases) simp
  then have "statuses (cp_agenda c1) = statuses g1" by (simp add: reconcile_statuses)
  from status_corr [OF this assms(2)] assms(3)
  obtain t where "(p, t) \<in> set (simulations g1)" "sim_status t = Planned" by auto
  then show ?thesis using apply_reuse_planned apply_states_planned g(1,2) by blast
qed

text \<open>The usage a plan starts from counts the jobs in flight.\<close>

lemma reconcile_thread_running:
  "us_jobs_running (snd (thread (reconcile_leaf a) xs u)) = us_jobs_running u"
proof (induction xs arbitrary: u)
  case (Cons x xs)
  obtain p s where x: "x = (p, s)" by (cases x)
  have "us_jobs_running (snd (reconcile_leaf a p s u)) = us_jobs_running u"
    by (auto simp: reconcile_leaf_def split: option.splits)
  with Cons [of "snd (reconcile_leaf a p s u)"] show ?case by (auto simp: x split: prod.splits)
qed simp

lemma plan_running:
  assumes "plan en c b = Some (c1, steps, reused)"
  shows "us_jobs_running (cp_usage c1) = count_in_flight (cp_agenda c1)"
proof -
  from assms obtain folded g1 u where g: "fst (apply_reuse en folded) = g1"
    "c1 = c\<lparr>cp_agenda := fst (reconcile_actuals en g1 u), cp_usage := snd (reconcile_actuals en g1 u)\<rparr>"
    "u = (cp_usage c)\<lparr>us_jobs_running := count_in_flight g1\<rparr>"
    by (rule plan_cases)
  have "us_jobs_running (snd (reconcile_actuals en g1 u)) = us_jobs_running u"
    by (simp add: reconcile_actuals_def simulations_for_leaves reconcile_thread_running split: lookup_call.splits)
  moreover have "count_in_flight (fst (reconcile_actuals en g1 u)) = count_in_flight g1"
    by (simp add: count_in_flight_statuses reconcile_statuses)
  ultimately show ?thesis using g by simp
qed

text \<open>The steps of a plan: one per leaf, and a \<open>submit\<close> only for a planned leaf with its dependencies done.\<close>

lemma next_actions_nil:
  "next_actions pyd g [] b u = plan_leaves pyd b (dict_of (index_paths (grp_entries (apply_states g [])) ''''))
     (dict_of (index_parents (grp_entries (apply_states g [])) (grp_entries (apply_states g [])) ''''))
     (u\<lparr>us_jobs_running := count_in_flight g\<rparr>) (simulations g)"
proof -
  have "simulations (apply_states g []) = simulations g"
    by (simp add: simulations_apply_states map_idI)
  then show ?thesis by (simp add: next_actions_def Let_def count_in_flight_def)
qed

text \<open>What a step says of the status its leaf had when it was planned.\<close>

definition fits :: "pydantic \<Rightarrow> plan_step \<Rightarrow> status \<Rightarrow> bool" where
  "fits pyd step st = (case st_action step of
     ActSubmit \<Rightarrow> st = Planned \<and> resource_request_from_spec pyd (st_spec step) \<noteq> None
   | ActDone \<Rightarrow> st = Done
   | ActFailed \<Rightarrow> st = Failed \<or> st = Planned \<and> (\<exists>ds. ds \<noteq> [] \<and> st_reason step = Some (DependencyFailed ds))
   | ActWait \<Rightarrow> st \<notin> {Done, Failed})"

lemma plan_leaf_fits: "plan_leaf pyd b u paths par path s = Some step \<Longrightarrow> fits pyd step (sim_status s)"
  by (cases "sim_status s") (auto simp: plan_leaf_def fits_def Let_def split: if_splits option.splits)

lemma plan_leaves_fits:
  "plan_leaves pyd b paths parents u leaves = Some steps \<Longrightarrow> step \<in> set steps \<Longrightarrow>
   \<exists>s. (st_path step, s) \<in> set leaves \<and> st_spec step = sim_spec s \<and> fits pyd step (sim_status s)"
proof (induction pyd b paths parents u leaves arbitrary: steps rule: plan_leaves.induct)
  case (2 pyd b paths parents u path s leaves)
  then obtain st u' rest where
    st: "plan_leaf pyd b u paths (map_of parents path) path s = Some st"
    and rest: "steps = st # rest" "plan_leaves pyd b paths parents u' leaves = Some rest"
    and u': "(if st_action st = ActSubmit then map_option (charge u) (resource_request_from_spec pyd (sim_spec s))
       else Some u) = Some u'"
    by (auto split: option.splits)
  show ?case
  proof (cases "step = st")
    case True
    then show ?thesis using plan_leaf_path [OF st] plan_leaf_fits [OF st] by auto
  next
    case False
    with "2.prems"(2) rest have "step \<in> set rest" by simp
    with "2.IH" [OF st u'] rest show ?thesis by auto
  qed
qed auto

lemma plan_steps:
  assumes "plan en c b = Some (c1, steps, reused)"
  shows "map st_path steps = map fst (simulations (cp_agenda c1))"
    "\<And>step. step \<in> set steps \<Longrightarrow>
      (\<exists>s. (st_path step, s) \<in> set (simulations (cp_agenda c1)) \<and> st_spec step = sim_spec s \<and>
         fits (lb_pydantic (en_lib en)) step (sim_status s))"
proof -
  from assms have n: "next_actions (lb_pydantic (en_lib en)) (cp_agenda c1) [] b (cp_usage c1) = Some steps"
    by (rule plan_cases)
  show "map st_path steps = map fst (simulations (cp_agenda c1))"
    by (rule plan_leaves_paths [OF n [unfolded next_actions_nil], THEN conjunct1])
  show "\<exists>s. (st_path step, s) \<in> set (simulations (cp_agenda c1)) \<and> st_spec step = sim_spec s \<and>
      fits (lb_pydantic (en_lib en)) step (sim_status s)" if "step \<in> set steps" for step
    using plan_leaves_fits [OF n [unfolded next_actions_nil] that] .
qed


section \<open>A step of the loop touches one leaf\<close>

definition tame :: "(agenda_sim \<Rightarrow> agenda_sim) \<Rightarrow> bool" where
  "tame f \<longleftrightarrow> (\<forall>s. static (f s) = static s \<and> (sim_status (f s) = Planned \<longrightarrow> sim_status s = Planned))"

lemma tame_steps:
  "tame (accept_leaf sid key r)" "tame (fail_leaf m code stage)" "tame id"
  "tame (\<lambda>s. (defer_leaf lib i now s)\<lparr>sim_error := e1, sim_error_code := e2\<rparr>)"
  "tame (\<lambda>s. (defer_leaf lib i now s)\<lparr>sim_status := Failed, sim_error := e1, sim_error_code := e2\<rparr>)"
  "tame (\<lambda>s. s\<lparr>sim_status := Failed, sim_error := e1\<rparr>)"
  "tame (sim_status_update (\<lambda>_. Failed))" "tame (sim_status_update (\<lambda>_. Done))"
  by (simp_all add: tame_def) (simp_all add: accept_leaf_def fail_leaf_def defer_leaf_def)

definition touches :: "string \<Rightarrow> campaign \<Rightarrow> campaign \<Rightarrow> bool" where
  "touches path c c' \<longleftrightarrow>
     (\<exists>f. tame f \<and>
        simulations (cp_agenda c') = map (\<lambda>(p, s). (p, if p = path then f s else s)) (simulations (cp_agenda c))) \<and>
     wf_agenda (cp_agenda c') \<and> cp_name c' = cp_name c \<and> cp_state c' = cp_state c"

lemma touches_refl: "wf_agenda (cp_agenda c) \<Longrightarrow> touches path c c"
  unfolding touches_def by (auto intro!: exI [of _ id] map_idI [symmetric] tame_steps)

lemma touches_update:
  assumes "wf_agenda (cp_agenda c)" "tame f"
    and "cp_agenda c' = update_leaf (cp_agenda c) path f" "cp_name c' = cp_name c" "cp_state c' = cp_state c"
  shows "touches path c c'"
  unfolding touches_def using assms by (auto intro!: exI [of _ f] simp: simulations_update)

lemma touches_intros:
  assumes "wf_agenda (cp_agenda c)" "tame f"
  shows "touches path c (c\<lparr>cp_agenda := update_leaf (cp_agenda c) path f\<rparr>)"
    "touches path c (c\<lparr>cp_agenda := update_leaf (cp_agenda c) path f, cp_callbacks := cbs\<rparr>)"
    "touches path c (c\<lparr>cp_agenda := update_leaf (cp_agenda c) path f, cp_usage := u\<rparr>)"
  by (rule touches_update [OF assms]; simp)+

lemma touches_static: "touches path c c' \<Longrightarrow> static_leaves (cp_agenda c') = static_leaves (cp_agenda c)"
  by (auto simp: touches_def static_leaves_def tame_def)

lemma touches_other:
  assumes "touches path c c'" "q \<noteq> path"
  shows "(q, s) \<in> set (simulations (cp_agenda c')) \<longleftrightarrow> (q, s) \<in> set (simulations (cp_agenda c))"
  using assms by (force simp: touches_def)

lemma touches_wf: "touches path c c' \<Longrightarrow> wf_agenda (cp_agenda c')"
  by (simp add: touches_def)

lemma persist_touches:
  "wf_agenda (cp_agenda c) \<Longrightarrow> touches (st_path step) c (fst (persist_terminal lib c step now))"
  by (cases "leaf_at (cp_agenda c) (st_path step)")
    (auto simp: persist_terminal_def Let_def touches_refl touches_intros tame_steps)

lemma failure_touches:
  "wf_agenda (cp_agenda c) \<Longrightarrow> touches path c (fst (record_failure c path m code stage now))"
  by (cases "leaf_at (cp_agenda c) path")
    (simp_all add: record_failure_def Let_def touches_refl touches_intros tame_steps)

lemma deferral_touches:
  "wf_agenda (cp_agenda c) \<Longrightarrow> touches path c (fst (record_deferral en c path m code sid now stamp))"
  by (cases "leaf_at (cp_agenda c) path")
    (simp_all add: record_deferral_def Let_def touches_refl touches_intros tame_steps)

lemma record_touchesD:
  "wf_agenda (cp_agenda c) \<Longrightarrow> record_failure c path m code stage now = (c', cb) \<Longrightarrow> touches path c c'"
  "wf_agenda (cp_agenda c) \<Longrightarrow> record_deferral en c path m code sid t now = (c', cb) \<Longrightarrow> touches path c c'"
  "wf_agenda (cp_agenda c) \<Longrightarrow> persist_terminal lib c step now = (c', cb) \<Longrightarrow> touches (st_path step) c c'"
  by (metis fst_conv failure_touches) (metis fst_conv deferral_touches, metis fst_conv persist_touches)

lemma do_submit_touches:
  "wf_agenda (cp_agenda c) \<Longrightarrow> do_submit en c step io = (Inr c', io') \<Longrightarrow> touches (st_path step) c c'"
  by (auto simp: do_submit_def Let_def split: option.splits prod.splits submit_result.splits intro!: touches_intros tame_steps)

lemma submit_one_touches:
  assumes "wf_agenda (cp_agenda c)" "submit_one en c step io = ((c', cb, d), io')"
  shows "touches (st_path step) c c'"
proof -
  obtain res io1 where d: "do_submit en c step io = (res, io1)" by (cases "do_submit en c step io")
  show ?thesis
  proof (cases res)
    case (Inr c1)
    with d assms(2) show ?thesis using do_submit_touches [OF assms(1)] by (simp add: submit_one_def)
  next
    case (Inl e)
    show ?thesis
    proof (cases e)
      case (Transient m code sid)
      with d Inl assms show ?thesis
        by (auto simp: submit_one_def Let_def split: prod.splits intro: record_touchesD)
    next
      case (OtherException m code stage)
      with d Inl assms show ?thesis
        by (auto simp: submit_one_def Let_def split: prod.splits intro: record_touchesD)
    qed
  qed
qed

lemma run_step_touches:
  assumes "wf_agenda (cp_agenda c)" "run_step en b step (c, r, n) io = (Inr (c', r', n'), io')"
  shows "touches (st_path step) c c'"
  using assms
  by (auto simp: run_step_def Let_def touches_refl split: if_splits option.splits prod.splits gate.splits
      dest: submit_one_touches record_touchesD)


section \<open>The loop\<close>

text \<open>
  Before each iteration: the remaining steps have distinct paths, and a leaf that is still to be
  submitted is planned and has the spec of its step.
\<close>

definition ready :: "library \<Rightarrow> campaign \<Rightarrow> plan_step \<Rightarrow> bool" where
  "ready lib c step \<longleftrightarrow>
     (\<exists>s. (st_path step, s) \<in> set (simulations (cp_agenda c)) \<and> sim_spec s = st_spec step \<and>
        fits (lb_pydantic lib) step (sim_status s))"

lemma fits_submit: "st_action step = ActSubmit \<Longrightarrow>
    fits pyd step st \<longleftrightarrow> st = Planned \<and> resource_request_from_spec pyd (st_spec step) \<noteq> None"
  by (simp add: fits_def)

definition loop_inv :: "library \<Rightarrow> plan_step list \<Rightarrow> campaign \<Rightarrow> bool" where
  "loop_inv lib steps c \<longleftrightarrow> wf_agenda (cp_agenda c) \<and> distinct (map st_path steps) \<and>
     (\<forall>step \<in> set steps. ready lib c step)"

lemma touches_ready: "touches path c c' \<Longrightarrow> st_path step \<noteq> path \<Longrightarrow> ready lib c step \<Longrightarrow> ready lib c' step"
  by (auto simp: ready_def touches_other)

lemma run_step_total:
  assumes "loop_inv (en_lib en) (step # steps) c" "run_step en b step (c, r, n) io = (res, io')"
  obtains c' r' n' where "res = Inr (c', r', n')"
proof -
  have "submission_block en c step r n (bg_max_concurrent_jobs b) \<noteq> None" if "st_action step = ActSubmit"
    using assms(1) that
    by (auto simp: submission_block_def may_submit_def loop_inv_def ready_def fits_submit split: option.splits)
  with assms(2) that show thesis
    by (auto simp: run_step_def Let_def split: if_splits option.splits prod.splits gate.splits)
qed

lemma loop_inv_step:
  assumes "loop_inv (en_lib en) (step # steps) c" "run_step en b step (c, r, n) io = (Inr (c', r', n'), io')"
  shows "loop_inv (en_lib en) steps c'" "touches (st_path step) c c'"
proof -
  show t: "touches (st_path step) c c'"
    using run_step_touches [OF _ assms(2)] assms(1) by (simp add: loop_inv_def)
  show "loop_inv (en_lib en) steps c'"
    unfolding loop_inv_def
  proof (intro conjI ballI)
    fix x assume "x \<in> set steps"
    with assms(1) have "st_path x \<noteq> st_path step" "ready (en_lib en) c x"
      by (auto simp: loop_inv_def image_iff)
    then show "ready (en_lib en) c' x" by (rule touches_ready [OF t])
  qed (use assms(1) touches_wf [OF t] in \<open>simp_all add: loop_inv_def\<close>)
qed

text \<open>The rule of the loop: it returns, and what each iteration keeps holds at its end.\<close>

lemma run_loop_rule:
  assumes "loop_inv (en_lib en) steps c" "I steps c r n io"
    and "\<And>step rest c r n io c' r' n' io'. loop_inv (en_lib en) (step # rest) c \<Longrightarrow> I (step # rest) c r n io \<Longrightarrow>
      run_step en b step (c, r, n) io = (Inr (c', r', n'), io') \<Longrightarrow> touches (st_path step) c c' \<Longrightarrow> I rest c' r' n' io'"
  obtains c' r' n' io' where "run_loop en b steps (c, r, n) io = (Inr (c', r', n'), io')"
    "loop_inv (en_lib en) [] c'" "I [] c' r' n' io'"
  using assms
proof (induction steps arbitrary: c r n io thesis)
  case Nil
  then show ?case by auto
next
  case (Cons step rest)
  obtain res io1 where s: "run_step en b step (c, r, n) io = (res, io1)"
    by (cases "run_step en b step (c, r, n) io")
  with Cons.prems(2) obtain c1 r1 n1 where res: "res = Inr (c1, r1, n1)" by (rule run_step_total)
  have inv: "loop_inv (en_lib en) rest c1" and t: "touches (st_path step) c c1"
    using loop_inv_step [OF Cons.prems(2)] s res by blast+
  have I: "I rest c1 r1 n1 io1" by (rule Cons.prems(4) [OF Cons.prems(2,3) s [unfolded res] t])
  obtain c' r' n' io' where "run_loop en b rest (c1, r1, n1) io1 = (Inr (c', r', n'), io')"
    "loop_inv (en_lib en) [] c'" "I [] c' r' n' io'"
    by (rule Cons.IH [OF _ inv I Cons.prems(4)])
  with s res Cons.prems(1) show ?case by simp
qed

section \<open>The effects of one step\<close>

text \<open>\<open>c\<close> records that the leaf with this spec was accepted as \<open>sid\<close> under \<open>key\<close>.\<close>

definition recorded :: "library \<Rightarrow> campaign \<Rightarrow> string \<Rightarrow> spec \<Rightarrow> string \<Rightarrow> bool" where
  "recorded lib c key sp sid \<longleftrightarrow> list_ex (\<lambda>(p, s). sim_spec s = sp \<and> key = idempotency_key_for lib c p sp \<and>
     sim_id s = Some sid \<and> sim_run_id s = Some key \<and> sim_status s = Submitted) (simulations (cp_agenda c))"

text \<open>Every accepted submission is saved before anything else happens.\<close>

fun durable :: "library \<Rightarrow> effect list \<Rightarrow> bool" where
  "durable lib [] = True"
| "durable lib (Submit key sp (SubmitOk sid) # fx) =
     ((case fx of Save c # _ \<Rightarrow> recorded lib c key sp sid | _ \<Rightarrow> False) \<and> durable lib fx)"
| "durable lib (_ # fx) = durable lib fx"

lemma durable_append: "durable lib xs \<Longrightarrow> durable lib ys \<Longrightarrow> durable lib (xs @ ys)"
  by (induction lib xs rule: durable.induct) (auto split: list.splits effect.splits)

lemma durableD: "durable lib (pre @ Submit key sp (SubmitOk sid) # post) \<Longrightarrow>
    \<exists>c rest. post = Save c # rest \<and> recorded lib c key sp sid"
  by (induction lib pre rule: durable.induct) (auto split: list.splits effect.splits)

lemma do_submit_io:
  assumes "do_submit en c step io = (res, io')"
  shows "(snd io' = snd io \<and> (\<exists>m. res = Inl (OtherException m None None))) \<or>
    (\<exists>out. snd io' = snd io @ [Submit (idempotency_key (en_lib en) c (st_path step) step) (st_spec step) out] \<and>
       (\<forall>sid. out = SubmitOk sid \<longrightarrow> (\<forall>r. resource_request_from_spec (lb_pydantic (en_lib en)) (st_spec step) = Some r \<longrightarrow>
          res = Inr (c\<lparr>cp_agenda := update_leaf (cp_agenda c) (st_path step)
             (accept_leaf sid (idempotency_key (en_lib en) c (st_path step) step) r), cp_usage := charge (cp_usage c) r\<rparr>))) \<and>
       ((\<exists>c'. res = Inr c') \<longrightarrow> (\<exists>sid. out = SubmitOk sid)))"
  using assms by (auto simp: do_submit_def Let_def split: option.splits prod.splits submit_result.splits)

text \<open>What a step adds to the effects.\<close>

definition step_effects :: "library \<Rightarrow> campaign \<Rightarrow> plan_step \<Rightarrow> campaign \<Rightarrow> effect list \<Rightarrow> bool" where
  "step_effects lib c step c' fx \<longleftrightarrow>
     fx = [] \<or>
     st_action step = ActSubmit \<and> cp_state c = CRunning \<and>
       (fx = [Save c'] \<or>
        (\<exists>out. fx = [Submit (idempotency_key lib c (st_path step) step) (st_spec step) out, Save c'] \<and>
           (\<forall>sid. out = SubmitOk sid \<longrightarrow>
              recorded lib c' (idempotency_key lib c (st_path step) step) (st_spec step) sid)))"

lemma submit_one_effects:
  assumes inv: "loop_inv (en_lib en) (step # steps) c" and act: "st_action step = ActSubmit"
    and one: "submit_one en c step io = ((c', cb, d), io')"
  shows "snd io' = snd io \<or>
    (\<exists>out. snd io' = snd io @ [Submit (idempotency_key (en_lib en) c (st_path step) step) (st_spec step) out] \<and>
       (\<forall>sid. out = SubmitOk sid \<longrightarrow>
          recorded (en_lib en) c' (idempotency_key (en_lib en) c (st_path step) step) (st_spec step) sid))"
proof -
  let ?key = "idempotency_key (en_lib en) c (st_path step) step"
  obtain res io1 where d: "do_submit en c step io = (res, io1)" by (cases "do_submit en c step io")
  have io: "io' = io1" using one d by (auto simp: submit_one_def Let_def split: prod.splits sum.splits submit_exception.splits)
  from inv act obtain s r where s: "(st_path step, s) \<in> set (simulations (cp_agenda c))" "sim_spec s = st_spec step"
    and r: "resource_request_from_spec (lb_pydantic (en_lib en)) (st_spec step) = Some r"
    and wf: "wf_agenda (cp_agenda c)"
    by (auto simp: loop_inv_def ready_def fits_submit)
  have "recorded (en_lib en) c' ?key (st_spec step) sid"
    if "res = Inr (c\<lparr>cp_agenda := update_leaf (cp_agenda c) (st_path step) (accept_leaf sid ?key r), cp_usage := charge (cp_usage c) r\<rparr>)" for sid
  proof -
    have c': "c' = c\<lparr>cp_agenda := update_leaf (cp_agenda c) (st_path step) (accept_leaf sid ?key r), cp_usage := charge (cp_usage c) r\<rparr>"
      using one d that by (simp add: submit_one_def)
    have "(st_path step, accept_leaf sid ?key r s) \<in> set (simulations (cp_agenda c'))"
      using s(1) wf by (force simp: c' simulations_update)
    moreover have "?key = idempotency_key_for (en_lib en) c' (st_path step) (st_spec step)"
      by (simp add: c' idempotency_key_def idempotency_key_for_def)
    ultimately show ?thesis unfolding recorded_def list_ex_iff
      by (rule_tac bexI [of _ "(st_path step, accept_leaf sid ?key r s)"]) (simp_all add: accept_leaf_def s(2))
  qed
  with do_submit_io [OF d] r io show ?thesis by fastforce
qed

lemma run_step_effects:
  assumes inv: "loop_inv (en_lib en) (step # steps) c"
    and step: "run_step en b step (c, r, n) io = (Inr (c', r', n'), io')"
  shows "\<exists>fx. snd io' = snd io @ fx \<and> step_effects (en_lib en) c step c' fx"
proof (cases "st_action step = ActSubmit \<and> submission_block en c step r n (bg_max_concurrent_jobs b) = Some Proceed")
  case True
  obtain c1 cb d io1 where one: "submit_one en c step io = ((c1, cb, d), io1)"
    by (metis prod_cases3 surj_pair)
  with step True have "c' = c1" "snd io' = snd io1 @ [Save c1]"
    by (auto simp: run_step_def Let_def emit_def)
  moreover have "cp_state c = CRunning" using True by (auto simp: submission_block_def split: if_splits)
  ultimately show ?thesis using submit_one_effects [OF inv _ one] True
    by (auto simp: step_effects_def)
next
  case False
  then have "io' = io" using step
    by (auto simp: run_step_def Let_def split: if_splits option.splits gate.splits prod.splits)
  then show ?thesis by (simp add: step_effects_def)
qed


section \<open>The tick\<close>

definition tick_budget :: "'w engine \<Rightarrow> campaign \<Rightarrow> budget" where
  "tick_budget en c = (case en_budget en of None \<Rightarrow> cp_budget c | Some b \<Rightarrow> b)"

definition statuses_before :: "campaign \<Rightarrow> (string \<times> status) list" where
  "statuses_before c = dict_of (statuses (cp_agenda c))"

text \<open>What a tick that is not refused has computed when it saves for the first time.\<close>

definition starts :: "'w engine \<Rightarrow> campaign \<Rightarrow> 'w \<Rightarrow> plan_step list \<Rightarrow> campaign \<Rightarrow> tick_result \<Rightarrow> bool" where
  "starts en stored w steps c r \<longleftrightarrow>
     (\<exists>c1 reused emitted suspects.
        plan en (with_created_ts (en_now_iso en w) stored) (tick_budget en stored) = Some (c1, steps, reused) \<and>
        reject_duplicate_specs (en_lib en) c1 (submit_paths steps) = None \<and>
        emit_callbacks c1 (statuses_before stored) (observe_failures en) (observe_suspects en) (en_now_iso en w)
          = (c, emitted, suspects) \<and>
        r = initial_result c emitted reused suspects)"

lemma created_frame [simp]:
  "cp_agenda (with_created_ts now c) = cp_agenda c" "cp_name (with_created_ts now c) = cp_name c"
  "cp_state (with_created_ts now c) = cp_state c" "cp_callbacks (with_created_ts now c) = cp_callbacks c"
  "cp_budget (with_created_ts now c) = cp_budget c" "cp_usage (with_created_ts now c) = cp_usage c"
  by (simp_all add: with_created_ts_def)

lemma emit_frame:
  assumes "emit_callbacks c b f s now = (c', emitted, suspects)"
  shows "cp_name c' = cp_name c" "cp_state c' = cp_state c" "cp_callbacks c' = cp_callbacks c @ emitted"
    "cp_usage c' = cp_usage c" "static_leaves (cp_agenda c') = static_leaves (cp_agenda c)"
    "statuses (cp_agenda c') = statuses (cp_agenda c)" "wf_agenda (cp_agenda c) \<Longrightarrow> wf_agenda (cp_agenda c')"
  using emit_static [of c b f s now] emit_statuses [of c b f s now] wf_emit [of c b f s now] assms
  by (auto simp: emit_callbacks_def split: prod.splits)

text \<open>A leaf as the tick finds it, seen from the stored campaign.\<close>

lemma starts_frame:
  assumes "starts en stored w steps c r"
  shows "static_leaves (cp_agenda c) = static_leaves (cp_agenda stored)" "cp_name c = cp_name stored"
    "cp_state c = cp_state stored" "wf_agenda (cp_agenda stored) \<Longrightarrow> wf_agenda (cp_agenda c)"
    "us_jobs_running (cp_usage c) = count_in_flight (cp_agenda c)"
proof -
  from assms obtain c1 reused emitted suspects where
    p: "plan en (with_created_ts (en_now_iso en w) stored) (tick_budget en stored) = Some (c1, steps, reused)" and
    e: "emit_callbacks c1 (statuses_before stored) (observe_failures en) (observe_suspects en) (en_now_iso en w)
      = (c, emitted, suspects)"
    by (auto simp: starts_def)
  note f = plan_frame [OF p] emit_frame [OF e]
  show "static_leaves (cp_agenda c) = static_leaves (cp_agenda stored)" "cp_name c = cp_name stored"
    "cp_state c = cp_state stored" "wf_agenda (cp_agenda stored) \<Longrightarrow> wf_agenda (cp_agenda c)"
    using f by simp_all
  show "us_jobs_running (cp_usage c) = count_in_flight (cp_agenda c)"
    using plan_running [OF p] f by (simp add: count_in_flight_statuses)
qed

lemma starts_planned:
  assumes "starts en stored w steps c r" "(p, s) \<in> set (simulations (cp_agenda c))" "sim_status s = Planned"
  shows "\<exists>t. (p, t) \<in> set (simulations (cp_agenda stored)) \<and> sim_status t = Planned"
proof -
  from assms(1) obtain c1 reused emitted suspects where
    pl: "plan en (with_created_ts (en_now_iso en w) stored) (tick_budget en stored) = Some (c1, steps, reused)" and
    e: "emit_callbacks c1 (statuses_before stored) (observe_failures en) (observe_suspects en) (en_now_iso en w)
      = (c, emitted, suspects)"
    by (auto simp: starts_def)
  from status_corr [OF emit_frame(6) [OF e] assms(2)] assms(3)
  obtain t where "(p, t) \<in> set (simulations (cp_agenda c1))" "sim_status t = Planned" by auto
  from plan_planned [OF pl this] show ?thesis by simp
qed

lemma starts_loop_inv:
  assumes "starts en stored w steps c r" "wf_agenda (cp_agenda stored)"
  shows "loop_inv (en_lib en) steps c" "map st_path steps = map fst (simulations (cp_agenda c))"
proof -
  from assms(1) obtain c1 reused emitted suspects where
    p: "plan en (with_created_ts (en_now_iso en w) stored) (tick_budget en stored) = Some (c1, steps, reused)" and
    e: "emit_callbacks c1 (statuses_before stored) (observe_failures en) (observe_suspects en) (en_now_iso en w)
      = (c, emitted, suspects)"
    by (auto simp: starts_def)
  have wf: "wf_agenda (cp_agenda c)" using starts_frame(4) [OF assms(1)] assms(2) by blast
  show paths: "map st_path steps = map fst (simulations (cp_agenda c))"
    using plan_steps(1) [OF p] static_paths [OF emit_frame(5) [OF e]] by simp
  have "ready (en_lib en) c step" if s: "step \<in> set steps" for step
  proof -
    from plan_steps(2) [OF p s] obtain s1 where
      s1: "(st_path step, s1) \<in> set (simulations (cp_agenda c1))" "st_spec step = sim_spec s1"
        "fits (lb_pydantic (en_lib en)) step (sim_status s1)"
      by blast
    from emit_frame(5,6) [OF e] have eq: "static_leaves (cp_agenda c1) = static_leaves (cp_agenda c)"
      "statuses (cp_agenda c1) = statuses (cp_agenda c)" by simp_all
    from static_corr [OF eq(1) s1(1)] status_corr [OF eq(2) s1(1)]
    obtain t u where t: "(st_path step, t) \<in> set (simulations (cp_agenda c))" "static t = static s1"
      and u: "(st_path step, u) \<in> set (simulations (cp_agenda c))" "sim_status u = sim_status s1" by blast
    have "t = u" using t(1) u(1) leaf_at_iff [OF wf] by (metis option.inject)
    then show ?thesis unfolding ready_def using t u s1(2,3) by (auto simp: static_def)
  qed
  then show "loop_inv (en_lib en) steps c"
    unfolding loop_inv_def using wf simulations_distinct [OF wf] paths by simp
qed

text \<open>A tick is refused before its first effect, or runs the loop to its end.\<close>

lemma tick_unfold:
  "tick en stored w =
     (case plan en (with_created_ts (en_now_iso en w) stored) (tick_budget en stored) of
        None \<Rightarrow> (Inl InvalidResources, (w, []))
      | Some (c1, steps, reused) \<Rightarrow>
         (case reject_duplicate_specs (en_lib en) c1 (submit_paths steps) of
            Some (p, q) \<Rightarrow> (Inl (DuplicateSpec p q), (w, []))
          | None \<Rightarrow>
             (let (c2, emitted, suspects) = emit_callbacks c1 (statuses_before stored) (observe_failures en)
                    (observe_suspects en) (en_now_iso en w);
                  (res, io) = run_steps en c2 steps (initial_result c2 emitted reused suspects)
                    (tick_budget en stored) (w, [Save c2])
              in case res of Inl e \<Rightarrow> (Inl e, io)
                 | Inr (c3, r, n) \<Rightarrow>
                    (let (out, io') = finish_tick en (statuses_before stored) c3 r io in (Inr out, io')))))"
  unfolding tick_def Let_def tick_budget_def statuses_before_def statuses_def created_frame by (rule refl)

lemma tick_cases:
  assumes "wf_agenda (cp_agenda stored)" "tick en stored w = (res, io)"
  obtains (refused) e where "res = Inl e" "io = (w, [])"
  | (ran) steps c r c' r' n' io' out where "starts en stored w steps c r"
    "run_loop en (tick_budget en stored) steps (c, r, count_in_flight (cp_agenda c)) (w, [Save c]) = (Inr (c', r', n'), io')"
    "finish_tick en (statuses_before stored) c' r' io' = (out, io)" "res = Inr out"
proof (cases "plan en (with_created_ts (en_now_iso en w) stored) (tick_budget en stored)")
  case None
  then show thesis using assms(2) refused by (auto simp: tick_unfold)
next
  case (Some x)
  obtain c1 steps reused where x: "x = (c1, steps, reused)" by (cases x)
  note plan = Some [unfolded x]
  show thesis
  proof (cases "reject_duplicate_specs (en_lib en) c1 (submit_paths steps)")
    case (Some y)
    then show thesis using assms(2) refused plan by (cases y) (auto simp: tick_unfold)
  next
    case None
    obtain c emitted suspects where e: "emit_callbacks c1 (statuses_before stored) (observe_failures en)
        (observe_suspects en) (en_now_iso en w) = (c, emitted, suspects)" by (rule prod_cases3)
    let ?r = "initial_result c emitted reused suspects"
    have st: "starts en stored w steps c ?r" using plan None e by (auto simp: starts_def)
    obtain c' r' n' io' where l: "run_loop en (tick_budget en stored) steps (c, ?r, count_in_flight (cp_agenda c))
        (w, [Save c]) = (Inr (c', r', n'), io')"
      by (rule run_loop_rule [where I = "\<lambda>_ _ _ _ _. True", OF starts_loop_inv(1) [OF st assms(1)]]) auto
    obtain out io1 where f: "finish_tick en (statuses_before stored) c' r' io' = (out, io1)"
      by (cases "finish_tick en (statuses_before stored) c' r' io'")
    from assms(2) plan None e l f have "io1 = io" "res = Inr out"
      by (simp_all add: tick_unfold run_steps_def starts_frame(5) [OF st])
    with ran [OF st l] f show thesis by simp
  qed
qed


section \<open>What a tick may do to the outside\<close>

text \<open>\<open>d\<close> is a later state of the campaign \<open>c\<close>: same leaves, and none that became planned again.\<close>

definition narrows :: "campaign \<Rightarrow> campaign \<Rightarrow> bool" where
  "narrows c d \<longleftrightarrow> cp_name d = cp_name c \<and> static_leaves (cp_agenda d) = static_leaves (cp_agenda c) \<and>
     wf_agenda (cp_agenda d) \<and>
     (\<forall>(p, s) \<in> set (simulations (cp_agenda d)). sim_status s = Planned \<longrightarrow>
        (\<exists>t. (p, t) \<in> set (simulations (cp_agenda c)) \<and> sim_status t = Planned))"

lemma narrows_refl: "wf_agenda (cp_agenda c) \<Longrightarrow> narrows c c"
  by (auto simp: narrows_def)

lemma narrows_trans: "narrows c d \<Longrightarrow> narrows d e \<Longrightarrow> narrows c e"
  unfolding narrows_def by fastforce

lemma touches_narrows: "touches path c c' \<Longrightarrow> narrows c c'"
  using touches_static [of path c c'] unfolding touches_def narrows_def tame_def
  by (clarsimp split: if_splits; blast)

lemma starts_narrows:
  assumes "starts en stored w steps c r" "wf_agenda (cp_agenda stored)" shows "narrows stored c"
  unfolding narrows_def using starts_frame [OF assms(1)] assms(2) starts_planned [OF assms(1)] by blast

text \<open>A key that the campaign may still submit: that of a planned leaf, while it is running.\<close>

definition may_hand_off :: "library \<Rightarrow> campaign \<Rightarrow> string \<Rightarrow> spec \<Rightarrow> bool" where
  "may_hand_off lib c key sp \<longleftrightarrow> list_ex (\<lambda>(p, s). sim_status s = Planned \<and> sim_spec s = sp \<and>
     key = idempotency_key_for lib c p sp) (simulations (cp_agenda c))"

lemma narrows_hand_off:
  assumes "narrows c d" "may_hand_off lib d key sp" shows "may_hand_off lib c key sp"
proof -
  from assms obtain p s where s: "(p, s) \<in> set (simulations (cp_agenda d))" "sim_status s = Planned" "sim_spec s = sp"
    "key = idempotency_key_for lib c p sp"
    by (auto simp: may_hand_off_def list_ex_iff narrows_def idempotency_key_for_def)
  from assms(1) s obtain t u where t: "(p, t) \<in> set (simulations (cp_agenda c))" "static t = static s"
    and u: "(p, u) \<in> set (simulations (cp_agenda c))" "sim_status u = Planned"
    using static_corr [of "cp_agenda d" "cp_agenda c" p s] by (fastforce simp: narrows_def)
  have "distinct (map fst (simulations (cp_agenda c)))"
    using assms(1) static_paths [of "cp_agenda d" "cp_agenda c"] simulations_distinct [of "cp_agenda d"]
    by (simp add: narrows_def)
  with t(1) u(1) have "t = u" by (metis map_of_is_SomeI option.inject)
  with t u s show ?thesis by (auto simp: may_hand_off_def list_ex_iff static_def)
qed

definition effect_ok :: "library \<Rightarrow> campaign \<Rightarrow> effect \<Rightarrow> bool" where
  "effect_ok lib c e = (case e of
     Save d \<Rightarrow> narrows c d
   | Submit key sp out \<Rightarrow> cp_state c = CRunning \<and> may_hand_off lib c key sp
   | RecordReuse k sid rid \<Rightarrow> True)"

definition effects_ok :: "library \<Rightarrow> campaign \<Rightarrow> effect list \<Rightarrow> bool" where
  "effects_ok lib c fx \<longleftrightarrow> durable lib fx \<and> (\<forall>e \<in> set fx. effect_ok lib c e)"

lemma effects_ok_append: "effects_ok lib c xs \<Longrightarrow> effects_ok lib c ys \<Longrightarrow> effects_ok lib c (xs @ ys)"
  by (auto simp: effects_ok_def durable_append)

lemma step_effects_ok:
  assumes fx: "step_effects (en_lib en) c step c' fx" and inv: "loop_inv (en_lib en) (step # steps) c"
    and "narrows stored c" "cp_state c = cp_state stored" "narrows c c'"
  shows "effects_ok (en_lib en) stored fx"
proof (cases "fx = [] \<or> fx = [Save c']")
  case True
  then show ?thesis using narrows_trans [OF assms(3,5)] by (auto simp: effects_ok_def effect_ok_def)
next
  case False
  with fx obtain out where act: "st_action step = ActSubmit" "cp_state c = CRunning" and
    out: "fx = [Submit (idempotency_key (en_lib en) c (st_path step) step) (st_spec step) out, Save c']"
    "\<And>sid. out = SubmitOk sid \<Longrightarrow>
      recorded (en_lib en) c' (idempotency_key (en_lib en) c (st_path step) step) (st_spec step) sid"
    by (auto simp: step_effects_def)
  have "may_hand_off (en_lib en) c (idempotency_key (en_lib en) c (st_path step) step) (st_spec step)"
    using inv act by (force simp: loop_inv_def ready_def fits_submit may_hand_off_def list_ex_iff idempotency_key_def)
  from narrows_hand_off [OF assms(3) this] out act narrows_trans [OF assms(3,5)] assms(4) show ?thesis
    by (cases out) (auto simp: effects_ok_def effect_ok_def)
qed

lemma durable_no_submit: "(\<And>key sp out. Submit key sp out \<notin> set fx) \<Longrightarrow> durable lib fx"
  by (induction lib fx rule: durable.induct) auto

lemma reuse_calls_ok: "effects_ok lib c (reuse_calls en d before)"
proof -
  have "\<exists>k sid rid. e = RecordReuse k sid rid" if "e \<in> set (reuse_calls en d before)" for e
    using that by (auto simp: reuse_calls_def Let_def split: if_splits option.splits)
  then show ?thesis unfolding effects_ok_def effect_ok_def
    by (fastforce intro!: durable_no_submit)
qed

text \<open>The whole tick.\<close>

lemma tick_effects_ok:
  assumes wf: "wf_agenda (cp_agenda stored)" and tick: "tick en stored w = (res, (w', fx))"
  shows "effects_ok (en_lib en) stored fx \<and> (\<forall>r c. res = Inr (r, c) \<longrightarrow> narrows stored c \<and> cp_state c = cp_state stored)"
  using wf tick
proof (cases rule: tick_cases)
  case refused
  then show ?thesis by (simp add: effects_ok_def)
next
  case (ran steps c r c' r' n' io' out)
  have start: "narrows stored c" "cp_state c = cp_state stored"
    using starts_narrows [OF ran(1) wf] starts_frame(3) [OF ran(1)] by auto
  let ?I = "\<lambda>_ c _ _ io. effects_ok (en_lib en) stored (snd io) \<and> narrows stored c \<and> cp_state c = cp_state stored"
  have I0: "?I steps c r (count_in_flight (cp_agenda c)) (w, [Save c])"
    using start by (simp add: effects_ok_def effect_ok_def)
  obtain c2 r2 n2 io2 where l: "run_loop en (tick_budget en stored) steps (c, r, count_in_flight (cp_agenda c)) (w, [Save c])
      = (Inr (c2, r2, n2), io2)" and I: "?I [] c2 r2 n2 io2"
  proof (rule run_loop_rule [where I = ?I, OF starts_loop_inv(1) [OF ran(1) wf] I0])
    fix step rest c r n io c' r' n' io'
    assume a: "loop_inv (en_lib en) (step # rest) c" "?I (step # rest) c r n io"
      "run_step en (tick_budget en stored) step (c, r, n) io = (Inr (c', r', n'), io')" "touches (st_path step) c c'"
    obtain fx where fx: "snd io' = snd io @ fx" "step_effects (en_lib en) c step c' fx"
      using run_step_effects [OF a(1,3)] by blast
    have n: "narrows c c'" using a(4) by (rule touches_narrows)
    have "effects_ok (en_lib en) stored fx" using step_effects_ok [OF fx(2) a(1) _ _ n] a(2) by blast
    then show "?I rest c' r' n' io'"
      using a(2,4) fx(1) narrows_trans [OF _ n] by (simp add: effects_ok_append touches_def)
  qed
  with ran(2) have eq: "c' = c2" "io' = io2" by simp_all
  have fin: "fx = snd io' @ reuse_calls en c' (statuses_before stored) @ [Save c']" "snd out = c'"
    using ran(3) by (auto simp: finish_tick_def Let_def)
  have "effects_ok (en_lib en) stored [Save c']" using I eq by (simp add: effects_ok_def effect_ok_def)
  with I eq fin show ?thesis using ran(4)
    by (auto intro!: effects_ok_append reuse_calls_ok)
qed

section \<open>Histories: ticks, restarts and crashes\<close>

text \<open>
  After a crash the store holds the last campaign saved. A history runs a schedule of ticks over one
  store: each entry is an engine, the state of the outside when it starts, and the number of effects
  after which the process dies (a tick with a larger number is not cut off). Between ticks the outside
  may have changed in any way. The result is the log of all effects and the stored campaign.
\<close>

type_synonym 'w schedule = "('w engine \<times> 'w \<times> nat) list"

fun last_saved :: "campaign \<Rightarrow> effect list \<Rightarrow> campaign" where
  "last_saved c [] = c"
| "last_saved c (Save d # fx) = last_saved d fx"
| "last_saved c (_ # fx) = last_saved c fx"

definition tick_effects :: "'w engine \<Rightarrow> campaign \<Rightarrow> 'w \<Rightarrow> effect list" where
  "tick_effects en c w = snd (snd (tick en c w))"

fun run_history :: "'w schedule \<Rightarrow> campaign \<Rightarrow> effect list \<times> campaign" where
  "run_history [] c = ([], c)"
| "run_history ((en, w, k) # sch) c =
     (let pre = take k (tick_effects en c w); (lg, d) = run_history sch (last_saved c pre) in (pre @ lg, d))"

definition engines_over :: "library \<Rightarrow> 'w schedule \<Rightarrow> bool" where
  "engines_over lib sch \<longleftrightarrow> list_all (\<lambda>(en, w, k). en_lib en = lib) sch"

lemma last_saved_cases: "last_saved c fx = c \<or> Save (last_saved c fx) \<in> set fx"
  by (induction c fx rule: last_saved.induct) auto

lemma tick_effects_narrow:
  assumes "wf_agenda (cp_agenda c)" "en_lib en = lib"
  shows "\<forall>e \<in> set (take k (tick_effects en c w)). effect_ok lib c e"
    "narrows c (last_saved c (take k (tick_effects en c w)))"
proof -
  obtain res w' fx where t: "tick en c w = (res, (w', fx))" by (rule prod_cases3)
  then have fx: "tick_effects en c w = fx" by (simp add: tick_effects_def)
  from tick_effects_ok [OF assms(1) t] assms(2)
  show ok: "\<forall>e \<in> set (take k (tick_effects en c w)). effect_ok lib c e"
    by (auto simp: effects_ok_def fx dest: in_set_takeD)
  with last_saved_cases [of c "take k (tick_effects en c w)"] narrows_refl [OF assms(1)]
  show "narrows c (last_saved c (take k (tick_effects en c w)))" by (auto simp: effect_ok_def)
qed

lemma history_facts:
  assumes "run_history sch c = (lg, d)" "engines_over lib sch" "wf_agenda (cp_agenda c)"
  shows "narrows c d \<and> (\<forall>key sp out. Submit key sp out \<in> set lg \<longrightarrow> may_hand_off lib c key sp)"
  using assms
proof (induction sch arbitrary: c lg d)
  case Nil
  then show ?case by (auto intro: narrows_refl)
next
  case (Cons x sch)
  obtain en w k where x: "x = (en, w, k)" by (cases x)
  let ?pre = "take k (tick_effects en c w)"
  obtain lg' where r: "run_history sch (last_saved c ?pre) = (lg', d)" "lg = ?pre @ lg'"
    using Cons.prems(1) x by (auto simp: Let_def split: prod.splits)
  have lib: "en_lib en = lib" "engines_over lib sch" using Cons.prems(2) x by (auto simp: engines_over_def)
  note f = tick_effects_narrow [OF Cons.prems(3) lib(1), of k w]
  have wf: "wf_agenda (cp_agenda (last_saved c ?pre))" using f(2) by (simp add: narrows_def)
  note IH = Cons.IH [OF r(1) lib(2) wf]
  have "may_hand_off lib c key sp" if "Submit key sp out \<in> set lg" for key sp out
  proof (cases "Submit key sp out \<in> set ?pre")
    case True
    with f(1) have "effect_ok lib c (Submit key sp out)" by blast
    then show ?thesis by (simp add: effect_ok_def)
  next
    case False
    with that r(2) have "Submit key sp out \<in> set lg'" by simp
    with IH have "may_hand_off lib (last_saved c ?pre) key sp" by blast
    then show ?thesis by (rule narrows_hand_off [OF f(2)])
  qed
  with narrows_trans [OF f(2)] IH show ?case by blast
qed

text \<open>Distinct leaves have distinct command ids, unless the hash collides.\<close>

definition distinct_keys :: "library \<Rightarrow> campaign \<Rightarrow> bool" where
  "distinct_keys lib c \<longleftrightarrow>
     distinct (map (\<lambda>(p, s). idempotency_key_for lib c p (sim_spec s)) (simulations (cp_agenda c)))"

lemma recorded_not_open:
  assumes "wf_agenda (cp_agenda c)" "distinct_keys lib c" "recorded lib c key sp sid"
  shows "\<not> may_hand_off lib c key sp'"
proof
  assume "may_hand_off lib c key sp'"
  then obtain p s where s: "(p, s) \<in> set (simulations (cp_agenda c))" "sim_status s = Planned"
    "key = idempotency_key_for lib c p (sim_spec s)" by (auto simp: may_hand_off_def list_ex_iff)
  from assms(3) obtain q t where t: "(q, t) \<in> set (simulations (cp_agenda c))" "sim_status t = Submitted"
    "key = idempotency_key_for lib c q (sim_spec t)" by (auto simp: recorded_def list_ex_iff)
  from assms(2) have "inj_on (\<lambda>(p, s). idempotency_key_for lib c p (sim_spec s)) (set (simulations (cp_agenda c)))"
    by (simp add: distinct_keys_def distinct_map)
  from inj_onD [OF this _ s(1) t(1)] s(3) t(3) have "(p, s) = (q, t)" by simp
  with s t show False by simp
qed


text \<open>The effects of a tick that is not refused begin and end with a save.\<close>

lemma tick_shape:
  assumes "wf_agenda (cp_agenda stored)" "tick en stored w = (res, io)"
  shows "(\<exists>e. res = Inl e \<and> io = (w, [])) \<or>
    (\<exists>r d c mid. res = Inr (r, d) \<and> snd io = Save c # mid @ [Save d])"
  using assms
proof (cases rule: tick_cases)
  case (refused e)
  then show ?thesis by simp
next
  case (ran steps c r c' r' n' io' out)
  have "\<exists>fx. snd io' = Save c # fx"
  proof (rule run_loop_rule [where I = "\<lambda>_ _ _ _ io. \<exists>fx. snd io = Save c # fx", OF starts_loop_inv(1) [OF ran(1) assms(1)]])
    show "\<exists>fx. snd (w, [Save c]) = Save c # fx" by simp
  next
    fix step rest c1 r1 n1 io1 c2 r2 n2 io2
    assume a: "loop_inv (en_lib en) (step # rest) c1" "\<exists>fx. snd io1 = Save c # fx"
      "run_step en (tick_budget en stored) step (c1, r1, n1) io1 = (Inr (c2, r2, n2), io2)"
    obtain fx where "snd io2 = snd io1 @ fx" using run_step_effects [OF a(1,3)] by blast
    with a(2) show "\<exists>fx. snd io2 = Save c # fx" by auto
  next
    fix c2 r2 n2 io2
    assume "run_loop en (tick_budget en stored) steps (c, r, count_in_flight (cp_agenda c)) (w, [Save c]) = (Inr (c2, r2, n2), io2)"
      "\<exists>fx. snd io2 = Save c # fx"
    with ran(2) show ?thesis by simp
  qed
  then obtain fx where "snd io' = Save c # fx" by blast
  moreover have "\<exists>r'' fx'. out = (r'', c') \<and> snd io = snd io' @ fx' @ [Save c']"
    using ran(3) by (auto simp: finish_tick_def Let_def)
  ultimately show ?thesis using ran(1,4) by auto
qed

end
