(* ===== verification/AgendaTick.thy ===== *)
theory AgendaTick
  imports AgendaEngineFacts
begin

text \<open>
  What one iteration of the tick's loop does to its leaf, the result and the counters, and what follows
  for the caps and the callbacks of a whole tick.
\<close>

section \<open>The outcome of one iteration\<close>

datatype outcome = Unchanged | Accepted | FailedWith callback

definition outcome_callbacks :: "outcome \<Rightarrow> callback list" where
  "outcome_callbacks oc = (case oc of FailedWith cb \<Rightarrow> [cb] | _ \<Rightarrow> [])"

text \<open>\<open>s\<close> and \<open>s'\<close> are the leaf before and after.\<close>

definition leaf_outcome :: "string \<Rightarrow> agenda_sim \<Rightarrow> agenda_sim \<Rightarrow> outcome \<Rightarrow> bool" where
  "leaf_outcome path s s' oc = (case oc of
     Unchanged \<Rightarrow> sim_status s' = sim_status s
   | Accepted \<Rightarrow> sim_status s = Planned \<and> sim_status s' = Submitted
   | FailedWith cb \<Rightarrow> sim_status s = Planned \<and> sim_status s' = Failed \<and> cb_path cb = path \<and> cb_kind cb = KFailed)"

definition step_outcome :: "'w engine \<Rightarrow> budget \<Rightarrow> plan_step \<Rightarrow> campaign \<times> tick_result \<times> int
    \<Rightarrow> campaign \<times> tick_result \<times> int \<Rightarrow> outcome \<Rightarrow> bool" where
  "step_outcome en b step st st' oc = (case (st, st') of ((c, r, n), (c', r', n')) \<Rightarrow>
     (\<exists>s s'. (st_path step, s) \<in> set (simulations (cp_agenda c)) \<and> (st_path step, s') \<in> set (simulations (cp_agenda c')) \<and>
        leaf_outcome (st_path step) s s' oc) \<and>
     cp_callbacks c' = cp_callbacks c @ outcome_callbacks oc \<and>
     tr_callbacks r' = tr_callbacks r @ outcome_callbacks oc \<and>
     tr_submitted r' = tr_submitted r @ (if oc = Accepted then [st_path step] else []) \<and>
     n' = (if oc = Accepted then n + 1 else n) \<and>
     (oc = Accepted \<longrightarrow> cp_state c = CRunning \<and>
        int (length (tr_submitted r)) < po_max_submits_per_tick (en_policy en) \<and>
        (\<forall>cap. bg_max_concurrent_jobs b = Some cap \<longrightarrow> n < cap)))"

lemma hold_frame [simp]:
  "tr_callbacks (hold r p g) = tr_callbacks r" "tr_submitted (hold r p g) = tr_submitted r"
  by (simp_all add: hold_def split: gate.splits)

lemma bucket_frame [simp]:
  "tr_callbacks (bucket r p a) = tr_callbacks r" "tr_submitted (bucket r p a) = tr_submitted r"
  by (simp_all add: bucket_def split: plan_action.splits)

lemma add_callback_frame [simp]:
  "tr_callbacks (add_callback r cb) = tr_callbacks r @ (case cb of None \<Rightarrow> [] | Some x \<Rightarrow> [x])"
  "tr_submitted (add_callback r cb) = tr_submitted r"
  by (simp_all add: add_callback_def split: option.splits)

lemma note_frame [simp]:
  "tr_callbacks (note_submission r p cb d) = tr_callbacks r @ (case cb of None \<Rightarrow> [] | Some x \<Rightarrow> [x])"
  "tr_submitted (note_submission r p cb d) = tr_submitted r @ (if cb = None \<and> \<not> d then [p] else [])"
  by (simp_all add: note_submission_def Let_def split: option.splits)

lemma update_member:
  assumes "wf_agenda g" "(path, s) \<in> set (simulations g)"
  shows "(path, f s) \<in> set (simulations (update_leaf g path f))"
  using assms by (force simp: simulations_update)

lemma ready_leaf:
  assumes "loop_inv lib (step # steps) c"
  obtains s where "(st_path step, s) \<in> set (simulations (cp_agenda c))" "leaf_at (cp_agenda c) (st_path step) = Some s"
    "fits (lb_pydantic lib) step (sim_status s)" "sim_spec s = st_spec step" "wf_agenda (cp_agenda c)"
  using assms leaf_at_iff [of "cp_agenda c"] by (auto simp: loop_inv_def ready_def)

lemma new_callback_simps [simp]:
  "cb_path (new_callback p k i t) = p" "cb_kind (new_callback p k i t) = k" "cb_sim_id (new_callback p k i t) = i"
  by (simp_all add: new_callback_def)

lemma persist_outcome:
  assumes inv: "loop_inv lib (step # steps) c" and act: "st_action step \<noteq> ActSubmit"
    and p: "persist_terminal lib c step now = (c', cb)"
  obtains s s' oc where "(st_path step, s) \<in> set (simulations (cp_agenda c))"
    "(st_path step, s') \<in> set (simulations (cp_agenda c'))" "leaf_outcome (st_path step) s s' oc" "oc \<noteq> Accepted"
    "cp_callbacks c' = cp_callbacks c @ outcome_callbacks oc" "outcome_callbacks oc = (case cb of None \<Rightarrow> [] | Some x \<Rightarrow> [x])"
proof -
  obtain s where s: "(st_path step, s) \<in> set (simulations (cp_agenda c))"
    "leaf_at (cp_agenda c) (st_path step) = Some s" "fits (lb_pydantic lib) step (sim_status s)"
    "wf_agenda (cp_agenda c)"
    using inv by (rule ready_leaf)
  show thesis
  proof (cases cb)
    case None
    then have "c' = c" using p s(2) by (auto simp: persist_terminal_def Let_def split: if_splits)
    with s None that [of s s Unchanged] show thesis by (simp add: leaf_outcome_def outcome_callbacks_def)
  next
    case (Some x)
    with p s(2) have f: "st_action step \<in> {ActFailed, ActDone}" "sim_status s \<notin> {Failed, Done}"
      by (auto simp: persist_terminal_def Let_def split: if_splits)
    with s(3) have pl: "sim_status s = Planned" "st_action step = ActFailed" by (auto simp: fits_def)
    from p Some s(2) pl obtain g where g: "cp_agenda c' = update_leaf (cp_agenda c) (st_path step) g"
      "sim_status (g s) = Failed" "cp_callbacks c' = cp_callbacks c @ [x]" "cb_path x = st_path step" "cb_kind x = KFailed"
      by (auto simp: persist_terminal_def Let_def split: if_splits)
    with update_member [OF s(4,1), of g] s(1) pl Some that [of s "g s" "FailedWith x"] show thesis
      by (simp add: leaf_outcome_def outcome_callbacks_def)
  qed
qed

lemma submit_outcome:
  assumes inv: "loop_inv (en_lib en) (step # steps) c" and act: "st_action step = ActSubmit"
    and one: "submit_one en c step io = ((c', cb, d), io')"
  obtains s s' oc where "(st_path step, s) \<in> set (simulations (cp_agenda c))"
    "(st_path step, s') \<in> set (simulations (cp_agenda c'))" "leaf_outcome (st_path step) s s' oc"
    "oc = Accepted \<longleftrightarrow> cb = None \<and> \<not> d" "cp_callbacks c' = cp_callbacks c @ outcome_callbacks oc"
    "outcome_callbacks oc = (case cb of None \<Rightarrow> [] | Some x \<Rightarrow> [x])"
proof -
  obtain s where s: "(st_path step, s) \<in> set (simulations (cp_agenda c))"
    "leaf_at (cp_agenda c) (st_path step) = Some s" "fits (lb_pydantic (en_lib en)) step (sim_status s)"
    "wf_agenda (cp_agenda c)"
    using inv by (rule ready_leaf)
  from s(3) act have pl: "sim_status s = Planned" by (simp add: fits_submit)
  note upd = update_member [OF s(4,1)]
  obtain res io1 where dd: "do_submit en c step io = (res, io1)" by (cases "do_submit en c step io")
  show thesis
  proof (cases res)
    case (Inr c1)
    with dd obtain sid key r where "c1 = c\<lparr>cp_agenda := update_leaf (cp_agenda c) (st_path step) (accept_leaf sid key r),
        cp_usage := charge (cp_usage c) r\<rparr>"
      by (auto simp: do_submit_def Let_def split: option.splits prod.splits submit_result.splits)
    moreover from one dd Inr have "c' = c1" "cb = None" "\<not> d" by (simp_all add: submit_one_def)
    ultimately show thesis using s(1) pl upd [of "accept_leaf sid key r"] that [of s "accept_leaf sid key r s" Accepted]
      by (simp add: leaf_outcome_def outcome_callbacks_def accept_leaf_def)
  next
    case (Inl e)
    show thesis
    proof (cases e)
      case (Transient m code sid)
      with one dd Inl obtain t now where d: d and
        rd: "record_deferral en c (st_path step) m code sid t now = (c', cb)"
        by (auto simp: submit_one_def Let_def split: prod.splits)
      show thesis
      proof (cases cb)
        case None
        with rd s(2) obtain g where "c' = c\<lparr>cp_agenda := update_leaf (cp_agenda c) (st_path step) g\<rparr>"
          "sim_status (g s) = sim_status s"
          by (auto simp: record_deferral_def Let_def defer_leaf_def split: if_splits)
        with s(1) upd [of g] None d that [of s "g s" Unchanged] show thesis
          by (simp add: leaf_outcome_def outcome_callbacks_def)
      next
        case (Some x)
        with rd s(2) obtain g where "cp_agenda c' = update_leaf (cp_agenda c) (st_path step) g"
          "sim_status (g s) = Failed" "cp_callbacks c' = cp_callbacks c @ [x]" "cb_path x = st_path step" "cb_kind x = KFailed"
          by (auto simp: record_deferral_def Let_def split: if_splits)
        with s(1) upd [of g] Some d pl that [of s "g s" "FailedWith x"] show thesis
          by (simp add: leaf_outcome_def outcome_callbacks_def)
      qed
    next
      case (OtherException m code stage)
      with one dd Inl s(2) obtain x where "cb = Some x" "\<not> d" "cb_path x = st_path step" "cb_kind x = KFailed"
        "cp_agenda c' = update_leaf (cp_agenda c) (st_path step) (fail_leaf m code stage)"
        "cp_callbacks c' = cp_callbacks c @ [x]"
        by (auto simp: submit_one_def record_failure_def Let_def split: prod.splits)
      with s(1) upd [of "fail_leaf m code stage"] pl that [of s "fail_leaf m code stage s" "FailedWith x"] show thesis
        by (simp add: leaf_outcome_def outcome_callbacks_def fail_leaf_def)
    qed
  qed
qed

lemma run_step_outcome:
  assumes inv: "loop_inv (en_lib en) (step # steps) c" and step: "run_step en b step (c, r, n) io = (Inr (c', r', n'), io')"
  obtains oc where "step_outcome en b step (c, r, n) (c', r', n') oc"
proof (cases "st_action step = ActSubmit")
  case False
  with step obtain cb where p: "persist_terminal (en_lib en) c step (en_now_iso en (fst io)) = (c', cb)"
    and r: "r' = bucket (add_callback r cb) (st_path step) (st_action step)" "n' = n"
    by (auto simp: run_step_def Let_def split: prod.splits)
  obtain s s' oc where o: "(st_path step, s) \<in> set (simulations (cp_agenda c))"
    "(st_path step, s') \<in> set (simulations (cp_agenda c'))" "leaf_outcome (st_path step) s s' oc" "oc \<noteq> Accepted"
    "cp_callbacks c' = cp_callbacks c @ outcome_callbacks oc" "outcome_callbacks oc = (case cb of None \<Rightarrow> [] | Some x \<Rightarrow> [x])"
    using persist_outcome [OF inv False p] .
  have "step_outcome en b step (c, r, n) (c', r', n') oc"
    unfolding step_outcome_def using o by (auto simp: r)
  then show thesis by (rule that)
next
  case act: True
  show thesis
  proof (cases "submission_block en c step r n (bg_max_concurrent_jobs b) = Some Proceed")
    case True
    obtain c1 cb d io1 where one: "submit_one en c step io = ((c1, cb, d), io1)" by (metis prod_cases3 surj_pair)
    with step True act have r: "c' = c1" "r' = note_submission r (st_path step) cb d"
      "n' = (if \<not> d \<and> cb = None then n + 1 else n)" by (auto simp: run_step_def Let_def)
    from True have g: "cp_state c = CRunning" "int (length (tr_submitted r)) < po_max_submits_per_tick (en_policy en)"
      "\<forall>cap. bg_max_concurrent_jobs b = Some cap \<longrightarrow> n < cap"
      by (auto simp: submission_block_def split: if_splits option.splits)
    obtain s s' oc where o: "(st_path step, s) \<in> set (simulations (cp_agenda c))"
      "(st_path step, s') \<in> set (simulations (cp_agenda c1))" "leaf_outcome (st_path step) s s' oc"
      "oc = Accepted \<longleftrightarrow> cb = None \<and> \<not> d" "cp_callbacks c1 = cp_callbacks c @ outcome_callbacks oc"
      "outcome_callbacks oc = (case cb of None \<Rightarrow> [] | Some x \<Rightarrow> [x])"
      using submit_outcome [OF inv act one] .
    have "step_outcome en b step (c, r, n) (c', r', n') oc"
      unfolding step_outcome_def using o g by (auto simp: r)
    then show thesis by (rule that)
  next
    case False
    with step act have "c' = c" "\<exists>g. r' = hold r (st_path step) g" "n' = n"
      by (auto simp: run_step_def Let_def split: if_splits option.splits gate.splits prod.splits)
    moreover obtain s where "(st_path step, s) \<in> set (simulations (cp_agenda c))" using inv by (rule ready_leaf)
    ultimately have "step_outcome en b step (c, r, n) (c', r', n') Unchanged"
      by (auto simp: step_outcome_def leaf_outcome_def outcome_callbacks_def)
    then show thesis by (rule that)
  qed
qed


section \<open>The counters of a whole tick\<close>

lemma count_update:
  "distinct (map fst xs) \<Longrightarrow> (path, s) \<in> set xs \<Longrightarrow>
   length (filter (\<lambda>(p, s). P s) (map (\<lambda>(p, s). (p, if p = path then f s else s)) xs)) + (if P s then 1 else 0)
   = length (filter (\<lambda>(p, s). P s) xs) + (if P (f s) then 1 else 0)"
proof (induction xs)
  case (Cons x xs)
  obtain q t where x: "x = (q, t)" by (cases x)
  show ?case
  proof (cases "q = path")
    case True
    have "map (\<lambda>(p, s). (p, if p = path then f s else s)) xs = xs"
      using Cons.prems(1) x True by (intro map_idI) force
    moreover have "t = s" using Cons.prems x True by (auto simp: image_iff)
    ultimately show ?thesis using x True by simp
  next
    case False
    with Cons.prems x have "(path, s) \<in> set xs" "distinct (map fst xs)" by auto
    with Cons.IH x False show ?thesis by simp
  qed
qed simp

lemma outcome_leaf:
  assumes "touches (st_path step) c c'" "loop_inv (en_lib en) (step # steps) c"
    and "step_outcome en b step (c, r, n) (c', r', n') oc"
  obtains f s where "(st_path step, s) \<in> set (simulations (cp_agenda c))" "leaf_outcome (st_path step) s (f s) oc"
    "simulations (cp_agenda c') = map (\<lambda>(p, s). (p, if p = st_path step then f s else s)) (simulations (cp_agenda c))"
proof -
  from assms(1) obtain f where f: "simulations (cp_agenda c')
      = map (\<lambda>(p, s). (p, if p = st_path step then f s else s)) (simulations (cp_agenda c))" by (auto simp: touches_def)
  from assms(3) obtain s s' where s: "(st_path step, s) \<in> set (simulations (cp_agenda c))"
    "(st_path step, s') \<in> set (simulations (cp_agenda c'))" "leaf_outcome (st_path step) s s' oc"
    by (auto simp: step_outcome_def)
  have wf: "wf_agenda (cp_agenda c)" using assms(2) by (simp add: loop_inv_def)
  from s(2) f obtain t where "(st_path step, t) \<in> set (simulations (cp_agenda c))" "s' = f t" by auto
  with s(1) leaf_at_iff [OF wf] have "s' = f s" by (metis option.inject)
  with f s that show thesis by blast
qed

lemma outcome_count:
  assumes "touches (st_path step) c c'" "loop_inv (en_lib en) (step # steps) c"
    and "step_outcome en b step (c, r, n) (c', r', n') oc"
  shows "count_in_flight (cp_agenda c') = count_in_flight (cp_agenda c) + (if oc = Accepted then 1 else 0)"
proof -
  obtain f s where s: "(st_path step, s) \<in> set (simulations (cp_agenda c))" "leaf_outcome (st_path step) s (f s) oc"
    and f: "simulations (cp_agenda c') = map (\<lambda>(p, s). (p, if p = st_path step then f s else s)) (simulations (cp_agenda c))"
    using outcome_leaf [OF assms] .
  have d: "distinct (map fst (simulations (cp_agenda c)))"
    using assms(2) simulations_distinct by (simp add: loop_inv_def)
  note c = count_update [OF d s(1), of in_flight f]
  show ?thesis
  proof (cases "oc = Accepted")
    case True
    with s(2) have "in_flight (f s)" "\<not> in_flight s" by (auto simp: leaf_outcome_def in_flight_def)
    with c True show ?thesis by (simp add: count_in_flight_def f)
  next
    case False
    with s(2) have "in_flight (f s) = in_flight s"
      by (auto simp: leaf_outcome_def in_flight_def split: outcome.splits)
    with c False show ?thesis by (simp add: count_in_flight_def f split: if_splits)
  qed
qed

lemma loop_counts:
  assumes "starts en stored w steps c r" "wf_agenda (cp_agenda stored)"
    and "run_loop en b steps (c, r, count_in_flight (cp_agenda c)) (w, [Save c]) = (Inr (c', r', n'), io')"
  shows "n' = count_in_flight (cp_agenda c')"
    "n' = count_in_flight (cp_agenda c) + int (length (tr_submitted r'))"
    "int (length (tr_submitted r')) \<le> max 0 (po_max_submits_per_tick (en_policy en))"
    "\<forall>cap. bg_max_concurrent_jobs b = Some cap \<longrightarrow> n' \<le> max cap (count_in_flight (cp_agenda c))"
proof -
  let ?n0 = "count_in_flight (cp_agenda c)"
  let ?I = "\<lambda>_ c r n _. n = count_in_flight (cp_agenda c) \<and> n = ?n0 + int (length (tr_submitted r)) \<and>
     int (length (tr_submitted r)) \<le> max 0 (po_max_submits_per_tick (en_policy en)) \<and>
     (\<forall>cap. bg_max_concurrent_jobs b = Some cap \<longrightarrow> n \<le> max cap ?n0)"
  have I0: "?I steps c r ?n0 (w, [Save c])" using assms(1) by (auto simp: starts_def initial_result_def)
  obtain c2 r2 n2 io2 where "run_loop en b steps (c, r, ?n0) (w, [Save c]) = (Inr (c2, r2, n2), io2)" and I: "?I [] c2 r2 n2 io2"
  proof (rule run_loop_rule [where I = ?I, OF starts_loop_inv(1) [OF assms(1,2)] I0])
    fix step rest c r n io c' r' n' io'
    assume a: "loop_inv (en_lib en) (step # rest) c" "?I (step # rest) c r n io"
      "run_step en b step (c, r, n) io = (Inr (c', r', n'), io')" "touches (st_path step) c c'"
    obtain oc where oc: "step_outcome en b step (c, r, n) (c', r', n') oc" using run_step_outcome [OF a(1,3)] .
    show "?I rest c' r' n' io'"
      using a(2) oc outcome_count [OF a(4,1) oc] by (cases "oc = Accepted") (auto simp: step_outcome_def)
  qed
  with assms(3) show "n' = count_in_flight (cp_agenda c')"
    "n' = count_in_flight (cp_agenda c) + int (length (tr_submitted r'))"
    "int (length (tr_submitted r')) \<le> max 0 (po_max_submits_per_tick (en_policy en))"
    "\<forall>cap. bg_max_concurrent_jobs b = Some cap \<longrightarrow> n' \<le> max cap (count_in_flight (cp_agenda c))"
    by auto
qed

section \<open>Callbacks are the transitions\<close>

definition status_kind :: "status \<Rightarrow> callback_kind option" where
  "status_kind st = (case st of Done \<Rightarrow> Some KDone | Failed \<Rightarrow> Some KFailed | _ \<Rightarrow> None)"

text \<open>The leaves that are terminal now and had another status before.\<close>

definition transition :: "(string \<times> status) list \<Rightarrow> string \<times> status \<Rightarrow> bool" where
  "transition before x = (case x of (p, st) \<Rightarrow> st \<in> {Done, Failed} \<and> map_of before p \<noteq> Some st)"

definition transitions :: "(string \<times> status) list \<Rightarrow> agenda_group \<Rightarrow> (string \<times> callback_kind) list" where
  "transitions before g = map (\<lambda>(p, st). (p, the (status_kind st))) (filter (transition before) (statuses g))"

definition cb_mark :: "callback \<Rightarrow> string \<times> callback_kind" where
  "cb_mark cb = (cb_path cb, cb_kind cb)"

lemma transitions_iff:
  "(p, k) \<in> set (transitions before g) \<longleftrightarrow>
   (\<exists>s. (p, s) \<in> set (simulations g) \<and> status_kind (sim_status s) = Some k \<and> map_of before p \<noteq> Some (sim_status s))"
proof -
  have k: "st \<in> {Done, Failed} \<and> k = the (status_kind st) \<longleftrightarrow> status_kind st = Some k" for st
    by (cases st) (auto simp: status_kind_def)
  have "(p, k) \<in> set (transitions before g) \<longleftrightarrow> (\<exists>s. (p, s) \<in> set (simulations g) \<and>
      transition before (p, sim_status s) \<and> k = the (status_kind (sim_status s)))"
    by (force simp: transitions_def statuses_def)
  then show ?thesis unfolding transition_def by (auto simp: k [symmetric])
qed

lemma callback_leaf_mark:
  "map cb_mark (fst (snd (callback_leaf before f su now p s acc))) = map cb_mark (fst acc) @
     (if transition before (p, sim_status s) then [(p, the (status_kind (sim_status s)))] else [])"
  by (cases "sim_status s")
    (auto simp: callback_leaf_def Let_def transition_def cb_mark_def status_kind_def split: prod.splits option.splits if_splits)

lemma thread_callbacks:
  "map cb_mark (fst (snd (thread (callback_leaf before f su now) xs acc))) = map cb_mark (fst acc) @
     map (\<lambda>(p, st). (p, the (status_kind st))) (filter (transition before) (map (\<lambda>(p, s). (p, sim_status s)) xs))"
proof (induction xs arbitrary: acc)
  case (Cons x xs)
  obtain p s where x: "x = (p, s)" by (cases x)
  obtain s1 a1 where c: "callback_leaf before f su now p s acc = (s1, a1)" by (cases "callback_leaf before f su now p s acc")
  obtain ys a2 where t: "thread (callback_leaf before f su now) xs a1 = (ys, a2)"
    by (cases "thread (callback_leaf before f su now) xs a1")
  from callback_leaf_mark [of before f su now p s acc] Cons.IH [of a1] show ?case by (auto simp: x c t)
qed simp

lemma emit_marks:
  assumes "emit_callbacks c before f su now = (c', emitted, suspects)"
  shows "map cb_mark emitted = transitions before (cp_agenda c')"
proof -
  have "emitted = fst (snd (for_leaves (callback_leaf before f su now) (cp_agenda c) ([], [])))"
    using assms by (auto simp: emit_callbacks_def split: prod.splits)
  then show ?thesis
    by (simp add: simulations_for_leaves thread_callbacks transitions_def emit_frame(6) [OF assms])
      (simp add: statuses_def)
qed

lemma transitions_distinct: "wf_agenda g \<Longrightarrow> distinct (map fst (transitions before g))"
proof -
  assume "wf_agenda g"
  then have "distinct (map fst (statuses g))"
    using simulations_distinct by (simp add: statuses_def comp_def case_prod_beta)
  then show ?thesis by (simp add: transitions_def comp_def case_prod_beta distinct_map_filter)
qed

text \<open>One iteration adds the callback of the one leaf it fails.\<close>

lemma outcome_transitions:
  assumes t: "touches (st_path step) c c'" and inv: "loop_inv (en_lib en) (step # steps) c"
    and oc: "step_outcome en b step (c, r, n) (c', r', n') oc"
    and before: "\<And>p s. (p, s) \<in> set (simulations (cp_agenda c)) \<Longrightarrow> sim_status s = Planned \<Longrightarrow> map_of before p = Some Planned"
  shows "set (transitions before (cp_agenda c')) = set (transitions before (cp_agenda c)) \<union> cb_mark ` set (outcome_callbacks oc)"
    "\<forall>cb \<in> set (outcome_callbacks oc). cb_path cb \<notin> fst ` set (transitions before (cp_agenda c))"
proof -
  obtain f s where s: "(st_path step, s) \<in> set (simulations (cp_agenda c))" "leaf_outcome (st_path step) s (f s) oc"
    and f: "simulations (cp_agenda c') = map (\<lambda>(p, s). (p, if p = st_path step then f s else s)) (simulations (cp_agenda c))"
    using outcome_leaf [OF t inv oc] .
  have wf: "wf_agenda (cp_agenda c)" "wf_agenda (cp_agenda c')" using inv touches_wf [OF t] by (simp_all add: loop_inv_def)
  have uniq: "t = s" if "(st_path step, t) \<in> set (simulations (cp_agenda c))" for t
    using that s(1) leaf_at_iff [OF wf(1)] by (metis option.inject)
  have uniq': "t = f s" if "(st_path step, t) \<in> set (simulations (cp_agenda c'))" for t
    using that uniq by (auto simp: f)
  have fs: "(st_path step, f s) \<in> set (simulations (cp_agenda c'))" using s(1) by (force simp: f)
  have other: "(p, k) \<in> set (transitions before (cp_agenda c')) \<longleftrightarrow> (p, k) \<in> set (transitions before (cp_agenda c))"
    if "p \<noteq> st_path step" for p k
    using touches_other [OF t that] by (simp add: transitions_iff)
  have here: "(st_path step, k) \<in> set (transitions before (cp_agenda c')) \<longleftrightarrow>
      status_kind (sim_status (f s)) = Some k \<and> map_of before (st_path step) \<noteq> Some (sim_status (f s))"
    "(st_path step, k) \<in> set (transitions before (cp_agenda c)) \<longleftrightarrow>
      status_kind (sim_status s) = Some k \<and> map_of before (st_path step) \<noteq> Some (sim_status s)" for k
    using uniq uniq' s(1) fs unfolding transitions_iff by blast+
  note b = before [OF s(1)]
  show "\<forall>cb \<in> set (outcome_callbacks oc). cb_path cb \<notin> fst ` set (transitions before (cp_agenda c))"
    using s(2) here(2) by (auto simp: leaf_outcome_def outcome_callbacks_def status_kind_def split: outcome.splits)
  show "set (transitions before (cp_agenda c')) = set (transitions before (cp_agenda c)) \<union> cb_mark ` set (outcome_callbacks oc)"
  proof (rule set_eqI, clarify)
    fix p k
    show "(p, k) \<in> set (transitions before (cp_agenda c')) \<longleftrightarrow>
        (p, k) \<in> set (transitions before (cp_agenda c)) \<union> cb_mark ` set (outcome_callbacks oc)"
    proof (cases "p = st_path step")
      case True
      then show ?thesis using here [of k] s(2) b
        by (auto simp: leaf_outcome_def outcome_callbacks_def cb_mark_def status_kind_def split: outcome.splits)
    next
      case False
      then show ?thesis using other [OF False] s(2)
        by (auto simp: leaf_outcome_def outcome_callbacks_def cb_mark_def split: outcome.splits)
    qed
  qed
qed

text \<open>The whole tick: the campaign gains exactly the callbacks of its transitions, one per leaf.\<close>

lemma before_planned:
  assumes "narrows stored c" "(p, s) \<in> set (simulations (cp_agenda c))" "sim_status s = Planned" "wf_agenda (cp_agenda stored)"
  shows "map_of (statuses_before stored) p = Some Planned"
proof -
  obtain t where t: "(p, t) \<in> set (simulations (cp_agenda stored))" "sim_status t = Planned"
    using assms(1-3) by (fastforce simp: narrows_def)
  have d: "distinct (keys (statuses (cp_agenda stored)))"
    using simulations_distinct [OF assms(4)] by (simp add: statuses_def comp_def case_prod_beta)
  have "(p, Planned) \<in> set (statuses (cp_agenda stored))" using t by (force simp: statuses_def)
  then show ?thesis using map_of_dict_of_distinct [OF d] d by (simp add: statuses_before_def)
qed

lemma tick_callbacks:
  assumes wf: "wf_agenda (cp_agenda stored)" and tick: "tick en stored w = (Inr (r, c'), io)"
  obtains cbs where "cp_callbacks c' = cp_callbacks stored @ cbs" "r = compact_failures (r\<lparr>tr_callbacks := cbs\<rparr>)"
    "distinct (map cb_path cbs)" "cb_mark ` set cbs = set (transitions (statuses_before stored) (cp_agenda c'))"
  using wf tick
proof (cases rule: tick_cases)
  case refused
  then show thesis by simp
next
  case (ran steps c r0 c1 r1 n1 io1 out)
  let ?b = "statuses_before stored"
  let ?I = "\<lambda>_ c r _ _. cp_callbacks c = cp_callbacks stored @ tr_callbacks r \<and> distinct (map cb_path (tr_callbacks r)) \<and>
     cb_mark ` set (tr_callbacks r) = set (transitions ?b (cp_agenda c)) \<and> narrows stored c"
  from ran(1) obtain c0 reused emitted suspects where
    p: "plan en (with_created_ts (en_now_iso en w) stored) (tick_budget en stored) = Some (c0, steps, reused)" and
    e: "emit_callbacks c0 ?b (observe_failures en) (observe_suspects en) (en_now_iso en w) = (c, emitted, suspects)" and
    r0: "r0 = initial_result c emitted reused suspects"
    by (auto simp: starts_def)
  have wfc: "wf_agenda (cp_agenda c)" using starts_frame(4) [OF ran(1)] wf by blast
  have marks: "map cb_mark emitted = transitions ?b (cp_agenda c)" using emit_marks [OF e] .
  have "map fst (map cb_mark emitted) = map cb_path emitted" by (simp add: cb_mark_def)
  with marks transitions_distinct [OF wfc, of ?b] have "distinct (map cb_path emitted)" by simp
  moreover have "cb_mark ` set emitted = set (transitions ?b (cp_agenda c))" using marks by (metis set_map)
  ultimately have I0: "?I steps c r0 (count_in_flight (cp_agenda c)) (w, [Save c])"
    using plan_frame(4) [OF p] emit_frame(3) [OF e] starts_narrows [OF ran(1) wf] by (simp add: r0 initial_result_def)
  obtain c2 r2 n2 io2 where l: "run_loop en (tick_budget en stored) steps (c, r0, count_in_flight (cp_agenda c)) (w, [Save c])
      = (Inr (c2, r2, n2), io2)" and I: "?I [] c2 r2 n2 io2"
  proof (rule run_loop_rule [where I = ?I, OF starts_loop_inv(1) [OF ran(1) wf] I0])
    fix step rest c r n io c' r' n' io'
    assume a: "loop_inv (en_lib en) (step # rest) c" "?I (step # rest) c r n io"
      "run_step en (tick_budget en stored) step (c, r, n) io = (Inr (c', r', n'), io')" "touches (st_path step) c c'"
    obtain oc where oc: "step_outcome en (tick_budget en stored) step (c, r, n) (c', r', n') oc"
      using run_step_outcome [OF a(1,3)] .
    note tr = outcome_transitions [OF a(4,1) oc, of ?b]
    have pl: "map_of ?b p = Some Planned" if "(p, s) \<in> set (simulations (cp_agenda c))" "sim_status s = Planned" for p s
      using before_planned [OF _ that wf] a(2) by blast
    have paths: "fst ` set (transitions ?b (cp_agenda c)) = cb_path ` set (tr_callbacks r)"
      using a(2) by (metis (no_types, lifting) cb_mark_def fst_conv image_cong image_image)
    show "?I rest c' r' n' io'"
      using a(2) oc tr [OF pl] paths narrows_trans [OF _ touches_narrows [OF a(4)]]
      by (cases oc) (auto simp: step_outcome_def outcome_callbacks_def image_Un)
  qed
  with ran(2) have eq: "c1 = c2" "r1 = r2" by simp_all
  have out: "out = (r, c')" using ran(4) by simp
  have "c' = c1" "\<exists>x y u. r = compact_failures (r1\<lparr>tr_complete := x, tr_state := y, tr_usage := u\<rparr>)"
    using ran(3) by (auto simp: finish_tick_def Let_def out)
  then have c': "c' = c2" and r: "r = compact_failures (r\<lparr>tr_callbacks := tr_callbacks r2\<rparr>)"
    by (auto simp: eq compact_failures_def Let_def)
  show thesis using that [OF _ r] I by (simp add: c')
qed

end
