(* ===== verification/AgendaReport.thy ===== *)
theory AgendaReport
  imports AgendaTick
begin

text \<open>
  The two read-only views of a campaign in \<open>agenda/engine.py\<close>: \<open>AgendaEngine.status\<close>, the counts and
  the per-leaf view behind \<open>agenda_status\<close>, and \<open>campaign_report\<close>, its provenance record.
\<close>

definition json_truthy :: "json \<Rightarrow> bool" where
  "json_truthy v = (case v of JNull \<Rightarrow> False | JBool b \<Rightarrow> b | JInt i \<Rightarrow> i \<noteq> 0 | JFloat f \<Rightarrow> f \<noteq> Fin 0
     | JStr s \<Rightarrow> s \<noteq> [] | JList vs \<Rightarrow> vs \<noteq> [] | JObj kvs \<Rightarrow> kvs \<noteq> [])"

definition is_deferred :: "agenda_sim \<Rightarrow> bool" where
  "is_deferred s \<longleftrightarrow> sim_status s = Planned \<and> sim_deferred_attempts s > 0"

record leaf_view =
  lv_path :: string
  lv_status :: status
  lv_sim_id :: "string option"
  lv_run_id :: "string option"
  lv_reused :: bool
  lv_point :: "point option"
  lv_sweep_parameter :: "string option"
  lv_requires_approval :: bool
  lv_approved :: bool
  lv_error :: "string option"
  lv_error_code :: "string option"
  lv_stage :: "string option"
  lv_deferred :: bool
  lv_deferred_attempts :: int
  lv_deferred_since :: "string option"
  lv_suspect :: "string option"

record campaign_status =
  cs_name :: string
  cs_state :: campaign_state
  cs_complete :: bool
  cs_counts :: "(status \<times> int) list"
  cs_usage :: budget_usage
  cs_leaves :: "leaf_view list"
  cs_deferred :: "string list"
  cs_suspects :: "(string \<times> string) list"
  cs_suspect_count :: int

definition leaf_warning :: "(string \<times> suspect_info) list \<Rightarrow> agenda_sim \<Rightarrow> string option" where
  "leaf_warning observed s = (case (case sim_id s of None \<Rightarrow> None | Some i \<Rightarrow> map_of observed i) of
     Some i \<Rightarrow> Some (su_warning i) | None \<Rightarrow> sim_suspect s)"

definition view_leaf :: "(string \<times> suspect_info) list \<Rightarrow> string \<Rightarrow> agenda_sim \<Rightarrow> leaf_view" where
  "view_leaf observed path s = \<lparr>lv_path = path, lv_status = sim_status s, lv_sim_id = sim_id s,
     lv_run_id = sim_run_id s, lv_reused = sim_reused s, lv_point = sim_point s,
     lv_sweep_parameter = sim_sweep_parameter s, lv_requires_approval = sim_requires_approval s,
     lv_approved = sim_approved s, lv_error = sim_error s, lv_error_code = sim_error_code s,
     lv_stage = sim_stage s, lv_deferred = is_deferred s, lv_deferred_attempts = sim_deferred_attempts s,
     lv_deferred_since = sim_deferred_since s,
     lv_suspect = if sim_status s = Done then leaf_warning observed s else None\<rparr>"

text \<open>One iteration of the loop of \<open>status\<close>: the counts and the two lists.\<close>

type_synonym tally = "(status \<times> int) list \<times> string list \<times> (string \<times> string) list"

definition tally_leaf :: "(string \<times> suspect_info) list \<Rightarrow> string \<times> agenda_sim \<Rightarrow> tally \<Rightarrow> tally" where
  "tally_leaf observed x t = (case (x, t) of ((path, s), (counts, deferred, suspects)) \<Rightarrow>
     (AList.update (sim_status s) (get_or counts (sim_status s) 0 + 1) counts,
      if is_deferred s then deferred @ [path] else deferred,
      if sim_status s = Done \<and> truthy (leaf_warning observed s)
        then AList.update path (the (leaf_warning observed s)) suspects else suspects))"

definition zero_counts :: "(status \<times> int) list" where
  "zero_counts = [(Planned, 0), (Submitted, 0), (Running, 0), (Done, 0), (Failed, 0)]"

definition engine_status :: "'w engine \<Rightarrow> campaign \<Rightarrow> campaign_status" where
  "engine_status en c =
     (let observed = observe_suspects en;
          (counts, deferred, suspects) = fold (tally_leaf observed) (simulations (cp_agenda c)) (zero_counts, [], [])
      in \<lparr>cs_name = cp_name c, cs_state = cp_state c, cs_complete = is_complete (cp_agenda c), cs_counts = counts,
          cs_usage = cp_usage c, cs_leaves = map (\<lambda>(p, s). view_leaf observed p s) (simulations (cp_agenda c)),
          cs_deferred = deferred, cs_suspects = suspects, cs_suspect_count = int (length suspects)\<rparr>)"

section \<open>The provenance record\<close>

text \<open>\<open>_revision\<close>: the one revision all the leaves that carry one agree on.\<close>

definition leaf_revision :: "library \<Rightarrow> spec \<Rightarrow> string option" where
  "leaf_revision lib sp = (case map_of sp ''provenance'' of
     Some (JObj pr) \<Rightarrow> (case map_of pr ''picongpu_revision'' of
         Some v \<Rightarrow> if json_truthy v then Some (lb_str lib v) else None
       | None \<Rightarrow> None)
   | _ \<Rightarrow> None)"

definition revision :: "library \<Rightarrow> campaign \<Rightarrow> string option" where
  "revision lib c =
     (let revs = remdups (concat (map (\<lambda>(p, s). case leaf_revision lib (sim_spec s) of None \<Rightarrow> [] | Some r \<Rightarrow> [r])
            (simulations (cp_agenda c))))
      in case revs of [r] \<Rightarrow> Some r | _ \<Rightarrow> None)"

record leaf_report =
  lr_path :: string
  lr_sim_id :: "string option"
  lr_run_id :: "string option"
  lr_reused :: bool
  lr_status :: status
  lr_point :: "point option"
  lr_sweep_parameter :: "string option"
  lr_spec_hash :: string
  lr_error :: "string option"
  lr_error_code :: "string option"
  lr_stage :: "string option"
  lr_deferred :: bool
  lr_deferred_attempts :: int
  lr_deferred_since :: "string option"
  lr_suspect :: "string option"
  lr_estimated_core_hours :: pyfloat
  lr_actual_core_hours :: "pyfloat option"
  lr_actual_gpu_hours :: "pyfloat option"

record campaign_record =
  cr_name :: string
  cr_created_ts :: "string option"
  cr_complete :: bool
  cr_revision :: "string option"
  cr_conclusion :: "string option"
  cr_usage :: budget_usage
  cr_leaves :: "leaf_report list"

definition report_leaf :: "library \<Rightarrow> string \<Rightarrow> agenda_sim \<Rightarrow> leaf_report" where
  "report_leaf lib path s = \<lparr>lr_path = path, lr_sim_id = sim_id s, lr_run_id = sim_run_id s,
     lr_reused = sim_reused s, lr_status = sim_status s, lr_point = sim_point s,
     lr_sweep_parameter = sim_sweep_parameter s, lr_spec_hash = spec_hash lib (sim_spec s),
     lr_error = sim_error s, lr_error_code = sim_error_code s, lr_stage = sim_stage s,
     lr_deferred = is_deferred s, lr_deferred_attempts = sim_deferred_attempts s,
     lr_deferred_since = sim_deferred_since s,
     lr_suspect = if sim_status s = Done then sim_suspect s else None,
     lr_estimated_core_hours = sim_estimated_core_hours s, lr_actual_core_hours = sim_actual_core_hours s,
     lr_actual_gpu_hours = sim_actual_gpu_hours s\<rparr>"

definition campaign_report :: "library \<Rightarrow> campaign \<Rightarrow> campaign_record" where
  "campaign_report lib c = \<lparr>cr_name = cp_name c, cr_created_ts = cp_created_ts c,
     cr_complete = is_complete (cp_agenda c), cr_revision = revision lib c, cr_conclusion = cp_conclusion c,
     cr_usage = cp_usage c, cr_leaves = map (\<lambda>(p, s). report_leaf lib p s) (simulations (cp_agenda c))\<rparr>"

section \<open>Facts on the views\<close>

definition count_of :: "status \<Rightarrow> (string \<times> agenda_sim) list \<Rightarrow> int" where
  "count_of st leaves = int (length (filter (\<lambda>(p, s). sim_status s = st) leaves))"

lemma tally_counts:
  "get_or (fst (fold (tally_leaf obs) leaves (counts, d, su))) st 0 = get_or counts st 0 + count_of st leaves"
proof (induction leaves arbitrary: counts d su)
  case (Cons x leaves)
  obtain p s where x: "x = (p, s)" by (cases x)
  obtain c1 d1 s1 where t: "tally_leaf obs x (counts, d, su) = (c1, d1, s1)" by (rule prod_cases3)
  then have "c1 = AList.update (sim_status s) (get_or counts (sim_status s) 0 + 1) counts"
    by (auto simp: tally_leaf_def x)
  then have "get_or c1 st 0 = get_or counts st 0 + (if sim_status s = st then 1 else 0)"
    by (auto simp: get_or_def)
  with Cons [of c1 d1 s1] t show ?case by (simp add: count_of_def x)
qed (simp add: count_of_def)

lemma tally_deferred:
  "fst (snd (fold (tally_leaf obs) leaves (counts, d, su))) = d @ map fst (filter (\<lambda>(p, s). is_deferred s) leaves)"
proof (induction leaves arbitrary: counts d su)
  case (Cons x leaves)
  obtain p s where x: "x = (p, s)" by (cases x)
  obtain c1 d1 s1 where t: "tally_leaf obs x (counts, d, su) = (c1, d1, s1)" by (rule prod_cases3)
  then have "d1 = (if is_deferred s then d @ [p] else d)" by (auto simp: tally_leaf_def x)
  with Cons [of c1 d1 s1] t show ?case by (simp add: x)
qed simp

lemma status_counts:
  "get_or (cs_counts (engine_status en c)) st 0 = count_of st (simulations (cp_agenda c))"
  using tally_counts [of "observe_suspects en" "simulations (cp_agenda c)" zero_counts "[]" "[]" st]
  by (cases st) (auto simp: engine_status_def Let_def zero_counts_def get_or_def split: prod.splits)

lemma count_of_sum:
  "int (length leaves) = count_of Planned leaves + count_of Submitted leaves + count_of Running leaves
     + count_of Done leaves + count_of Failed leaves"
proof (induction leaves)
  case (Cons x leaves)
  obtain p s where "x = (p, s)" by (cases x)
  with Cons show ?case by (cases "sim_status s") (simp_all add: count_of_def)
qed (simp add: count_of_def)

lemma count_of_zero: "count_of st leaves = 0 \<longleftrightarrow> (\<forall>(p, s) \<in> set leaves. sim_status s \<noteq> st)"
  by (auto simp: count_of_def filter_empty_conv)

lemma is_complete_iff:
  "is_complete g \<longleftrightarrow> count_of Planned (simulations g) = 0 \<and> count_of Submitted (simulations g) = 0
     \<and> count_of Running (simulations g) = 0"
  by (auto simp: is_complete_def list_all_iff count_of_zero)

lemma revision_sound:
  "revision lib c = Some r \<Longrightarrow> (p, s) \<in> set (simulations (cp_agenda c)) \<Longrightarrow> leaf_revision lib (sim_spec s) = Some q \<Longrightarrow> q = r"
proof -
  let ?xs = "concat (map (\<lambda>(p, s). case leaf_revision lib (sim_spec s) of None \<Rightarrow> [] | Some r \<Rightarrow> [r]) (simulations (cp_agenda c)))"
  assume r: "revision lib c = Some r" and q: "(p, s) \<in> set (simulations (cp_agenda c))" "leaf_revision lib (sim_spec s) = Some q"
  from q have "q \<in> set ?xs" by force
  moreover from r have "remdups ?xs = [r]"
    by (auto simp: revision_def Let_def split: list.splits)
  ultimately show "q = r" by (metis empty_iff empty_set insertE list.set(2) set_remdups)
qed

end
