(* ===== verification/AgendaGrow.thy ===== *)
theory AgendaGrow
  imports AgendaTree
begin

text \<open>
  What \<open>AgendaGroup.add\<close>, \<open>add_sim\<close> and \<open>expand\<close> of \<open>agenda/model.py\<close> promise: they never replace an
  entry, they keep the agenda well formed, and a sweep adds exactly one planned leaf per value. Also
  the label that \<open>readable_label\<close> writes.
\<close>

section \<open>Adding entries\<close>

fun wf_entry :: "agenda_entry \<Rightarrow> bool" where
  "wf_entry (ESim s) = True"
| "wf_entry (EGroup (AgendaGroup n es sw ds)) = wf_entries es"

lemma wf_entries_snoc:
  "wf_entries (es @ [(name, e)]) \<longleftrightarrow> wf_entries es \<and> legal_name name \<and> name \<notin> set (keys es) \<and> wf_entry e"
proof (induction es rule: wf_entries.induct)
  case 1
  then show ?case by (cases "([(name, e)] :: entries)" rule: wf_entries.cases) auto
qed auto

lemma update_fresh: "\<not> has_key name es \<Longrightarrow> AList.update name e es = es @ [(name, e)]"
  by (induction es) (auto simp: has_key_def split: if_splits)

definition arg_ok :: "(bool \<Rightarrow> spec \<Rightarrow> agenda_entry option) \<Rightarrow> string \<times> add_arg \<Rightarrow> bool" where
  "arg_ok pv x = (case x of (name, arg) \<Rightarrow> (case coerce_entry pv name arg of Inl e \<Rightarrow> True | Inr e \<Rightarrow> wf_entry e))"

lemma add_entries_Inr:
  "add_entries pv es args = Inr es' \<Longrightarrow>
   \<exists>new. es' = es @ new \<and> keys new = map fst args \<and> distinct (map fst args) \<and>
     set (map fst args) \<inter> set (keys es) = {} \<and> (\<forall>n \<in> set (map fst args). legal_name n)"
proof (induction pv es args arbitrary: es' rule: add_entries.induct)
  case (2 pv es name arg args)
  then obtain entry where legal: "validate_entry_name name = None" "\<not> has_key name es"
    and entry: "coerce_entry pv name arg = Inr entry"
    and rest: "add_entries pv (AList.update name entry es) args = Inr es'"
    by (auto simp: bind_res_Inr_iff split: option.splits if_splits)
  from "2.IH" [OF legal rest] legal obtain new where
    new: "es' = es @ (name, entry) # new" "keys new = map fst args" "distinct (map fst args)"
    "set (map fst args) \<inter> insert name (set (keys es)) = {}" "\<forall>n \<in> set (map fst args). legal_name n"
    by (auto simp: update_fresh)
  then show ?case using legal
    by (intro exI [of _ "(name, entry) # new"]) (auto simp: legal_name_def has_key_iff)
qed simp

lemma add_entries_wf:
  "add_entries pv es args = Inr es' \<Longrightarrow> wf_entries es \<Longrightarrow> list_all (arg_ok pv) args \<Longrightarrow> wf_entries es'"
proof (induction pv es args arbitrary: es' rule: add_entries.induct)
  case (2 pv es name arg args)
  then obtain entry where legal: "validate_entry_name name = None" "\<not> has_key name es"
    and entry: "coerce_entry pv name arg = Inr entry"
    and rest: "add_entries pv (AList.update name entry es) args = Inr es'"
    by (auto simp: bind_res_Inr_iff split: option.splits if_splits)
  have "wf_entry entry" using "2.prems"(3) entry by (simp add: arg_ok_def)
  with legal "2.prems" have "wf_entries (AList.update name entry es)"
    by (simp add: update_fresh wf_entries_snoc legal_name_def has_key_iff)
  with "2.IH" [OF legal rest] "2.prems"(3) show ?case by simp
qed simp

lemma group_add_wf:
  "group_add pv g args = Inr g' \<Longrightarrow> wf_agenda g \<Longrightarrow> list_all (arg_ok pv) args \<Longrightarrow> wf_agenda g'"
  by (auto simp: group_add_def wf_agenda_def bind_res_Inr_iff intro: add_entries_wf)

lemma walk_leaves_append: "walk_leaves (es @ fs) prefix = walk_leaves es prefix @ walk_leaves fs prefix"
  by (induction es prefix rule: walk_leaves.induct) auto

text \<open>No existing leaf is lost or changed by \<open>add\<close>.\<close>

lemma group_add_leaves:
  "group_add pv g args = Inr g' \<Longrightarrow> \<exists>new. simulations g' = simulations g @ new"
  by (auto simp: group_add_def simulations_def bind_res_Inr_iff walk_leaves_append dest!: add_entries_Inr)

section \<open>Expanding a sweep\<close>

definition sweep_leaf :: "(pyfloat \<Rightarrow> string) \<Rightarrow> agenda_sweep \<Rightarrow> (point \<Rightarrow> spec) \<Rightarrow> string \<Rightarrow> scalar \<Rightarrow> agenda_sim" where
  "sweep_leaf frepr sw syn base v = new_sim (base @ ''__'' @ sweep_label frepr sw v)
     (syn (sweep_assignment sw v)) (Some (sweep_assignment sw v)) (readable_label (sw_parameter sw))"

lemma new_sim_name [simp]: "sim_name (new_sim n sp pt pm) = n"
  by (simp add: new_sim_def)

lemma expand_values_Inr:
  "expand_values frepr sw syn base es vs = Inr es' \<Longrightarrow>
   es' = es @ map (\<lambda>v. (sim_name (sweep_leaf frepr sw syn base v), ESim (sweep_leaf frepr sw syn base v))) vs \<and>
   (wf_entries es \<longrightarrow> wf_entries es')"
proof (induction frepr sw syn base es vs arbitrary: es' rule: expand_values.induct)
  case (2 frepr sw syn base es v vs)
  let ?s = "sweep_leaf frepr sw syn base v"
  let ?n = "base @ ''__'' @ sweep_label frepr sw v"
  from "2.prems" have legal: "validate_entry_name ?n = None" "\<not> has_key ?n es" "check_sim ?s = None"
    and rest: "expand_values frepr sw syn base (AList.update ?n (ESim ?s) es) vs = Inr es'"
    by (auto simp: Let_def sweep_leaf_def split: option.splits if_splits)
  have n: "sim_name ?s = ?n" by (simp add: sweep_leaf_def)
  have "es' = AList.update ?n (ESim ?s) es @ map (\<lambda>v. (sim_name (sweep_leaf frepr sw syn base v), ESim (sweep_leaf frepr sw syn base v))) vs \<and>
      (wf_entries (AList.update ?n (ESim ?s) es) \<longrightarrow> wf_entries es')"
    by (rule "2.IH" [OF refl refl legal(1,2) refl, folded sweep_leaf_def, OF legal(3) rest])
  then show ?case using legal(1,2) n
    by (auto simp: update_fresh wf_entries_snoc legal_name_def has_key_iff)
qed simp

lemma walk_leaves_sims:
  "walk_leaves (map (\<lambda>v. (sim_name (f v), ESim (f v))) vs) prefix = map (\<lambda>v. (child_path prefix (sim_name (f v)), f v)) vs"
  by (induction vs) auto

text \<open>A sweep adds one planned leaf per value, in the order of the values, after the leaves there were.\<close>

lemma group_expand_leaves:
  assumes "group_expand frepr g sw syn base_name = Inr g'"
  shows "simulations g' = simulations g @ map (\<lambda>v. let s = sweep_leaf frepr sw syn
       (if truthy base_name then the base_name else grp_name g) v in (sim_name s, s)) (sw_values sw)"
    "wf_agenda g \<Longrightarrow> wf_agenda g'"
proof -
  let ?b = "if truthy base_name then the base_name else grp_name g"
  from assms obtain es where es: "expand_values frepr sw syn ?b (grp_entries g) (sw_values sw) = Inr es"
    "g' = with_entries g es"
    by (auto simp: group_expand_def Let_def bind_res_Inr_iff split: option.splits)
  from expand_values_Inr [OF es(1)] es(2)
  show "simulations g' = simulations g @ map (\<lambda>v. let s = sweep_leaf frepr sw syn ?b v in (sim_name s, s)) (sw_values sw)"
    by (auto simp: simulations_def walk_leaves_append walk_leaves_sims child_path_def Let_def simp del: if_split)
  have "wf_entries (grp_entries g) \<longrightarrow> wf_entries es" by (rule expand_values_Inr [OF es(1), THEN conjunct2])
  then show "wf_agenda g \<Longrightarrow> wf_agenda g'" by (simp add: wf_agenda_def es(2))
qed

section \<open>Readable labels\<close>

definition clean_char :: "char \<Rightarrow> bool" where
  "clean_char c \<longleftrightarrow> c = CHR '' '' \<or> \<not> control_or_ws c"

lemma collapse_clean: "c \<in> set (collapse_runs b s) \<Longrightarrow> clean_char c"
  by (induction b s rule: collapse_runs.induct) (auto simp: clean_char_def split: if_splits)

lemma strip_subset: "set (strip_spaces s) \<subseteq> set s"
  unfolding strip_spaces_def by (auto dest!: set_dropWhileD)

lemma last_dropWhile: "dropWhile P xs \<noteq> [] \<Longrightarrow> last (dropWhile P xs) = last xs"
  by (induction xs) (auto split: if_splits)

lemma strip_ends:
  assumes "strip_spaces s \<noteq> []"
  shows "hd (strip_spaces s) \<noteq> CHR '' ''" "last (strip_spaces s) \<noteq> CHR '' ''"
proof -
  let ?P = "\<lambda>c. c = CHR '' ''"
  let ?t = "dropWhile ?P s"
  let ?u = "dropWhile ?P (rev ?t)"
  have s: "strip_spaces s = rev ?u" by (simp add: strip_spaces_def)
  have u: "?u \<noteq> []" using assms unfolding s rev_is_Nil_conv .
  have t: "?t \<noteq> []"
  proof
    assume "?t = []"
    then have "?u = []" by (simp only: rev.simps dropWhile.simps)
    with u show False by (rule notE)
  qed
  have "last (strip_spaces s) = hd ?u" by (simp only: s last_rev)
  then show "last (strip_spaces s) \<noteq> CHR '' ''" using hd_dropWhile [OF u] by (simp only: not_False_eq_True)
  have "hd (strip_spaces s) = last ?u" by (simp only: s hd_rev)
  also have "\<dots> = last (rev ?t)" by (rule last_dropWhile [OF u])
  also have "\<dots> = hd ?t" by (simp only: last_rev)
  finally show "hd (strip_spaces s) \<noteq> CHR '' ''" using hd_dropWhile [OF t] by (simp only: not_False_eq_True)
qed

lemma readable_label_clean:
  "readable_label t = Some l \<Longrightarrow> l \<noteq> [] \<and> (\<forall>c \<in> set l. clean_char c) \<and> hd l \<noteq> CHR '' '' \<and> last l \<noteq> CHR '' ''"
  using strip_subset [of "collapse_runs False t"] strip_ends [of "collapse_runs False t"]
  by (auto simp: readable_label_def Let_def dest: collapse_clean split: if_splits)

end
