(* ===== verification/Samples.thy ===== *)
theory Samples
  imports AgendaReport AgendaGrow
begin

text \<open>
  A concrete campaign, engine and library on which the properties of the root theory are instantiated.
  The sample hash is the identity, so that it collides on nothing.
\<close>

definition sample_pydantic :: pydantic where
  "sample_pydantic = \<lparr>pd_float = (\<lambda>j. case j of JInt i \<Rightarrow> Some (Fin (of_int i)) | JFloat f \<Rightarrow> Some f | _ \<Rightarrow> None),
     pd_opt_str = (\<lambda>j. case j of JNull \<Rightarrow> Some None | JStr s \<Rightarrow> Some (Some s) | _ \<Rightarrow> None),
     pd_bool = (\<lambda>j. case j of JBool b \<Rightarrow> Some b | _ \<Rightarrow> None)\<rparr>"
definition sample_lib :: library where
  "sample_lib = \<lparr>lb_sha = (\<lambda>t. t), lb_frepr = (\<lambda>f. ''0.0''), lb_fmt0 = (\<lambda>f. ''0''), lb_fmtg = (\<lambda>f. ''0''),
     lb_strftime = (\<lambda>t. show_int (t div 1000000)), lb_strptime = (\<lambda>s. Some 0), lb_pydantic = sample_pydantic,
     lb_invalid = (\<lambda>s. ''invalid''), lb_str = (\<lambda>j. ''revision'')\<rparr>"
definition sample_campaign :: campaign where
  "sample_campaign = \<lparr>cp_name = ''c'', cp_agenda = AgendaGroup ''root''
       [(''a'', ESim (new_sim ''a'' [(''sim'', JInt 1)] None None)),
        (''b'', ESim ((new_sim ''b'' [(''sim'', JInt 2)] None None)\<lparr>sim_depends_on := [''a'']\<rparr>))] None [],
     cp_budget = no_budget\<lparr>bg_max_concurrent_jobs := Some 1\<rparr>, cp_usage = no_usage, cp_created_ts = None,
     cp_callbacks = [], cp_state = CRunning, cp_analyses = [], cp_conclusion = None\<rparr>"
definition sample_engine :: "nat engine" where
  "sample_engine = \<lparr>en_budget = None, en_submit = (\<lambda>w sp key. (SubmitOk (''s'' @ show_nat w), w + 1)),
     en_observe = [], en_policy = default_policy, en_approve = None, en_actuals = NotInjected,
     en_failures = NotInjected, en_suspects = NotInjected, en_reuse_lookup = None, en_reuse_record = False,
     en_reuse_key = None, en_clock = (\<lambda>w. 0), en_now_iso = (\<lambda>w. ''t''), en_lib = sample_lib\<rparr>"

text \<open>Two records of the reuse registry: one completed, one pending on run \<open>r2\<close>.\<close>

definition sample_record :: "string \<Rightarrow> string \<Rightarrow> string \<Rightarrow> reuse_record" where
  "sample_record h st rid = \<lparr>ru_wire_hash = h, ru_sim_id = ''s'', ru_state = st, ru_run_dir = None, ru_ts = None,
     ru_run_id = Some rid, ru_pending_run_ids = []\<rparr>"

definition sample_registry :: registry where
  "sample_registry = [(''h1'', sample_record ''h1'' ''done'' ''r1''), (''h2'', sample_record ''h2'' ''pending'' ''r2'')]"

lemma sample_wf: "wf_agenda (cp_agenda sample_campaign)"
  by code_simp

lemma sample_leaves:
  "map fst (simulations (cp_agenda sample_campaign)) = [''a'', ''b'']"
  by code_simp

end
