(* ===== verification/RcpWire.thy ===== *)
theory RcpWire
  imports Json
begin

text \<open>
  The wire form of \<open>rcp/envelope.py\<close> and the signing primitives of \<open>rcp/crypto.py\<close>. A Matrix homeserver
  rejects floats, so \<open>encode_wire\<close> tags every float as \<open>{"$rcp_float": repr}\<close> and escapes user keys that
  collide with the reserved prefix. The theory proves what the module docstring claims: the encoding is
  float free and a bijection, and a signature over the encoded form covers exactly the payload.
\<close>

section \<open>Keys\<close>

definition escape_prefix :: string where
  "escape_prefix = ''$rcp_''"

definition float_tag :: string where
  "float_tag = ''$rcp_float''"

definition encode_key :: "string \<Rightarrow> string" where
  "encode_key k = (if starts_with escape_prefix k then escape_prefix @ k else k)"

definition decode_key :: "string \<Rightarrow> string" where
  "decode_key k = (if starts_with (escape_prefix @ escape_prefix) k then drop (length escape_prefix) k else k)"

lemma decode_encode_key [simp]: "decode_key (encode_key k) = k"
  by (auto simp: decode_key_def encode_key_def starts_with_iff)

lemma encode_key_inj: "inj encode_key"
  by (rule inj_on_inverseI [where g = decode_key]) simp

lemma encode_key_eq [simp]: "encode_key k = encode_key l \<longleftrightarrow> k = l"
  using encode_key_inj by (auto dest: injD)

lemma encode_key_not_tag: "encode_key k \<noteq> float_tag"
proof (cases "starts_with escape_prefix k")
  case True
  then show ?thesis by (auto simp: encode_key_def escape_prefix_def float_tag_def starts_with_iff)
next
  case False
  have "starts_with escape_prefix float_tag" by (simp add: escape_prefix_def float_tag_def)
  with False show ?thesis by (auto simp: encode_key_def)
qed

section \<open>Values\<close>

text \<open>\<open>frepr\<close> is \<open>repr\<close> of a float and \<open>fparse\<close> is \<open>float(text)\<close>, \<open>None\<close> for a \<open>ValueError\<close>.\<close>

fun encode_wire :: "(pyfloat \<Rightarrow> string) \<Rightarrow> json \<Rightarrow> json" where
  "encode_wire frepr (JFloat f) = JObj [(float_tag, JStr (frepr f))]"
| "encode_wire frepr (JObj kvs) = JObj (dict_of (map (\<lambda>(k, v). (encode_key k, encode_wire frepr v)) kvs))"
| "encode_wire frepr (JList vs) = JList (map (encode_wire frepr) vs)"
| "encode_wire frepr v = v"

text \<open>A mapping that is a tagged float: \<open>set(value) == {FLOAT_TAG}\<close> with a string under it.\<close>

definition tagged_float :: "(string \<times> json) list \<Rightarrow> string option" where
  "tagged_float kvs = (case kvs of [(k, JStr s)] \<Rightarrow> if k = float_tag then Some s else None | _ \<Rightarrow> None)"

fun all_some :: "'a option list \<Rightarrow> 'a list option" where
  "all_some [] = Some []"
| "all_some (None # xs) = None"
| "all_some (Some x # xs) = map_option ((#) x) (all_some xs)"

lemma all_some_map_Some [simp]: "all_some (map (\<lambda>x. Some (f x)) xs) = Some (map f xs)"
  by (induction xs) auto

lemma all_some_cong: "(\<And>x. x \<in> set xs \<Longrightarrow> f x = Some (g x)) \<Longrightarrow> all_some (map f xs) = Some (map g xs)"
  by (induction xs) auto

fun decode_wire :: "(string \<Rightarrow> pyfloat option) \<Rightarrow> json \<Rightarrow> json option" where
  "decode_wire fparse (JObj kvs) =
     (case tagged_float kvs of
        Some s \<Rightarrow> map_option JFloat (fparse s)
      | None \<Rightarrow> map_option (\<lambda>xs. JObj (dict_of xs))
          (all_some (map (\<lambda>(k, v). map_option (Pair (decode_key k)) (decode_wire fparse v)) kvs)))"
| "decode_wire fparse (JList vs) = map_option JList (all_some (map (decode_wire fparse) vs))"
| "decode_wire fparse v = Some v"

lemma update_append: "k \<notin> set (keys d) \<Longrightarrow> AList.update k v d = d @ [(k, v)]"
  by (induction d) auto

lemma fold_update_distinct:
  "distinct (keys (d @ ps)) \<Longrightarrow> fold (\<lambda>(k, v) d. AList.update k v d) ps d = d @ ps"
proof (induction ps arbitrary: d)
  case (Cons p ps)
  obtain k v where p: "p = (k, v)" by (cases p)
  from Cons.prems p have "k \<notin> set (keys d)" by auto
  with Cons.IH [of "d @ [(k, v)]"] Cons.prems p show ?case by (simp add: update_append)
qed simp

lemma dict_of_id: "distinct (keys ps) \<Longrightarrow> dict_of ps = ps"
  using fold_update_distinct [of "[]" ps] by (simp add: dict_of_def)

lemma keys_encode: "keys (map (\<lambda>(k, v). (encode_key k, f v)) kvs) = map encode_key (keys kvs)"
  by (simp add: comp_def case_prod_beta)

lemma distinct_encode:
  assumes "distinct (keys kvs)" shows "distinct (keys (map (\<lambda>(k, v). (encode_key k, f v)) kvs))"
proof -
  have "inj_on encode_key (set (keys kvs))" by (rule inj_onI) simp
  with assms show ?thesis unfolding keys_encode by (simp only: distinct_map simp_thms)
qed

lemma encode_obj:
  assumes "distinct (keys kvs)"
  shows "encode_wire frepr (JObj kvs) = JObj (map (\<lambda>(k, v). (encode_key k, encode_wire frepr v)) kvs)"
  by (simp only: encode_wire.simps dict_of_id [OF distinct_encode [OF assms]])

section \<open>Round trip\<close>

theorem decode_encode_wire:
  assumes "\<And>f. fparse (frepr f) = Some f" and "wf_json v"
  shows "decode_wire fparse (encode_wire frepr v) = Some v"
  using assms(2)
proof (induction v)
  case (JFloat f)
  then show ?case by (simp add: tagged_float_def assms(1))
next
  case (JList vs)
  have "all_some (map (\<lambda>v. decode_wire fparse (encode_wire frepr v)) vs) = Some (map (\<lambda>v. v) vs)"
    using JList by (intro all_some_cong) (auto simp: list_all_iff)
  then show ?case by (simp add: comp_def)
next
  case (JObj kvs)
  let ?es = "map (\<lambda>(k, v). (encode_key k, encode_wire frepr v)) kvs"
  have d: "distinct (keys kvs)" using JObj.prems by simp
  have "tagged_float ?es = None"
    using encode_key_not_tag by (auto simp: tagged_float_def split: list.splits json.splits)
  moreover have "all_some (map (\<lambda>(k, v). map_option (Pair (decode_key k)) (decode_wire fparse v)) ?es) = Some kvs"
  proof -
    have "all_some (map (\<lambda>x. map_option (Pair (decode_key (encode_key (fst x)))) (decode_wire fparse (encode_wire frepr (snd x)))) kvs)
        = Some (map (\<lambda>x. x) kvs)"
      using JObj by (intro all_some_cong) (fastforce simp: list_all_iff)
    then show ?thesis by (simp add: comp_def case_prod_beta)
  qed
  ultimately show ?case using d unfolding encode_obj [OF d] by (simp add: dict_of_id)
qed simp_all

lemma float_free_encode: "wf_json v \<Longrightarrow> float_free (encode_wire frepr v)"
proof (induction v)
  case (JObj kvs)
  have d: "distinct (keys kvs)" using JObj.prems by simp
  show ?case unfolding encode_obj [OF d] using JObj by (fastforce simp: list_all_iff)
qed (auto simp: list_all_iff)

lemma wf_encode: "wf_json v \<Longrightarrow> wf_json (encode_wire frepr v)"
proof (induction v)
  case (JObj kvs)
  have d: "distinct (keys kvs)" using JObj.prems by simp
  have "list_all (\<lambda>(k, v). wf_json v) (map (\<lambda>(k, v). (encode_key k, encode_wire frepr v)) kvs)"
    using JObj by (fastforce simp: list_all_iff)
  with distinct_encode [OF d] show ?case unfolding encode_obj [OF d] wf_json.simps by (intro conjI)
qed (auto simp: list_all_iff)

section \<open>The encoded form determines the value\<close>

lemma map_of_map_snd: "map_of (map (\<lambda>(k, v). (k, f v)) xs) k = map_option f (map_of xs k)"
  by (induction xs) auto

lemma distinct_fst: "distinct (map fst xs) \<Longrightarrow> distinct xs"
  by (simp only: distinct_map)

lemma json_eq_obj:
  assumes "distinct (keys a)" "distinct (keys b)"
  shows "json_eq (JObj a) (JObj b) \<longleftrightarrow> (\<forall>k. rel_option json_eq (map_of a k) (map_of b k))"
proof -
  let ?f = "\<lambda>(k, v). (k, sort_json v)"
  have keys: "keys (map ?f xs) = keys xs" for xs :: "(string \<times> json) list" by auto
  have da: "distinct (keys (map ?f a))" and db: "distinct (keys (map ?f b))" using assms by (simp_all only: keys)
  have "json_eq (JObj a) (JObj b) \<longleftrightarrow> sort_key fst (map ?f a) = sort_key fst (map ?f b)"
    by (simp add: json_eq_def)
  also have "\<dots> \<longleftrightarrow> mset (map ?f a) = mset (map ?f b)"
  proof
    assume "sort_key fst (map ?f a) = sort_key fst (map ?f b)"
    then have "mset (sort_key fst (map ?f a)) = mset (sort_key fst (map ?f b))" by (rule arg_cong)
    then show "mset (map ?f a) = mset (map ?f b)" by (simp only: mset_sort)
  qed (rule sort_key_mset_eq [OF _ da])
  also have "\<dots> \<longleftrightarrow> set (map ?f a) = set (map ?f b)"
    by (rule set_eq_iff_mset_eq_distinct [OF distinct_fst [OF da] distinct_fst [OF db], symmetric])
  also have "\<dots> \<longleftrightarrow> map_of (map ?f a) = map_of (map ?f b)"
    by (rule map_of_inject_set [OF da db, symmetric])
  also have "\<dots> \<longleftrightarrow> (\<forall>k. map_option sort_json (map_of a k) = map_option sort_json (map_of b k))"
    by (simp add: fun_eq_iff map_of_map_snd)
  also have "\<dots> \<longleftrightarrow> (\<forall>k. rel_option json_eq (map_of a k) (map_of b k))"
    by (rule iff_allI, case_tac "map_of a k"; case_tac "map_of b k") (auto simp: json_eq_def)
  finally show ?thesis .
qed

lemma map_of_encode:
  "map_of (map (\<lambda>(k, v). (encode_key k, f v)) kvs) j
   = (if j \<in> range encode_key then map_option f (map_of kvs (decode_key j)) else None)"
  by (induction kvs) (auto split: if_splits)

lemma json_eq_kinds: "json_eq v w \<Longrightarrow> (\<exists>kvs. v = JObj kvs) \<longleftrightarrow> (\<exists>kvs. w = JObj kvs)"
  by (cases v; cases w) (auto simp: json_eq_def)

lemma json_eq_list: "json_eq (JList vs) (JList ws) \<longleftrightarrow> list_all2 json_eq vs ws"
  by (auto simp: json_eq_def list_all2_conv_all_nth list_eq_iff_nth_eq)

lemma tagged_not_obj:
  assumes "distinct (keys kvs)" shows "\<not> json_eq (JObj [(float_tag, JStr s)]) (encode_wire frepr (JObj kvs))"
proof
  let ?es = "map (\<lambda>(k, v). (encode_key k, encode_wire frepr v)) kvs"
  assume "json_eq (JObj [(float_tag, JStr s)]) (encode_wire frepr (JObj kvs))"
  then have "json_eq (JObj [(float_tag, JStr s)]) (JObj ?es)" by (simp only: encode_obj [OF assms])
  moreover have "distinct (keys ?es)" by (rule distinct_encode [OF assms])
  moreover have "distinct (keys [(float_tag, JStr s)])" by simp
  ultimately have "rel_option json_eq (map_of [(float_tag, JStr s)] float_tag) (map_of ?es float_tag)"
    by (blast dest: json_eq_obj [THEN iffD1])
  moreover have "float_tag \<notin> range encode_key" by (metis encode_key_not_tag rangeE)
  then have "map_of ?es float_tag = None" by (simp add: map_of_encode)
  ultimately show False by simp
qed

lemma encode_json_eq:
  assumes "\<And>f. fparse (frepr f) = Some f"
  shows "wf_json v \<Longrightarrow> wf_json w \<Longrightarrow> json_eq (encode_wire frepr v) (encode_wire frepr w) \<longleftrightarrow> json_eq v w"
proof (induction v arbitrary: w)
  case JFloat_v: (JFloat f)
  have inj: "frepr f = frepr g \<longleftrightarrow> f = g" for g by (metis assms option.inject)
  show ?case
  proof (cases w)
    case (JObj kvs)
    with JFloat_v.prems have d: "distinct (keys kvs)" by simp
    have "json_eq (encode_wire frepr (JFloat f)) (encode_wire frepr w) \<longleftrightarrow> False"
      using tagged_not_obj [OF d, of "frepr f" frepr] unfolding JObj encode_wire.simps(1) by blast
    moreover have "json_eq (JFloat f) w \<longleftrightarrow> False" by (simp add: JObj json_eq_def)
    ultimately show ?thesis by (simp only:)
  qed (auto simp: json_eq_def inj)
next
  case JList_v: (JList vs)
  show ?case
  proof (cases w)
    case (JList ws)
    then show ?thesis using JList_v.prems JList_v.IH
      by (auto simp: json_eq_list list_all2_conv_all_nth list_all_length)
  qed (auto simp: json_eq_def)
next
  case JObj_a: (JObj a)
  have da: "distinct (keys a)" using JObj_a.prems by simp
  show ?case
  proof (cases w)
    case (JFloat f)
    have "json_eq (encode_wire frepr (JObj a)) (encode_wire frepr w) \<longleftrightarrow> False"
      using tagged_not_obj [OF da, of "frepr f" frepr] json_eq_sym unfolding JFloat encode_wire.simps(1) by blast
    moreover have "json_eq (JObj a) w \<longleftrightarrow> False" by (simp add: JFloat json_eq_def)
    ultimately show ?thesis by (simp only:)
  next
    case (JObj b)
    have db: "distinct (keys b)" using JObj JObj_a.prems by simp
    let ?e = "map (\<lambda>(k, v). (encode_key k, encode_wire frepr v))"
    have de: "distinct (keys (?e a))" "distinct (keys (?e b))"
      by (rule distinct_encode [OF da], rule distinct_encode [OF db])
    have "json_eq (encode_wire frepr (JObj a)) (encode_wire frepr w) \<longleftrightarrow> json_eq (JObj (?e a)) (JObj (?e b))"
      by (simp only: JObj encode_obj [OF da] encode_obj [OF db])
    also have "\<dots> \<longleftrightarrow> (\<forall>j. rel_option json_eq (map_of (?e a) j) (map_of (?e b) j))"
      by (rule json_eq_obj [OF de])
    also have "\<dots> \<longleftrightarrow> (\<forall>k. rel_option json_eq (map_option (encode_wire frepr) (map_of a k)) (map_option (encode_wire frepr) (map_of b k)))"
    proof
      assume *: "\<forall>j. rel_option json_eq (map_of (?e a) j) (map_of (?e b) j)"
      show "\<forall>k. rel_option json_eq (map_option (encode_wire frepr) (map_of a k)) (map_option (encode_wire frepr) (map_of b k))"
      proof
        fix k
        from spec [OF *, of "encode_key k"]
        show "rel_option json_eq (map_option (encode_wire frepr) (map_of a k)) (map_option (encode_wire frepr) (map_of b k))"
          by (simp add: map_of_encode)
      qed
    qed (simp add: map_of_encode)
    also have "\<dots> \<longleftrightarrow> (\<forall>k. rel_option json_eq (map_of a k) (map_of b k))"
    proof (rule iff_allI)
      fix k
      show "rel_option json_eq (map_option (encode_wire frepr) (map_of a k)) (map_option (encode_wire frepr) (map_of b k))
          \<longleftrightarrow> rel_option json_eq (map_of a k) (map_of b k)"
      proof (cases "map_of a k"; cases "map_of b k")
        fix x y assume xy: "map_of a k = Some x" "map_of b k = Some y"
        then have in_a: "(k, x) \<in> set a" and in_b: "(k, y) \<in> set b" by (auto dest: map_of_SomeD)
        have "wf_json x" "wf_json y" using in_a in_b JObj JObj_a.prems by (auto simp: list_all_iff)
        moreover have "x \<in> Basic_BNFs.snds (k, x)" by simp
        ultimately show ?thesis using JObj_a.IH [OF in_a] xy by simp
      qed simp_all
    qed
    also have "\<dots> \<longleftrightarrow> json_eq (JObj a) w" by (simp only: JObj json_eq_obj [OF da db])
    finally show ?thesis .
  qed (auto simp: json_eq_def)
qed (case_tac w; auto simp: json_eq_def)+

section \<open>Signing\<close>

text \<open>\<open>mac secret text\<close> is \<open>hmac.new(secret, text, sha256).hexdigest()\<close>.\<close>

definition canonical_bytes :: "(pyfloat \<Rightarrow> string) \<Rightarrow> json \<Rightarrow> string" where
  "canonical_bytes frepr obj = json_dumps frepr obj"

definition sig_prefix :: string where
  "sig_prefix = ''hmac-sha256''"

definition rcp_sign :: "(string \<Rightarrow> string \<Rightarrow> string) \<Rightarrow> (pyfloat \<Rightarrow> string) \<Rightarrow> string \<Rightarrow> json \<Rightarrow> string" where
  "rcp_sign mac frepr secret obj = sig_prefix @ '':'' @ mac secret (canonical_bytes frepr obj)"

definition rcp_verify :: "(string \<Rightarrow> string \<Rightarrow> string) \<Rightarrow> (pyfloat \<Rightarrow> string) \<Rightarrow> string \<Rightarrow> json \<Rightarrow> string \<Rightarrow> bool" where
  "rcp_verify mac frepr secret obj signature \<longleftrightarrow>
     starts_with (sig_prefix @ '':'') signature \<and> rcp_sign mac frepr secret obj = signature"

lemma verify_iff: "rcp_verify mac frepr secret obj signature \<longleftrightarrow> signature = rcp_sign mac frepr secret obj"
  by (auto simp: rcp_verify_def rcp_sign_def starts_with_iff)

text \<open>
  Over encoded payloads a signature of one verifies for the other exactly when they are the same value,
  unless the MAC collides on the two canonical texts.
\<close>

lemma signature_covers_payload:
  assumes "\<And>f. fparse (frepr f) = Some f" "wf_json v" "wf_json w"
    and "mac secret (canonical_bytes frepr (encode_wire frepr v)) = mac secret (canonical_bytes frepr (encode_wire frepr w)) \<Longrightarrow>
      canonical_bytes frepr (encode_wire frepr v) = canonical_bytes frepr (encode_wire frepr w)"
  shows "rcp_verify mac frepr secret (encode_wire frepr w) (rcp_sign mac frepr secret (encode_wire frepr v)) \<longleftrightarrow> json_eq v w"
proof -
  note ff = float_free_encode [OF assms(2), of frepr] float_free_encode [OF assms(3), of frepr]
  have "canonical_bytes frepr (encode_wire frepr v) = canonical_bytes frepr (encode_wire frepr w) \<longleftrightarrow> json_eq v w"
    unfolding canonical_bytes_def json_dumps_eq_iff [OF ff] by (rule encode_json_eq [OF assms(1-3)])
  with assms(4) show ?thesis by (auto simp: verify_iff rcp_sign_def)
qed


section \<open>A concrete rendering of floats\<close>

text \<open>
  Python's \<open>float.__repr__\<close> and \<open>float()\<close> are parameters above; only that the second undoes the
  first is used. This pair has the law and is used where a theorem is instantiated.
\<close>

definition sample_frepr :: "pyfloat \<Rightarrow> string" where
  "sample_frepr f = (case f of PInf \<Rightarrow> ''inf'' | NInf \<Rightarrow> ''-inf'' | NaN \<Rightarrow> ''nan''
     | Fin q \<Rightarrow> (if fst (quotient_of q) < 0 then ''-'' else []) @ replicate (nat \<bar>fst (quotient_of q)\<bar>) CHR ''1'' @
         ''/'' @ replicate (nat (snd (quotient_of q))) CHR ''1'')"

definition sample_fparse :: "string \<Rightarrow> pyfloat option" where
  "sample_fparse s = (if s = ''inf'' then Some PInf else if s = ''-inf'' then Some NInf else if s = ''nan'' then Some NaN
     else (let neg = (s \<noteq> [] \<and> hd s = CHR ''-''); r = (if neg then tl s else s);
               n = int (length (takeWhile (\<lambda>c. c \<noteq> CHR ''/'') r));
               d = int (length (dropWhile (\<lambda>c. c \<noteq> CHR ''/'') r)) - 1
           in Some (Fin (Fract (if neg then - n else n) d))))"

lemma take_drop_replicate:
  "takeWhile (\<lambda>c. c \<noteq> CHR ''/'') (replicate n CHR ''1'' @ CHR ''/'' # xs) = replicate n CHR ''1''"
  "dropWhile (\<lambda>c. c \<noteq> CHR ''/'') (replicate n CHR ''1'' @ CHR ''/'' # xs) = CHR ''/'' # xs"
  by (induction n) auto

lemma sample_float_law: "sample_fparse (sample_frepr f) = Some f"
proof (cases f)
  case (Fin q)
  obtain a b where q: "quotient_of q = (a, b)" by (cases "quotient_of q")
  have b: "b > 0" using quotient_of_denom_pos [OF q] .
  have f: "q = Fract a b" using quotient_of_div [OF q] by (simp add: Fract_of_int_quotient)
  let ?r = "replicate (nat \<bar>a\<bar>) CHR ''1'' @ CHR ''/'' # replicate (nat b) CHR ''1''"
  have s: "sample_frepr f = (if a < 0 then ''-'' else []) @ ?r" by (simp add: sample_frepr_def Fin q)
  have slash: "CHR ''/'' \<in> set (sample_frepr f)" by (simp add: s)
  then have other: "sample_frepr f \<noteq> ''inf''" "sample_frepr f \<noteq> ''-inf''" "sample_frepr f \<noteq> ''nan''" by auto
  have hd: "hd ?r \<noteq> CHR ''-''" by (cases "nat \<bar>a\<bar>") auto
  have "sample_fparse (sample_frepr f) = Some (Fin (Fract a b))"
  proof (cases "a < 0")
    case True
    then have s': "sample_frepr f = CHR ''-'' # ?r" by (simp add: s)
    show ?thesis using True b other unfolding sample_fparse_def Let_def s'
      by (simp add: take_drop_replicate)
  next
    case False
    then have s': "sample_frepr f = ?r" by (simp add: s)
    show ?thesis using False b other hd unfolding sample_fparse_def Let_def s'
      by (simp add: take_drop_replicate)
  qed
  then show ?thesis using f Fin by simp
qed (simp_all add: sample_frepr_def sample_fparse_def)


end
