(* ===== verification/RcpEnvelope.thy ===== *)
theory RcpEnvelope
  imports RcpWire
begin

text \<open>
  \<open>RcpMessage\<close> of \<open>rcp/envelope.py\<close>: the signed envelope, its wire mapping, and what a receiver reads
  back; and \<open>rcp/state.py\<close>: the per-sender sequence counter and the bounded store that drops duplicates.
\<close>

section \<open>Messages\<close>

datatype kind = KEvent | KCommand | KAck

datatype sender_role = Simclient | McpServer

definition kind_value :: "kind \<Rightarrow> string" where
  "kind_value k = (case k of KEvent \<Rightarrow> ''event'' | KCommand \<Rightarrow> ''command'' | KAck \<Rightarrow> ''ack'')"

definition role_value :: "sender_role \<Rightarrow> string" where
  "role_value r = (case r of Simclient \<Rightarrow> ''simclient'' | McpServer \<Rightarrow> ''mcpserver'')"

definition parse_kind :: "json \<Rightarrow> kind option" where
  "parse_kind v = (case v of JStr s \<Rightarrow> map_of [(''event'', KEvent), (''command'', KCommand), (''ack'', KAck)] s | _ \<Rightarrow> None)"

definition parse_role :: "json \<Rightarrow> sender_role option" where
  "parse_role v = (case v of JStr s \<Rightarrow> map_of [(''simclient'', Simclient), (''mcpserver'', McpServer)] s | _ \<Rightarrow> None)"

record rcp_message =
  rm_sim :: string
  rm_kind :: kind
  rm_type :: string
  rm_seq :: int
  rm_sender_role :: sender_role
  rm_payload :: "(string \<times> json) list"
  rm_ts :: string
  rm_in_reply_to :: "string option"
  rm_version :: int
  rm_sig :: "string option"
  rm_transport_sender :: "string option"
  rm_transport_event_id :: "string option"

definition opt_str :: "string option \<Rightarrow> json" where
  "opt_str x = (case x of None \<Rightarrow> JNull | Some s \<Rightarrow> JStr s)"

text \<open>The fields of \<open>SIGNED_FIELDS\<close>, in model order, and the full dump with \<open>sig\<close>.\<close>

definition signed_fields :: "rcp_message \<Rightarrow> (string \<times> json) list" where
  "signed_fields m = [(''sim'', JStr (rm_sim m)), (''kind'', JStr (kind_value (rm_kind m))), (''type'', JStr (rm_type m)),
     (''seq'', JInt (rm_seq m)), (''sender_role'', JStr (role_value (rm_sender_role m))), (''payload'', JObj (rm_payload m)),
     (''ts'', JStr (rm_ts m)), (''in_reply_to'', opt_str (rm_in_reply_to m)), (''version'', JInt (rm_version m))]"

definition signed_payload :: "(pyfloat \<Rightarrow> string) \<Rightarrow> rcp_message \<Rightarrow> json" where
  "signed_payload frepr m = encode_wire frepr (JObj (signed_fields m))"

definition to_dict :: "(pyfloat \<Rightarrow> string) \<Rightarrow> rcp_message \<Rightarrow> json" where
  "to_dict frepr m = encode_wire frepr (JObj (signed_fields m @ [(''sig'', opt_str (rm_sig m))]))"

definition sign_message :: "(string \<Rightarrow> string \<Rightarrow> string) \<Rightarrow> (pyfloat \<Rightarrow> string) \<Rightarrow> string \<Rightarrow> rcp_message \<Rightarrow> rcp_message" where
  "sign_message mac frepr secret m = m\<lparr>rm_sig := Some (rcp_sign mac frepr secret (signed_payload frepr m))\<rparr>"

definition verify_message :: "(string \<Rightarrow> string \<Rightarrow> string) \<Rightarrow> (pyfloat \<Rightarrow> string) \<Rightarrow> string \<Rightarrow> rcp_message \<Rightarrow> bool" where
  "verify_message mac frepr secret m = (case rm_sig m of None \<Rightarrow> False
     | Some sg \<Rightarrow> rcp_verify mac frepr secret (signed_payload frepr m) sg)"

definition dedup_key :: "rcp_message \<Rightarrow> string list" where
  "dedup_key m = (if truthy (rm_transport_event_id m) then [the (rm_transport_event_id m)]
     else [rm_sim m, role_value (rm_sender_role m), show_int (rm_seq m), rm_type m])"

section \<open>The room line\<close>

definition body_keys :: "string list" where
  "body_keys = [''cmd_id'', ''job_id'', ''submit_system'', ''state'', ''results_linked'', ''step'', ''percent'', ''message'']"

definition body_value :: "(pyfloat \<Rightarrow> string) \<Rightarrow> json \<Rightarrow> string option" where
  "body_value frepr v = (case v of
     JStr s \<Rightarrow> Some s | JInt i \<Rightarrow> Some (show_int i) | JFloat f \<Rightarrow> Some (frepr f)
   | JBool b \<Rightarrow> Some (if b then ''True'' else ''False'') | _ \<Rightarrow> None)"

definition cut_value :: "string \<Rightarrow> string" where
  "cut_value s = (if length s > 60 then take 57 s @ ''...'' else s)"

definition body_parts :: "(pyfloat \<Rightarrow> string) \<Rightarrow> rcp_message \<Rightarrow> string list" where
  "body_parts frepr m = concat (map (\<lambda>k. case map_of (rm_payload m) k of None \<Rightarrow> []
     | Some v \<Rightarrow> (case body_value frepr v of None \<Rightarrow> [] | Some s \<Rightarrow> [k @ ''='' @ cut_value s])) body_keys)"

definition body :: "(pyfloat \<Rightarrow> string) \<Rightarrow> rcp_message \<Rightarrow> string" where
  "body frepr m = join_str '' '' ([''[rcp] sim='' @ rm_sim m, rm_type m] @ body_parts frepr m)"

section \<open>Matrix content\<close>

datatype content_error = UnsignedNoSecret | NoEnvelope | MalformedFloat | InvalidEnvelope

definition rcp_namespace :: string where
  "rcp_namespace = ''io.picongpu.rcp''"

definition to_content :: "(string \<Rightarrow> string \<Rightarrow> string) \<Rightarrow> (pyfloat \<Rightarrow> string) \<Rightarrow> string option \<Rightarrow> rcp_message
    \<Rightarrow> content_error + (string \<times> json) list" where
  "to_content mac frepr secret m =
     (case (case (rm_sig m, secret) of
              (Some _, _) \<Rightarrow> Some m
            | (None, Some k) \<Rightarrow> Some (sign_message mac frepr k m)
            | (None, None) \<Rightarrow> None) of
        None \<Rightarrow> Inl UnsignedNoSecret
      | Some m' \<Rightarrow> Inr [(''msgtype'', JStr ''m.text''), (''body'', JStr (body frepr m')), (rcp_namespace, to_dict frepr m')])"

text \<open>
  \<open>model_validate\<close>: \<open>extra="forbid"\<close>, five required fields, the others with their defaults. \<open>lax_int\<close> is
  pydantic's coercion to \<open>int\<close>, \<open>now\<close> the default of \<open>ts\<close>.
\<close>

definition str_field :: "json \<Rightarrow> string option" where
  "str_field v = (case v of JStr s \<Rightarrow> Some s | _ \<Rightarrow> None)"

definition opt_str_field :: "json \<Rightarrow> string option option" where
  "opt_str_field v = (case v of JNull \<Rightarrow> Some None | JStr s \<Rightarrow> Some (Some s) | _ \<Rightarrow> None)"

definition obj_field :: "json \<Rightarrow> (string \<times> json) list option" where
  "obj_field v = (case v of JObj kvs \<Rightarrow> Some kvs | _ \<Rightarrow> None)"

definition required :: "(string \<times> json) list \<Rightarrow> string \<Rightarrow> (json \<Rightarrow> 'a option) \<Rightarrow> 'a option" where
  "required kvs k c = (case map_of kvs k of None \<Rightarrow> None | Some v \<Rightarrow> c v)"

definition defaulted :: "(string \<times> json) list \<Rightarrow> string \<Rightarrow> (json \<Rightarrow> 'a option) \<Rightarrow> 'a \<Rightarrow> 'a option" where
  "defaulted kvs k c d = (case map_of kvs k of None \<Rightarrow> Some d | Some v \<Rightarrow> c v)"

definition message_fields :: "string list" where
  "message_fields = [''sim'', ''kind'', ''type'', ''seq'', ''sender_role'', ''payload'', ''ts'', ''in_reply_to'', ''version'', ''sig'',
     ''transport_sender'', ''transport_event_id'']"

definition validate_message :: "(json \<Rightarrow> int option) \<Rightarrow> string \<Rightarrow> (string \<times> json) list \<Rightarrow> rcp_message option" where
  "validate_message lax_int now kvs =
     (if \<not> list_all (\<lambda>k. k \<in> set message_fields) (keys kvs) then None
      else case (required kvs ''sim'' str_field, required kvs ''kind'' parse_kind, required kvs ''type'' str_field,
                 required kvs ''seq'' lax_int, required kvs ''sender_role'' parse_role) of
        (Some sim, Some kd, Some ty, Some sq, Some role) \<Rightarrow>
          (case (defaulted kvs ''payload'' obj_field [], defaulted kvs ''ts'' str_field now,
                 defaulted kvs ''in_reply_to'' opt_str_field None, defaulted kvs ''version'' lax_int 0,
                 defaulted kvs ''sig'' opt_str_field None, defaulted kvs ''transport_sender'' opt_str_field None,
                 defaulted kvs ''transport_event_id'' opt_str_field None) of
             (Some pl, Some ts, Some irt, Some ver, Some sg, Some tsend, Some tev) \<Rightarrow>
               Some \<lparr>rm_sim = sim, rm_kind = kd, rm_type = ty, rm_seq = sq, rm_sender_role = role, rm_payload = pl,
                 rm_ts = ts, rm_in_reply_to = irt, rm_version = ver, rm_sig = sg, rm_transport_sender = tsend,
                 rm_transport_event_id = tev\<rparr>
           | _ \<Rightarrow> None)
      | _ \<Rightarrow> None)"

definition from_dict :: "(string \<Rightarrow> pyfloat option) \<Rightarrow> (json \<Rightarrow> int option) \<Rightarrow> string \<Rightarrow> json \<Rightarrow> content_error + rcp_message" where
  "from_dict fparse lax_int now data =
     (case decode_wire fparse data of
        None \<Rightarrow> Inl MalformedFloat
      | Some (JObj kvs) \<Rightarrow> (case validate_message lax_int now kvs of None \<Rightarrow> Inl InvalidEnvelope | Some m \<Rightarrow> Inr m)
      | Some _ \<Rightarrow> Inl InvalidEnvelope)"

definition from_content :: "(string \<Rightarrow> pyfloat option) \<Rightarrow> (json \<Rightarrow> int option) \<Rightarrow> string \<Rightarrow> (string \<times> json) list
    \<Rightarrow> content_error + rcp_message" where
  "from_content fparse lax_int now content =
     (case map_of content rcp_namespace of
        Some (JObj kvs) \<Rightarrow> from_dict fparse lax_int now (JObj kvs)
      | _ \<Rightarrow> Inl NoEnvelope)"

section \<open>What is sent is what is received\<close>

lemmas field_defs = str_field_def opt_str_field_def obj_field_def required_def defaulted_def opt_str_def
  parse_kind_def parse_role_def kind_value_def role_value_def

lemma validate_dump:
  assumes "\<And>i. lax_int (JInt i) = Some i"
  shows "validate_message lax_int now (signed_fields m @ [(''sig'', opt_str (rm_sig m))])
    = Some (m\<lparr>rm_transport_sender := None, rm_transport_event_id := None\<rparr>)"
proof -
  have "parse_kind (JStr (kind_value k)) = Some k" for k by (cases k) (simp_all add: parse_kind_def kind_value_def)
  moreover have "parse_role (JStr (role_value q)) = Some q" for q by (cases q) (simp_all add: parse_role_def role_value_def)
  moreover have "opt_str_field (opt_str x) = Some x" for x by (cases x) (simp_all add: opt_str_field_def opt_str_def)
  ultimately show ?thesis
    by (cases m) (simp add: validate_message_def message_fields_def signed_fields_def required_def defaulted_def str_field_def obj_field_def assms)
qed

lemma wf_dump: "wf_json (JObj (rm_payload m)) \<Longrightarrow> wf_json (JObj (signed_fields m @ [(''sig'', opt_str (rm_sig m))]))"
  by (simp add: signed_fields_def opt_str_def split: option.splits)

lemma from_to_dict:
  assumes "\<And>f. fparse (frepr f) = Some f" "\<And>i. lax_int (JInt i) = Some i" "wf_json (JObj (rm_payload m))"
  shows "from_dict fparse lax_int now (to_dict frepr m) = Inr (m\<lparr>rm_transport_sender := None, rm_transport_event_id := None\<rparr>)"
  by (simp only: from_dict_def to_dict_def decode_encode_wire [OF assms(1) wf_dump [OF assms(3)]] option.case json.case
      validate_dump [OF assms(2)])

lemma signed_payload_transport [simp]:
  "signed_payload frepr (m\<lparr>rm_transport_sender := a, rm_transport_event_id := b\<rparr>) = signed_payload frepr m"
  "signed_payload frepr (m\<lparr>rm_sig := sg\<rparr>) = signed_payload frepr m"
  by (simp_all add: signed_payload_def signed_fields_def)

lemma to_dict_obj: "\<exists>kvs. to_dict frepr m = JObj kvs"
  by (simp add: to_dict_def)

text \<open>A message sent as Matrix content is read back, without its transport metadata, and verifies.\<close>

lemma content_round_trip:
  assumes "\<And>f. fparse (frepr f) = Some f" "\<And>i. lax_int (JInt i) = Some i" "wf_json (JObj (rm_payload m))"
    and "rm_sig m = None" "to_content mac frepr (Some secret) m = Inr content"
  shows "from_content fparse lax_int now content
      = Inr ((sign_message mac frepr secret m)\<lparr>rm_transport_sender := None, rm_transport_event_id := None\<rparr>)"
    "verify_message mac frepr secret ((sign_message mac frepr secret m)\<lparr>rm_transport_sender := None, rm_transport_event_id := None\<rparr>)"
proof -
  let ?m = "sign_message mac frepr secret m"
  have c: "map_of content rcp_namespace = Some (to_dict frepr ?m)"
    using assms(4,5) by (auto simp: to_content_def rcp_namespace_def)
  obtain kvs where k: "to_dict frepr ?m = JObj kvs" using to_dict_obj by blast
  have pl: "wf_json (JObj (rm_payload ?m))" using assms(3) by (simp add: sign_message_def)
  show "from_content fparse lax_int now content
      = Inr (?m\<lparr>rm_transport_sender := None, rm_transport_event_id := None\<rparr>)"
    using from_to_dict [of fparse frepr lax_int ?m now, OF assms(1,2) pl] by (simp add: from_content_def c k)
  show "verify_message mac frepr secret (?m\<lparr>rm_transport_sender := None, rm_transport_event_id := None\<rparr>)"
    by (simp add: verify_message_def sign_message_def verify_iff)
qed

text \<open>
  A receiver that accepts a message holds the fields that were signed: two messages under one valid
  signature agree on every signed field, the payload up to the order of its keys.
\<close>

definition same_signed :: "rcp_message \<Rightarrow> rcp_message \<Rightarrow> bool" where
  "same_signed m n \<longleftrightarrow> json_eq (JObj (signed_fields m)) (JObj (signed_fields n))"

lemma wf_signed: "wf_json (JObj (rm_payload m)) \<Longrightarrow> wf_json (JObj (signed_fields m))"
  by (simp add: signed_fields_def opt_str_def split: option.splits)

lemma json_eq_atoms:
  "json_eq (JStr s) (JStr t) \<longleftrightarrow> s = t" "json_eq (JInt i) (JInt j) \<longleftrightarrow> i = j"
  "json_eq (opt_str a) (opt_str b) \<longleftrightarrow> a = b" "kind_value k = kind_value l \<longleftrightarrow> k = l"
  "role_value q = role_value r \<longleftrightarrow> q = r"
  by (cases a; cases b; simp add: json_eq_def opt_str_def; fail
    | cases k; cases l; simp add: kind_value_def; fail | cases q; cases r; simp add: role_value_def; fail
    | simp add: json_eq_def; fail)+

lemma same_signed_fields:
  "same_signed m n \<Longrightarrow> rm_sim m = rm_sim n \<and> rm_kind m = rm_kind n \<and> rm_type m = rm_type n \<and> rm_seq m = rm_seq n \<and>
     rm_sender_role m = rm_sender_role n \<and> rm_ts m = rm_ts n \<and> rm_in_reply_to m = rm_in_reply_to n \<and>
     rm_version m = rm_version n \<and> json_eq (JObj (rm_payload m)) (JObj (rm_payload n))"
proof -
  assume "same_signed m n"
  then have s: "json_eq (JObj (signed_fields m)) (JObj (signed_fields n))" by (simp add: same_signed_def)
  have d: "distinct (keys (signed_fields m))" for m by (simp add: signed_fields_def)
  have f: "rel_option json_eq (map_of (signed_fields m) k) (map_of (signed_fields n) k)" for k
    using s unfolding json_eq_obj [OF d d] by blast
  show ?thesis
    using f [of "''sim''"] f [of "''kind''"] f [of "''type''"] f [of "''seq''"] f [of "''sender_role''"] f [of "''ts''"]
      f [of "''in_reply_to''"] f [of "''version''"] f [of "''payload''"]
    by (simp add: signed_fields_def json_eq_atoms)
qed

lemma verify_transfers:
  assumes "\<And>f. fparse (frepr f) = Some f" "wf_json (JObj (rm_payload m))" "wf_json (JObj (rm_payload n))"
    and "mac secret (canonical_bytes frepr (signed_payload frepr m)) = mac secret (canonical_bytes frepr (signed_payload frepr n)) \<Longrightarrow>
      canonical_bytes frepr (signed_payload frepr m) = canonical_bytes frepr (signed_payload frepr n)"
    and "rm_sig n = rm_sig (sign_message mac frepr secret m)"
  shows "verify_message mac frepr secret n \<longleftrightarrow> same_signed m n"
  using signature_covers_payload [OF assms(1) wf_signed [OF assms(2)] wf_signed [OF assms(3)], of mac secret]
    assms(4,5) unfolding signed_payload_def
  by (simp add: verify_message_def sign_message_def same_signed_def signed_payload_def)

section \<open>Sequence numbers\<close>

type_synonym sequence_state = "((string \<times> string) \<times> int) list"

definition highest :: "sequence_state \<Rightarrow> string \<Rightarrow> sender_role \<Rightarrow> int" where
  "highest st sim role = get_or st (sim, role_value role) 0"

definition next_seq :: "sequence_state \<Rightarrow> string \<Rightarrow> sender_role \<Rightarrow> int \<times> sequence_state" where
  "next_seq st sim role = (let v = get_or st (sim, role_value role) 0 + 1
     in (v, AList.update (sim, role_value role) v st))"

definition observe_seq :: "sequence_state \<Rightarrow> string \<Rightarrow> sender_role \<Rightarrow> int \<Rightarrow> sequence_state" where
  "observe_seq st sim role sq = (if sq > get_or st (sim, role_value role) 0
     then AList.update (sim, role_value role) sq st else st)"

lemma get_or_update: "get_or (AList.update k v d) l w = (if l = k then v else get_or d l w)"
  by (simp add: get_or_def)

lemma role_value_eq [simp]: "role_value a = role_value b \<longleftrightarrow> a = b"
  by (cases a; cases b) (simp_all add: role_value_def)

text \<open>Counters never go down, and the two roles do not disturb each other.\<close>

lemma next_seq_highest:
  "next_seq st sim role = (v, st') \<Longrightarrow> v = highest st sim role + 1 \<and>
   highest st' s r = (if (s, r) = (sim, role) then v else highest st s r)"
  by (auto simp: next_seq_def highest_def Let_def get_or_update)

lemma observe_seq_highest:
  "highest (observe_seq st sim role sq) s r =
     (if (s, r) = (sim, role) then max sq (highest st s r) else highest st s r)"
  by (auto simp: observe_seq_def highest_def get_or_update)

section \<open>The dedup store\<close>

record dedup_store =
  dd_seen :: "string list set"
  dd_order :: "string list list"
  dd_maxlen :: nat

definition new_dedup :: "nat \<Rightarrow> dedup_store" where
  "new_dedup n = \<lparr>dd_seen = {}, dd_order = [], dd_maxlen = n\<rparr>"

definition seen_key :: "dedup_store \<Rightarrow> string list \<Rightarrow> bool \<times> dedup_store" where
  "seen_key d k =
     (if k \<in> dd_seen d then (False, d)
      else (let order = dd_order d @ [k]; s = insert k (dd_seen d)
        in (True, if length order > dd_maxlen d
                  then d\<lparr>dd_seen := s - {hd order}, dd_order := tl order\<rparr>
                  else d\<lparr>dd_seen := s, dd_order := order\<rparr>)))"

definition seen :: "dedup_store \<Rightarrow> rcp_message \<Rightarrow> bool \<times> dedup_store" where
  "seen d m = seen_key d (dedup_key m)"

definition dedup_inv :: "dedup_store \<Rightarrow> bool" where
  "dedup_inv d \<longleftrightarrow> dd_seen d = set (dd_order d) \<and> distinct (dd_order d) \<and> length (dd_order d) \<le> dd_maxlen d"

fun offer :: "dedup_store \<Rightarrow> string list list \<Rightarrow> bool list \<times> dedup_store" where
  "offer d [] = ([], d)"
| "offer d (k # ks) = (let (b, d1) = seen_key d k; (bs, d2) = offer d1 ks in (b # bs, d2))"

text \<open>
  The contract of a guard against redelivery: an item that is let through is remembered for as long as
  fewer than \<open>window\<close> further items are let through, and meanwhile rejected.
\<close>

locale redelivery_guard =
  fixes guard :: "'s \<Rightarrow> 'k \<Rightarrow> bool \<times> 's"
    and recent :: "'s \<Rightarrow> 'k list"
    and inv :: "'s \<Rightarrow> bool"
    and window :: "'s \<Rightarrow> nat"
  assumes inv_guard: "inv s \<Longrightarrow> inv (snd (guard s k))"
    and rejects: "inv s \<Longrightarrow> fst (guard s k) \<longleftrightarrow> k \<notin> set (recent s)"
    and kept: "inv s \<Longrightarrow> \<not> fst (guard s k) \<Longrightarrow> snd (guard s k) = s"
    and shifted: "inv s \<Longrightarrow> fst (guard s k) \<Longrightarrow>
      recent (snd (guard s k)) = (if Suc (length (recent s)) > window s then tl (recent s @ [k]) else recent s @ [k])"
    and window_kept: "window (snd (guard s k)) = window s"
begin

fun run :: "'s \<Rightarrow> 'k list \<Rightarrow> bool list \<times> 's" where
  "run s [] = ([], s)"
| "run s (k # ks) = (let (b, s1) = guard s k; (bs, s2) = run s1 ks in (b # bs, s2))"

lemma inv_run: "inv s \<Longrightarrow> inv (snd (run s ks))"
proof (induction ks arbitrary: s)
  case (Cons k ks)
  obtain b s1 where g: "guard s k = (b, s1)" by (cases "guard s k")
  from inv_guard [OF Cons.prems, of k] g Cons.IH [of s1] show ?case by (auto split: prod.splits)
qed simp

text \<open>A key at position \<open>i\<close> from the old end is still there after fewer than enough new ones.\<close>

lemma still_recent:
  assumes "inv s" "recent s = xs @ k # ys" "length ys + length (filter id (fst (run s ks))) < window s"
  shows "k \<in> set (recent (snd (run s ks)))"
  using assms
proof (induction ks arbitrary: s xs ys)
  case (Cons l ks)
  obtain b s1 where g: "guard s l = (b, s1)" by (cases "guard s l")
  obtain bs s2 where r: "run s1 ks = (bs, s2)" by (cases "run s1 ks")
  have inv1: "inv s1" using inv_guard [OF Cons.prems(1), of l] g by simp
  have w: "window s1 = window s" using window_kept [of s l] g by simp
  show ?case
  proof (cases b)
    case False
    then have "s1 = s" using kept [OF Cons.prems(1), of l] g by simp
    then show ?thesis using Cons.IH [OF Cons.prems(1,2)] Cons.prems(3) g r False by simp
  next
    case True
    have rec: "recent s1 = (if Suc (length (recent s)) > window s then tl (recent s @ [l]) else recent s @ [l])"
      using shifted [OF Cons.prems(1), of l] g True by simp
    have "length ys + Suc 0 < window s" using Cons.prems(3) g r True by simp
    then have "\<exists>xs'. recent s1 = xs' @ k # (ys @ [l])"
      using rec Cons.prems(2) by (cases xs) (auto split: if_splits)
    then obtain xs' where "recent s1 = xs' @ k # (ys @ [l])" by blast
    then show ?thesis using Cons.IH [OF inv1] Cons.prems(3) w g r True by simp
  qed
qed simp

lemma rejected_within_window:
  assumes "inv s" "fst (guard s k)" "run (snd (guard s k)) ks = (bs, s2)" "length (filter id bs) < window s"
  shows "\<not> fst (guard s2 k)"
proof -
  let ?s1 = "snd (guard s k)"
  have inv1: "inv ?s1" using inv_guard [OF assms(1)] .
  have pos: "window s > 0" using assms(4) by simp
  have rec: "recent ?s1 = (if Suc (length (recent s)) > window s then tl (recent s @ [k]) else recent s @ [k])"
    using shifted [OF assms(1,2)] .
  show ?thesis
  proof (cases "recent ?s1 = []")
    case True
    with rec have "recent s = []" "Suc 0 > window s" by (auto split: if_splits simp: tl_append split: list.splits)
    with pos show ?thesis by simp
  next
    case False
    with rec have "\<exists>xs. recent ?s1 = xs @ k # []" by (auto split: if_splits simp: tl_append split: list.splits)
    then obtain xs where "recent ?s1 = xs @ k # []" by blast
    then have "k \<in> set (recent s2)"
      using still_recent [OF inv1, of xs k "[]" ks] assms(3,4) window_kept [of s k] by simp
    moreover have "inv s2" using inv_run [OF inv1, of ks] assms(3) by simp
    ultimately show ?thesis using rejects by blast
  qed
qed

end

lemma dedup_inv_new [simp]: "dedup_inv (new_dedup n)"
  by (simp add: dedup_inv_def new_dedup_def)

lemma dedup_inv_seen:
  assumes "dedup_inv d" shows "dedup_inv (snd (seen_key d k))"
proof (cases "k \<in> dd_seen d")
  case True
  then show ?thesis using assms by (simp add: seen_key_def)
next
  case False
  with assms show ?thesis
    by (cases "dd_order d") (auto simp: seen_key_def dedup_inv_def Let_def)
qed

lemma seen_key_kept: "\<not> fst (seen_key d k) \<Longrightarrow> snd (seen_key d k) = d"
  by (simp add: seen_key_def Let_def split: if_splits)

lemma seen_key_shifted:
  assumes "fst (seen_key d k)"
  shows "dd_order (snd (seen_key d k)) = (if Suc (length (dd_order d)) > dd_maxlen d then tl (dd_order d @ [k]) else dd_order d @ [k])"
  using assms by (simp add: seen_key_def Let_def split: if_splits)

interpretation dedup: redelivery_guard seen_key dd_order dedup_inv dd_maxlen
proof (unfold_locales, goal_cases)
  case (1 s k)
  then show ?case by (rule dedup_inv_seen)
next
  case (2 s k)
  then show ?case by (simp add: seen_key_def dedup_inv_def Let_def)
next
  case (3 s k)
  then show ?case by (simp add: seen_key_kept)
next
  case (4 s k)
  then show ?case by (simp add: seen_key_shifted)
next
  case (5 s k)
  then show ?case by (simp add: seen_key_def Let_def)
qed

lemma dedup_run: "dedup.run d ks = offer d ks"
  by (induction ks arbitrary: d) (simp_all add: split_def Let_def)


section \<open>Properties\<close>

text \<open>
  C19: A message that is signed and sent as Matrix content is read back by the receiver with every envelope
  field intact, floats included, without transport metadata, and its signature verifies.
\<close>

theorem message_round_trip:
  assumes "\<And>f. fparse (frepr f) = Some f" "\<And>i. lax_int (JInt i) = Some i" "wf_json (JObj (rm_payload m))"
    and "rm_sig m = None"
  shows "\<exists>content m'. to_content mac frepr (Some secret) m = Inr content \<and>
    from_content fparse lax_int now content = Inr m' \<and> verify_message mac frepr secret m' \<and>
    m'\<lparr>rm_sig := None\<rparr> = m\<lparr>rm_transport_sender := None, rm_transport_event_id := None\<rparr>"
proof -
  obtain content where c: "to_content mac frepr (Some secret) m = Inr content" using assms(4) by (simp add: to_content_def)
  note r = content_round_trip [OF assms c]
  have "((sign_message mac frepr secret m)\<lparr>rm_transport_sender := None, rm_transport_event_id := None\<rparr>)\<lparr>rm_sig := None\<rparr>
      = m\<lparr>rm_transport_sender := None, rm_transport_event_id := None\<rparr>"
    using assms(4) by (cases m) (simp add: sign_message_def)
  with r c show ?thesis by blast
qed

definition sample_lax_int :: "json \<Rightarrow> int option" where
  "sample_lax_int v = (case v of JInt i \<Rightarrow> Some i | _ \<Rightarrow> None)"

definition sample_mac :: "string \<Rightarrow> string \<Rightarrow> string" where
  "sample_mac secret t = secret @ ''/'' @ t"

definition sample_message :: rcp_message where
  "sample_message = \<lparr>rm_sim = ''s'', rm_kind = KCommand, rm_type = ''rcp.hello'', rm_seq = 1, rm_sender_role = McpServer,
     rm_payload = [(''cmd_id'', JStr ''c''), (''x'', JFloat (Fin (1/2)))], rm_ts = ''t'', rm_in_reply_to = None, rm_version = 0,
     rm_sig = None, rm_transport_sender = None, rm_transport_event_id = Some ''$e''\<rparr>"

theorem message_round_trip_witness:
  "\<exists>content m'. to_content sample_mac sample_frepr (Some ''k'') sample_message = Inr content \<and>
    from_content sample_fparse sample_lax_int ''now'' content = Inr m' \<and> verify_message sample_mac sample_frepr ''k'' m' \<and>
    m'\<lparr>rm_sig := None\<rparr> = sample_message\<lparr>rm_transport_sender := None, rm_transport_event_id := None\<rparr>"
  by (rule message_round_trip) (simp_all add: sample_float_law sample_lax_int_def sample_message_def)

text \<open>
  C20: A message under the signature of another one verifies exactly when the two agree in all nine signed
  fields, the payload up to the order of its keys; the MAC is assumed not to collide on their two texts.
\<close>

theorem signature_binds_fields:
  assumes "\<And>f. fparse (frepr f) = Some f" "wf_json (JObj (rm_payload m))" "wf_json (JObj (rm_payload n))"
    and "mac secret (canonical_bytes frepr (signed_payload frepr m)) = mac secret (canonical_bytes frepr (signed_payload frepr n)) \<Longrightarrow>
      canonical_bytes frepr (signed_payload frepr m) = canonical_bytes frepr (signed_payload frepr n)"
    and "rm_sig n = rm_sig (sign_message mac frepr secret m)"
  shows "verify_message mac frepr secret n \<longleftrightarrow>
    rm_sim m = rm_sim n \<and> rm_kind m = rm_kind n \<and> rm_type m = rm_type n \<and> rm_seq m = rm_seq n \<and>
    rm_sender_role m = rm_sender_role n \<and> rm_ts m = rm_ts n \<and> rm_in_reply_to m = rm_in_reply_to n \<and>
    rm_version m = rm_version n \<and> json_eq (JObj (rm_payload m)) (JObj (rm_payload n))"
proof -
  have "same_signed m n" if "rm_sim m = rm_sim n \<and> rm_kind m = rm_kind n \<and> rm_type m = rm_type n \<and> rm_seq m = rm_seq n \<and>
    rm_sender_role m = rm_sender_role n \<and> rm_ts m = rm_ts n \<and> rm_in_reply_to m = rm_in_reply_to n \<and>
    rm_version m = rm_version n \<and> json_eq (JObj (rm_payload m)) (JObj (rm_payload n))"
  proof -
    have d: "distinct (keys (signed_fields m))" for m by (simp add: signed_fields_def)
    have refl: "json_eq v v" for v by (simp add: json_eq_def)
    show ?thesis using that unfolding same_signed_def json_eq_obj [OF d d]
      by (intro allI) (simp add: signed_fields_def refl)
  qed
  with verify_transfers [OF assms] same_signed_fields [of m n] show ?thesis by blast
qed

theorem signature_binds_fields_witness:
  "\<not> verify_message sample_mac sample_frepr ''k''
     (sample_message\<lparr>rm_seq := 2, rm_sig := rm_sig (sign_message sample_mac sample_frepr ''k'' sample_message)\<rparr>)"
  using signature_binds_fields [of sample_fparse sample_frepr sample_message
      "sample_message\<lparr>rm_seq := 2, rm_sig := rm_sig (sign_message sample_mac sample_frepr ''k'' sample_message)\<rparr>" sample_mac "''k''"]
  by (simp add: sample_float_law sample_message_def sample_mac_def)

text \<open>
  C21: Once a message is let through by the dedup store, every redelivery of it is dropped while fewer than
  \<open>maxlen\<close> other messages have been let through since, whatever was offered before and in between.
\<close>

theorem redelivery_dropped:
  assumes "offer (new_dedup maxlen) before = (bs, d)" "seen d m = (True, d1)"
    and "offer d1 (map dedup_key ms) = (cs, d2)" "length (filter id cs) < maxlen" "dedup_key m' = dedup_key m"
  shows "fst (seen d2 m') = False"
proof -
  have inv: "dedup_inv d"
    using dedup.inv_run [OF dedup_inv_new, of maxlen before] assms(1) by (simp only: dedup_run snd_conv)
  have w: "dd_maxlen (snd (offer e ks)) = dd_maxlen e" for e ks
    by (induction ks arbitrary: e) (auto simp: split_def Let_def seen_key_def)
  have "dd_maxlen d = maxlen" using w [of "new_dedup maxlen" before] assms(1) by (simp add: new_dedup_def)
  then show ?thesis
    using dedup.rejected_within_window [OF inv, of "dedup_key m" "map dedup_key ms" cs d2] assms(2-5)
    by (simp add: seen_def dedup_run)
qed

theorem redelivery_dropped_witness:
  "\<exists>d1 cs d2. seen (new_dedup 2) sample_message = (True, d1) \<and>
     offer d1 (map dedup_key [sample_message, sample_message\<lparr>rm_transport_event_id := Some ''$f''\<rparr>]) = (cs, d2) \<and>
     fst (seen d2 sample_message) = False"
proof -
  obtain b d1 where d1: "seen (new_dedup 2) sample_message = (b, d1)" by (cases "seen (new_dedup 2) sample_message")
  have b: "b = True" using d1 by (simp add: seen_def seen_key_def new_dedup_def Let_def split: if_splits)
  obtain cs d2 where d2: "offer d1 (map dedup_key [sample_message, sample_message\<lparr>rm_transport_event_id := Some ''$f''\<rparr>]) = (cs, d2)"
    by fastforce
  have "length (filter id (fst (offer (snd (seen (new_dedup 2) sample_message))
      (map dedup_key [sample_message, sample_message\<lparr>rm_transport_event_id := Some ''$f''\<rparr>])))) = 1" by code_simp
  then have "length (filter id cs) < 2" using d1 d2 by simp
  then have "fst (seen d2 sample_message) = False"
    using redelivery_dropped [OF _ d1 [unfolded b] d2, of 2 "[]" "[]" sample_message] by simp
  then show ?thesis using d1 d2 b by blast
qed


end
