(* ===== verification/PyText.thy ===== *)
theory PyText
  imports Json
begin

text \<open>
  Text operations of Python that several components use: whitespace, \<open>strip\<close>, \<open>splitlines\<close>, \<open>lower\<close>,
  \<open>repr\<close>, and the regular expressions of the \<open>re\<close> module, matched by derivatives.
\<close>

section \<open>Whitespace and lines\<close>

definition char_nat :: "char \<Rightarrow> nat" where
  "char_nat c = of_char c"

definition is_space :: "char \<Rightarrow> bool" where
  "is_space c = (let n = char_nat c in (9 \<le> n \<and> n \<le> 13) \<or> (28 \<le> n \<and> n \<le> 32) \<or> n = 133 \<or> n = 160)"

definition lstrip :: "string \<Rightarrow> string" where
  "lstrip s = dropWhile is_space s"

definition rstrip :: "string \<Rightarrow> string" where
  "rstrip s = rev (dropWhile is_space (rev s))"

definition py_strip :: "string \<Rightarrow> string" where
  "py_strip s = rstrip (lstrip s)"

text \<open>The characters \<open>str.splitlines\<close> breaks at; a carriage return and line feed are one break.\<close>

definition line_break :: "char \<Rightarrow> bool" where
  "line_break c = (let n = char_nat c in (10 \<le> n \<and> n \<le> 13) \<or> (28 \<le> n \<and> n \<le> 30) \<or> n = 133)"

fun lines_acc :: "string \<Rightarrow> string \<Rightarrow> string list" where
  "lines_acc acc [] = (if acc = [] then [] else [rev acc])"
| "lines_acc acc (c # s) =
     (if line_break c
      then rev acc # (case s of d # t \<Rightarrow> lines_acc [] (if c = CHR 0x0D \<and> d = CHR 0x0A then t else s) | [] \<Rightarrow> [])
      else lines_acc (c # acc) s)"

definition splitlines :: "string \<Rightarrow> string list" where
  "splitlines s = lines_acc [] s"

lemma lines_acc_no_break: "\<forall>c \<in> set w. \<not> line_break c \<Longrightarrow> lines_acc acc (w @ s) = lines_acc (rev w @ acc) s"
  by (induction w arbitrary: acc) auto

lemma newline_breaks [simp]: "line_break CHR 0x0A"
  by (simp add: line_break_def char_nat_def)

lemma lines_acc_newline: "lines_acc acc (CHR 0x0A # s) = rev acc # lines_acc [] s"
  by (cases s) auto

lemma splitlines_line:
  assumes "\<forall>c \<in> set w. \<not> line_break c"
  shows "splitlines (w @ CHR 0x0A # s) = w # splitlines s"
  using lines_acc_no_break [OF assms, of "[]" "CHR 0x0A # s"] by (simp add: splitlines_def lines_acc_newline del: lines_acc.simps(2))

lemma splitlines_Nil [simp]: "splitlines [] = []"
  by (simp add: splitlines_def)

text \<open>Lines written one after the other, each ended by a line feed, are read back.\<close>

lemma splitlines_concat:
  "\<forall>w \<in> set ws. \<forall>c \<in> set w. \<not> line_break c \<Longrightarrow>
   splitlines (concat (map (\<lambda>w. w @ [CHR 0x0A]) ws) @ s) = ws @ splitlines s"
  by (induction ws) (simp_all add: splitlines_line)

text \<open>Splitting is compositional at the end of a line.\<close>

definition ends_line :: "string \<Rightarrow> bool" where
  "ends_line s \<longleftrightarrow> s = [] \<or> last s = CHR 0x0A"

lemma splitlines_append:
  assumes "ends_line a" shows "splitlines (a @ b) = splitlines a @ splitlines b"
proof -
  have ends: "\<exists>ls. \<forall>s. lines_acc acc (f @ s) = ls @ splitlines s" if "f \<noteq> []" "last f = CHR 0x0A" for f acc
    using that
  proof (induction f arbitrary: acc rule: length_induct)
    case (1 f)
    then obtain c f' where f: "f = c # f'" by (cases f) auto
    show ?case
    proof (cases f')
      case Nil
      then have "c = CHR 0x0A" using "1.prems" f by simp
      then have "\<forall>s. lines_acc acc (f @ s) = [rev acc] @ splitlines s"
        by (simp add: f Nil lines_acc_newline splitlines_def del: lines_acc.simps(2))
      then show ?thesis by blast
    next
      case (Cons d f'')
      have IH: "\<exists>ls. \<forall>s. lines_acc acc' (g @ s) = ls @ splitlines s" if "g \<in> {f', f''}" "g \<noteq> []" for g acc'
        using "1.IH" [rule_format, of g acc'] that "1.prems" by (auto simp: f Cons split: if_splits)
      show ?thesis
      proof (cases "line_break c \<and> c = CHR 0x0D \<and> d = CHR 0x0A")
        case True
        show ?thesis
        proof (cases "f'' = []")
          case True
          with \<open>line_break c \<and> c = CHR 0x0D \<and> d = CHR 0x0A\<close>
          have "\<forall>s. lines_acc acc (f @ s) = [rev acc] @ splitlines s" by (auto simp: f Cons splitlines_def)
          then show ?thesis by blast
        next
          case False
          then obtain ls where "\<forall>s. lines_acc [] (f'' @ s) = ls @ splitlines s" using IH [of f''] by blast
          with \<open>line_break c \<and> c = CHR 0x0D \<and> d = CHR 0x0A\<close>
          have "\<forall>s. lines_acc acc (f @ s) = (rev acc # ls) @ splitlines s" by (auto simp: f Cons)
          then show ?thesis by blast
        qed
      next
        case False
        obtain ls where ls: "\<forall>s. lines_acc (if line_break c then [] else c # acc) (f' @ s) = ls @ splitlines s"
          using IH [of f'] Cons by blast
        have "\<forall>s. lines_acc acc (f @ s) = ((if line_break c then [rev acc] else []) @ ls) @ splitlines s"
          using False ls by (auto simp: f Cons split: if_splits)
        then show ?thesis by blast
      qed
    qed
  qed
  show ?thesis
  proof (cases "a = []")
    case False
    then obtain ls where ls: "\<And>s. splitlines (a @ s) = ls @ splitlines s"
      using ends [where f = a and acc = "[]"] assms by (auto simp: splitlines_def ends_line_def)
    from ls [of "[]"] have "splitlines a = ls" by simp
    with ls [of b] show ?thesis by simp
  qed simp
qed

definition lower_char :: "char \<Rightarrow> char" where
  "lower_char c = (let n = char_nat c in if (65 \<le> n \<and> n \<le> 90) \<or> (192 \<le> n \<and> n \<le> 222 \<and> n \<noteq> 215) then char_of (n + 32) else c)"

definition lower :: "string \<Rightarrow> string" where
  "lower s = map lower_char s"

section \<open>Repr\<close>

text \<open>\<open>repr\<close> of a string: single quotes unless only those occur in it, control and non-printing characters escaped.\<close>

definition printable :: "char \<Rightarrow> bool" where
  "printable c = (let n = (of_char c :: nat) in (32 \<le> n \<and> n < 127) \<or> (161 \<le> n \<and> n \<noteq> 173))"

definition repr_char :: "char \<Rightarrow> char \<Rightarrow> string" where
  "repr_char q c =
     (if c = q \<or> c = CHR 0x5C then [CHR 0x5C, c]
      else if c = CHR 0x0A then [CHR 0x5C, CHR ''n'']
      else if c = CHR 0x0D then [CHR 0x5C, CHR ''r'']
      else if c = CHR 0x09 then [CHR 0x5C, CHR ''t'']
      else if printable c then [c]
      else [CHR 0x5C, CHR ''x'', hex_char (of_char c div 16), hex_char (of_char c mod 16)])"

definition py_repr :: "string \<Rightarrow> string" where
  "py_repr s = (let q = (if CHR 0x27 \<in> set s \<and> CHR 0x22 \<notin> set s then CHR 0x22 else CHR 0x27)
     in q # concat (map (repr_char q) s) @ [q])"

section \<open>Regular expressions\<close>

text \<open>
  The expressions the sources search for, without look-around: a word boundary is written as a
  character class over a text padded with a line break at both ends.
\<close>

datatype rx = Nul | Eps | Cls "char \<Rightarrow> bool" | Cat rx rx | Alt rx rx | Rep rx

inductive_set iter :: "string set \<Rightarrow> string set" for A where
  iter_Nil: "[] \<in> iter A"
| iter_Cons: "u \<in> A \<Longrightarrow> v \<in> iter A \<Longrightarrow> u @ v \<in> iter A"

fun lang :: "rx \<Rightarrow> string set" where
  "lang Nul = {}"
| "lang Eps = {[]}"
| "lang (Cls p) = {[c] | c. p c}"
| "lang (Cat r q) = {u @ v | u v. u \<in> lang r \<and> v \<in> lang q}"
| "lang (Alt r q) = lang r \<union> lang q"
| "lang (Rep r) = iter (lang r)"

fun nullable :: "rx \<Rightarrow> bool" where
  "nullable Nul = False"
| "nullable Eps = True"
| "nullable (Cls p) = False"
| "nullable (Cat r q) = (nullable r \<and> nullable q)"
| "nullable (Alt r q) = (nullable r \<or> nullable q)"
| "nullable (Rep r) = True"

definition cat :: "rx \<Rightarrow> rx \<Rightarrow> rx" where
  "cat r q = (case r of Nul \<Rightarrow> Nul | Eps \<Rightarrow> q | _ \<Rightarrow> Cat r q)"

definition alt :: "rx \<Rightarrow> rx \<Rightarrow> rx" where
  "alt r q = (case r of Nul \<Rightarrow> q | _ \<Rightarrow> (case q of Nul \<Rightarrow> r | _ \<Rightarrow> Alt r q))"

lemma lang_cat [simp]: "lang (cat r q) = lang (Cat r q)"
  by (simp add: cat_def split: rx.splits)

lemma lang_alt [simp]: "lang (alt r q) = lang r \<union> lang q"
  by (simp add: alt_def split: rx.splits)

fun deriv :: "char \<Rightarrow> rx \<Rightarrow> rx" where
  "deriv c Nul = Nul"
| "deriv c Eps = Nul"
| "deriv c (Cls p) = (if p c then Eps else Nul)"
| "deriv c (Cat r q) = (if nullable r then alt (cat (deriv c r) q) (deriv c q) else cat (deriv c r) q)"
| "deriv c (Alt r q) = alt (deriv c r) (deriv c q)"
| "deriv c (Rep r) = cat (deriv c r) (Rep r)"

lemma nullable_iff: "nullable r \<longleftrightarrow> [] \<in> lang r"
  by (induction r) (auto intro: iter_Nil)

lemma iter_Cons_iff: "c # s \<in> iter A \<longleftrightarrow> (\<exists>u v. s = u @ v \<and> c # u \<in> A \<and> v \<in> iter A)"
proof
  assume "c # s \<in> iter A"
  then show "\<exists>u v. s = u @ v \<and> c # u \<in> A \<and> v \<in> iter A"
  proof (induction "c # s" arbitrary: c s rule: iter.induct)
    case (iter_Cons u v)
    then show ?case by (cases u) auto
  qed
next
  assume "\<exists>u v. s = u @ v \<and> c # u \<in> A \<and> v \<in> iter A"
  then show "c # s \<in> iter A" using iter.iter_Cons by (metis append_Cons)
qed

lemma cat_Cons_iff:
  "c # s \<in> {u @ v | u v. u \<in> A \<and> v \<in> B} \<longleftrightarrow>
     (\<exists>u v. s = u @ v \<and> c # u \<in> A \<and> v \<in> B) \<or> ([] \<in> A \<and> c # s \<in> B)"
  by (auto simp: Cons_eq_append_conv)

lemma deriv_iff: "s \<in> lang (deriv c r) \<longleftrightarrow> c # s \<in> lang r"
proof (induction r arbitrary: s)
  case (Cat r q)
  have "c # s \<in> lang (Cat r q) \<longleftrightarrow>
      (\<exists>u v. s = u @ v \<and> u \<in> lang (deriv c r) \<and> v \<in> lang q) \<or> (nullable r \<and> s \<in> lang (deriv c q))"
    unfolding lang.simps cat_Cons_iff Cat nullable_iff ..
  then show ?case by auto
next
  case (Rep r)
  show ?case unfolding deriv.simps lang_cat lang.simps iter_Cons_iff by (auto simp: Rep)
qed auto

text \<open>\<open>re.match\<close> of an expression at the start of a text, and \<open>re.search\<close> anywhere in it.\<close>

fun match_prefix :: "rx \<Rightarrow> string \<Rightarrow> bool" where
  "match_prefix r [] = nullable r"
| "match_prefix r (c # s) = (nullable r \<or> match_prefix (deriv c r) s)"

fun full_match :: "rx \<Rightarrow> string \<Rightarrow> bool" where
  "full_match r [] = nullable r"
| "full_match r (c # s) = full_match (deriv c r) s"

fun rx_search :: "rx \<Rightarrow> string \<Rightarrow> bool" where
  "rx_search r [] = nullable r"
| "rx_search r (c # s) = (match_prefix r (c # s) \<or> rx_search r s)"

lemma full_match_iff: "full_match r s \<longleftrightarrow> s \<in> lang r"
  by (induction s arbitrary: r) (simp_all add: nullable_iff deriv_iff)

lemma match_prefix_iff: "match_prefix r s \<longleftrightarrow> (\<exists>u v. s = u @ v \<and> u \<in> lang r)"
proof (induction s arbitrary: r)
  case (Cons c s)
  have "(\<exists>u v. c # s = u @ v \<and> u \<in> lang r) \<longleftrightarrow> [] \<in> lang r \<or> (\<exists>u v. s = u @ v \<and> c # u \<in> lang r)"
    by (auto simp: Cons_eq_append_conv)
  with Cons show ?case by (simp add: nullable_iff deriv_iff)
qed (simp add: nullable_iff)

lemma rx_search_iff: "rx_search r s \<longleftrightarrow> (\<exists>u v w. s = u @ v @ w \<and> v \<in> lang r)"
proof (induction s)
  case Nil
  then show ?case by (simp add: nullable_iff)
next
  case (Cons c s)
  have "(\<exists>u v w. c # s = u @ v @ w \<and> v \<in> lang r) \<longleftrightarrow>
      (\<exists>v w. c # s = v @ w \<and> v \<in> lang r) \<or> (\<exists>u v w. s = u @ v @ w \<and> v \<in> lang r)"
  proof
    assume "\<exists>u v w. c # s = u @ v @ w \<and> v \<in> lang r"
    then obtain u v w where h: "c # s = u @ v @ w" "v \<in> lang r" by blast
    then show "(\<exists>v w. c # s = v @ w \<and> v \<in> lang r) \<or> (\<exists>u v w. s = u @ v @ w \<and> v \<in> lang r)"
      by (cases u) auto
  next
    assume "(\<exists>v w. c # s = v @ w \<and> v \<in> lang r) \<or> (\<exists>u v w. s = u @ v @ w \<and> v \<in> lang r)"
    then show "\<exists>u v w. c # s = u @ v @ w \<and> v \<in> lang r" by (metis append_Cons append_Nil)
  qed
  with Cons show ?case by (simp only: rx_search.simps match_prefix_iff)
qed

text \<open>Building blocks: a literal, one of several, an option, one or more, a counted repetition.\<close>

fun lit :: "string \<Rightarrow> rx" where
  "lit [] = Eps"
| "lit (c # s) = Cat (Cls (\<lambda>d. d = c)) (lit s)"

definition one_of :: "rx list \<Rightarrow> rx" where
  "one_of rs = foldr Alt rs Nul"

definition seq_of :: "rx list \<Rightarrow> rx" where
  "seq_of rs = foldr Cat rs Eps"

definition maybe :: "rx \<Rightarrow> rx" where
  "maybe r = Alt Eps r"

definition some_of :: "rx \<Rightarrow> rx" where
  "some_of r = Cat r (Rep r)"

lemma lang_lit [simp]: "lang (lit s) = {s}"
  by (induction s) auto

lemma lang_one_of: "lang (one_of rs) = (\<Union>r \<in> set rs. lang r)"
  by (induction rs) (simp_all add: one_of_def)

definition word_char :: "char \<Rightarrow> bool" where
  "word_char c = (let n = char_nat c in (48 \<le> n \<and> n \<le> 57) \<or> (65 \<le> n \<and> n \<le> 90) \<or> n = 95 \<or> (97 \<le> n \<and> n \<le> 122) \<or>
     n = 170 \<or> n = 178 \<or> n = 179 \<or> n = 181 \<or> n = 185 \<or> n = 186 \<or> (188 \<le> n \<and> n \<le> 190) \<or> (192 \<le> n \<and> n \<noteq> 215 \<and> n \<noteq> 247))"

definition digit :: "char \<Rightarrow> bool" where
  "digit c = (48 \<le> char_nat c \<and> char_nat c \<le> 57)"

abbreviation "rx_space \<equiv> Cls is_space"
abbreviation "rx_digits \<equiv> some_of (Cls digit)"
abbreviation "rx_nonword \<equiv> Cls (\<lambda>c. \<not> word_char c)"

text \<open>A text between two line breaks, for expressions that look at what surrounds a word.\<close>

definition padded :: "string \<Rightarrow> string" where
  "padded s = CHR 0x0A # s @ [CHR 0x0A]"

end
