(* ===== verification/SimProtocol.thy ===== *)
theory SimProtocol
  imports RcpEnvelope PyText
begin

text \<open>
  \<open>protocol/simulation.py\<close>: the vocabulary shared by the MCP server and the simulation-side client. The
  lifecycle states and their phases, the control verbs and signals, the advertised capabilities, the
  validators that keep wire values inert, and the payload with its hash, id and provenance.
\<close>

section \<open>Lifecycle, phases and signals\<close>

datatype simulation_state =
    SimAccepted | SimSubmitted | SimWorkflowFinished | SimJobRunning | SimJobFinished | SimJobFailed
  | SimStepFinished | SimResultsReady | SimFailed | SimCheckpoint | SimCancelled

fun state_value :: "simulation_state \<Rightarrow> string" where
  "state_value SimAccepted = ''accepted''"
| "state_value SimSubmitted = ''simulation.submitted''"
| "state_value SimWorkflowFinished = ''workflow.finished''"
| "state_value SimJobRunning = ''simulation.job_running''"
| "state_value SimJobFinished = ''simulation.job_finished''"
| "state_value SimJobFailed = ''simulation.job_failed''"
| "state_value SimStepFinished = ''simulation.step_finished''"
| "state_value SimResultsReady = ''results.ready''"
| "state_value SimFailed = ''simulation.failed''"
| "state_value SimCheckpoint = ''simulation.checkpoint''"
| "state_value SimCancelled = ''simulation.cancelled''"

definition all_states :: "simulation_state list" where
  "all_states = [SimAccepted, SimSubmitted, SimWorkflowFinished, SimJobRunning, SimJobFinished, SimJobFailed,
     SimStepFinished, SimResultsReady, SimFailed, SimCheckpoint, SimCancelled]"

definition parse_state :: "string \<Rightarrow> simulation_state option" where
  "parse_state s = map_of (map (\<lambda>st. (state_value st, st)) all_states) s"

lemma parse_state_value [simp]: "parse_state (state_value st) = Some st"
  by (cases st) (simp_all add: parse_state_def all_states_def)

datatype simulation_op = OpCheckpoint | OpStop | OpCheckpointAndStop | OpCancel

fun op_value :: "simulation_op \<Rightarrow> string" where
  "op_value OpCheckpoint = ''checkpoint''"
| "op_value OpStop = ''stop''"
| "op_value OpCheckpointAndStop = ''checkpoint_and_stop''"
| "op_value OpCancel = ''cancel''"

definition all_ops :: "simulation_op list" where
  "all_ops = [OpCheckpoint, OpStop, OpCheckpointAndStop, OpCancel]"

definition parse_op :: "string \<Rightarrow> simulation_op option" where
  "parse_op s = map_of (map (\<lambda>p. (op_value p, p)) all_ops) s"

lemma parse_op_value [simp]: "parse_op (op_value p) = Some p"
  by (cases p) (simp_all add: parse_op_def all_ops_def)

fun control_signal :: "simulation_op \<Rightarrow> string option" where
  "control_signal OpCheckpoint = Some ''USR1''"
| "control_signal OpStop = Some ''TERM''"
| "control_signal OpCheckpointAndStop = Some ''ALRM''"
| "control_signal OpCancel = None"

definition control_requires_running :: "simulation_op list" where
  "control_requires_running = [OpCheckpoint, OpStop, OpCheckpointAndStop]"

datatype result_op = RDescribe | RSlice | RStats | RImage | RExport | RRead | RAnalyze | RCompute | RPlugin

fun result_op_value :: "result_op \<Rightarrow> string" where
  "result_op_value RDescribe = ''describe''"
| "result_op_value RSlice = ''slice''"
| "result_op_value RStats = ''stats''"
| "result_op_value RImage = ''image''"
| "result_op_value RExport = ''export''"
| "result_op_value RRead = ''read''"
| "result_op_value RAnalyze = ''analyze''"
| "result_op_value RCompute = ''compute''"
| "result_op_value RPlugin = ''plugin''"

definition all_result_ops :: "result_op list" where
  "all_result_ops = [RDescribe, RSlice, RStats, RImage, RExport, RRead, RAnalyze, RCompute, RPlugin]"

definition parse_result_op :: "string \<Rightarrow> result_op option" where
  "parse_result_op s = map_of (map (\<lambda>p. (result_op_value p, p)) all_result_ops) s"

lemma parse_result_op_value [simp]: "parse_result_op (result_op_value p) = Some p"
  by (cases p) (simp_all add: parse_result_op_def all_result_ops_def)

text \<open>The request and answer types of the exchange.\<close>

datatype simulation_type =
    TSubmit | TSubmitAck | TEvent | TStatus | TStatusAck | TLogs | TLogsAck | TControl | TControlAck | TResult | TResultAck

fun type_value :: "simulation_type \<Rightarrow> string" where
  "type_value TSubmit = ''rcp.simulation_submit''"
| "type_value TSubmitAck = ''rcp.simulation_submit_ack''"
| "type_value TEvent = ''rcp.simulation_event''"
| "type_value TStatus = ''rcp.status_request''"
| "type_value TStatusAck = ''rcp.status_ack''"
| "type_value TLogs = ''rcp.logs_request''"
| "type_value TLogsAck = ''rcp.logs_ack''"
| "type_value TControl = ''rcp.control_request''"
| "type_value TControlAck = ''rcp.control_ack''"
| "type_value TResult = ''rcp.result_request''"
| "type_value TResultAck = ''rcp.result_ack''"

datatype simulation_phase = PhBuilding | PhQueued | PhRunning | PhDone | PhFailed | PhCancelled

fun phase_value :: "simulation_phase \<Rightarrow> string" where
  "phase_value PhBuilding = ''building''"
| "phase_value PhQueued = ''queued''"
| "phase_value PhRunning = ''running''"
| "phase_value PhDone = ''done''"
| "phase_value PhFailed = ''failed''"
| "phase_value PhCancelled = ''cancelled''"

definition phase_by_state :: "(string \<times> simulation_phase) list" where
  "phase_by_state = [(state_value SimResultsReady, PhDone), (state_value SimJobFinished, PhDone),
     (state_value SimFailed, PhFailed), (state_value SimJobFailed, PhFailed), (state_value SimCancelled, PhCancelled),
     (state_value SimJobRunning, PhRunning), (state_value SimStepFinished, PhRunning), (state_value SimCheckpoint, PhRunning)]"

definition simulation_phase :: "string \<Rightarrow> int option \<Rightarrow> string" where
  "simulation_phase state job_id = (case map_of phase_by_state state of
     Some ph \<Rightarrow> phase_value ph
   | None \<Rightarrow> (if job_id \<noteq> None then phase_value PhQueued else phase_value PhBuilding))"

text \<open>\<open>signal.Signals(n).name\<close> on Linux; the numbers 32, 33 and beyond 64 name no signal.\<close>

definition signal_names :: "(int \<times> string) list" where
  "signal_names = [(1, ''SIGHUP''), (2, ''SIGINT''), (3, ''SIGQUIT''), (4, ''SIGILL''), (5, ''SIGTRAP''), (6, ''SIGABRT''),
     (7, ''SIGBUS''), (8, ''SIGFPE''), (9, ''SIGKILL''), (10, ''SIGUSR1''), (11, ''SIGSEGV''), (12, ''SIGUSR2''), (13, ''SIGPIPE''),
     (14, ''SIGALRM''), (15, ''SIGTERM''), (16, ''SIGSTKFLT''), (17, ''SIGCHLD''), (18, ''SIGCONT''), (19, ''SIGSTOP''),
     (20, ''SIGTSTP''), (21, ''SIGTTIN''), (22, ''SIGTTOU''), (23, ''SIGURG''), (24, ''SIGXCPU''), (25, ''SIGXFSZ''),
     (26, ''SIGVTALRM''), (27, ''SIGPROF''), (28, ''SIGWINCH''), (29, ''SIGIO''), (30, ''SIGPWR''), (31, ''SIGSYS''),
     (34, ''SIGRTMIN''), (64, ''SIGRTMAX'')]"

definition signal_from_exit_code :: "int option \<Rightarrow> string option" where
  "signal_from_exit_code exit_code = (case exit_code of
     None \<Rightarrow> None
   | Some code \<Rightarrow>
       if code \<le> 128 then None
       else (let status = (if code > 255 then drop_bit 8 code else code)
         in if status \<le> 128 then None
            else (let signum = status - 128 in case map_of signal_names signum of
                    Some name \<Rightarrow> Some name | None \<Rightarrow> Some (''signal '' @ show_int signum))))"

text \<open>Both encodings of a signal death name the same signal, and a plain exit status names none.\<close>

lemma signal_both_encodings:
  assumes "0 < n" "n \<le> 127"
  shows "signal_from_exit_code (Some ((128 + n) * 256)) = signal_from_exit_code (Some (128 + n))"
    "signal_from_exit_code (Some (128 + n)) \<noteq> None"
  using assms by (simp_all add: signal_from_exit_code_def Let_def drop_bit_eq_div split: option.splits)

lemma signal_none: "signal_from_exit_code (Some c) = None \<longleftrightarrow> c \<le> 128 \<or> (255 < c \<and> c < 129 * 256)"
proof -
  have "c div 256 \<le> 128 \<longleftrightarrow> c < 129 * 256" by presburger
  then show ?thesis by (simp add: signal_from_exit_code_def Let_def drop_bit_eq_div split: option.splits)
qed

section \<open>Capabilities\<close>

text \<open>\<open>None\<close> stands for a set that was not advertised. The dump of a frozenset lists it in the order given here.\<close>

record capabilities =
  cc_client_version :: string
  cc_result_ops :: "string list option"
  cc_control_ops :: "string list option"
  cc_supported_types :: "string list option"

definition current_capabilities :: "string \<Rightarrow> capabilities" where
  "current_capabilities version = \<lparr>cc_client_version = version, cc_result_ops = Some (map result_op_value all_result_ops),
     cc_control_ops = Some (map op_value all_ops),
     cc_supported_types = Some (map type_value [TSubmit, TStatus, TLogs, TControl, TResult])\<rparr>"

definition supports_result_op :: "capabilities \<Rightarrow> string \<Rightarrow> bool" where
  "supports_result_op c op = (case cc_result_ops c of None \<Rightarrow> True | Some ops \<Rightarrow> op \<in> set ops)"

definition supports_control_op :: "capabilities \<Rightarrow> string \<Rightarrow> bool" where
  "supports_control_op c op = (case cc_control_ops c of None \<Rightarrow> True | Some ops \<Rightarrow> op \<in> set ops)"

definition supports_type :: "capabilities \<Rightarrow> string \<Rightarrow> bool" where
  "supports_type c ty = (ty = '''' \<or> (case cc_supported_types c of None \<Rightarrow> True | Some tys \<Rightarrow> ty \<in> set tys))"

datatype requested_op = NoOp | AResultOp result_op | AControlOp simulation_op

definition unsupported :: "capabilities \<Rightarrow> requested_op \<Rightarrow> string \<Rightarrow> string option" where
  "unsupported c op ty =
     (if ty \<noteq> '''' \<and> \<not> supports_type c ty then Some ty
      else (case op of
          AResultOp p \<Rightarrow> if supports_result_op c (result_op_value p) then None else Some (result_op_value p)
        | AControlOp p \<Rightarrow> if supports_control_op c (op_value p) then None else Some (op_value p)
        | NoOp \<Rightarrow> None))"

definition client_capability_mismatch :: "capabilities \<Rightarrow> string \<Rightarrow> string \<Rightarrow> string" where
  "client_capability_mismatch c op ty =
     (let missing = (if op \<noteq> '''' then ''operation '' @ py_repr op
                     else if ty \<noteq> '''' then ''request type '' @ py_repr ty else ''this request'');
          version = (if cc_client_version c \<noteq> '''' then '' (client version '' @ cc_client_version c @ '')'' else '''')
      in ''cluster client does not support '' @ missing @ version @
         '': the deployed simclient did not advertise this capability; check for a version drift between the client and the MCP server and update the side that is behind'')"

text \<open>A client never reports one of its own operations missing, and what is not advertised never blocks.\<close>

lemma current_supports_ops:
  "supports_result_op (current_capabilities v) s \<longleftrightarrow> parse_result_op s \<noteq> None"
  "supports_control_op (current_capabilities v) s \<longleftrightarrow> parse_op s \<noteq> None"
  by (auto simp: supports_result_op_def supports_control_op_def current_capabilities_def parse_result_op_def
      parse_op_def map_of_eq_None_iff image_iff)

lemma current_supports: "unsupported (current_capabilities v) op '''' = None"
  by (auto simp: unsupported_def current_supports_ops split: requested_op.splits)

lemma unknown_never_blocks:
  "unsupported \<lparr>cc_client_version = v, cc_result_ops = None, cc_control_ops = None, cc_supported_types = None\<rparr> op ty = None"
  by (auto simp: unsupported_def supports_result_op_def supports_control_op_def supports_type_def split: requested_op.splits)

section \<open>Inert wire values\<close>

definition alnum :: "char \<Rightarrow> bool" where
  "alnum c = (let n = (of_char c :: nat) in (48 \<le> n \<and> n \<le> 57) \<or> (65 \<le> n \<and> n \<le> 90) \<or> (97 \<le> n \<and> n \<le> 122))"

definition path_char :: "char \<Rightarrow> bool" where
  "path_char c = (alnum c \<or> c \<in> set ''._/-'')"

definition name_char :: "char \<Rightarrow> bool" where
  "name_char c = (alnum c \<or> c = CHR ''_'')"

text \<open>\<open>re.match\<close> of \<open>^[..]+$\<close>: the dollar also matches before a newline that ends the string.\<close>

definition dollar_match :: "(char \<Rightarrow> bool) \<Rightarrow> string \<Rightarrow> bool" where
  "dollar_match p s = (let t = (if s \<noteq> [] \<and> last s = CHR 0x0A then butlast s else s) in t \<noteq> [] \<and> list_all p t)"

definition cfg_match :: "string \<Rightarrow> bool" where
  "cfg_match s = (length s > 4 \<and> drop (length s - 4) s = ''.cfg'' \<and> list_all path_char (take (length s - 4) s))"

definition has_dotdot :: "string \<Rightarrow> bool" where
  "has_dotdot s = (''..'' \<in> set (split_on CHR ''/'' s))"

definition valid_cfg_file :: "string \<Rightarrow> bool" where
  "valid_cfg_file s = (cfg_match s \<and> \<not> has_dotdot s \<and> \<not> starts_with ''/'' s)"

definition overwrite_char :: "char \<Rightarrow> bool" where
  "overwrite_char c = (alnum c \<or> c \<in> set ''._:/+-'')"

definition valid_overwrite_var :: "string \<Rightarrow> bool" where
  "valid_overwrite_var s = (let name = takeWhile (\<lambda>c. c \<noteq> CHR ''='') s; rest = dropWhile (\<lambda>c. c \<noteq> CHR ''='') s
     in name \<noteq> [] \<and> name_char (hd name) \<and> \<not> is_digit (hd name) \<and> list_all name_char name \<and>
        rest \<noteq> [] \<and> list_all overwrite_char (tl rest))"

definition valid_result_path :: "string \<Rightarrow> bool" where
  "valid_result_path s = (\<not> starts_with ''/'' s \<and> dollar_match path_char s \<and> \<not> has_dotdot s)"

definition valid_species_name :: "string \<Rightarrow> bool" where
  "valid_species_name s = dollar_match name_char s"

definition shell_meta :: "char \<Rightarrow> bool" where
  "shell_meta c = (c \<in> set '' $`;()<>|&*?~%!#{}[]'' \<or> c = CHR 0x22 \<or> c = CHR 0x27 \<or> c = CHR 0x5C \<or> c = CHR 0x0A \<or> c = CHR 0x09)"

lemma alnum_no_meta: "alnum c \<Longrightarrow> \<not> shell_meta c"
  by (auto simp: alnum_def shell_meta_def Let_def)

lemma char_classes_no_meta:
  "path_char c \<Longrightarrow> \<not> shell_meta c" "name_char c \<Longrightarrow> \<not> shell_meta c" "overwrite_char c \<Longrightarrow> \<not> shell_meta c"
  by (auto simp: path_char_def name_char_def overwrite_char_def dest: alnum_no_meta) (simp_all add: shell_meta_def)

lemma cfg_inert: "valid_cfg_file s \<Longrightarrow> \<forall>c \<in> set s. \<not> shell_meta c"
proof -
  assume "valid_cfg_file s"
  then have h: "drop (length s - 4) s = ''.cfg''" "list_all path_char (take (length s - 4) s)"
    by (auto simp: valid_cfg_file_def cfg_match_def)
  have "set s = set (take (length s - 4) s) \<union> set (drop (length s - 4) s)"
    by (metis append_take_drop_id set_append)
  then have s: "set s = set (take (length s - 4) s) \<union> set ''.cfg''" using h(1) by simp
  have "\<forall>c \<in> set ''.cfg''. path_char c" by code_simp
  with s h(2) show ?thesis by (auto simp: list_all_iff dest: char_classes_no_meta)
qed

lemma overwrite_inert: "valid_overwrite_var s \<Longrightarrow> \<forall>c \<in> set s. \<not> shell_meta c"
proof -
  assume "valid_overwrite_var s"
  then have n: "list_all name_char (takeWhile (\<lambda>c. c \<noteq> CHR ''='') s)"
    and r: "dropWhile (\<lambda>c. c \<noteq> CHR ''='') s \<noteq> []" "list_all overwrite_char (tl (dropWhile (\<lambda>c. c \<noteq> CHR ''='') s))"
    by (auto simp: valid_overwrite_var_def Let_def)
  have "s = takeWhile (\<lambda>c. c \<noteq> CHR ''='') s @ CHR ''='' # tl (dropWhile (\<lambda>c. c \<noteq> CHR ''='') s)"
    using r(1) hd_dropWhile [OF r(1)] by (metis (full_types) list.collapse takeWhile_dropWhile_id)
  then have "set s = set (takeWhile (\<lambda>c. c \<noteq> CHR ''='') s) \<union> insert CHR ''='' (set (tl (dropWhile (\<lambda>c. c \<noteq> CHR ''='') s)))"
    by (metis list.simps(15) set_append)
  moreover have "\<not> shell_meta CHR ''=''" by code_simp
  ultimately show ?thesis using n r(2) by (auto simp: list_all_iff dest: char_classes_no_meta)
qed

section \<open>Libraries the protocol uses\<close>

text \<open>
  SHA-256, float \<open>repr\<close>, \<open>str\<close> of a container, pydantic's coercions, its JSON serializer and error
  texts, and \<open>json.loads\<close> (with the text of its exception).
\<close>

record sim_lib =
  sl_sha :: "string \<Rightarrow> string"
  sl_frepr :: "pyfloat \<Rightarrow> string"
  sl_str_other :: "json \<Rightarrow> string"
  sl_lax_int :: "json \<Rightarrow> int option"
  sl_lax_bool :: "json \<Rightarrow> bool option"
  sl_dump_json :: "json \<Rightarrow> string"
  sl_loads :: "string \<Rightarrow> string + json"
  sl_invalid :: "string \<Rightarrow> json \<Rightarrow> string"

definition py_str :: "sim_lib \<Rightarrow> json \<Rightarrow> string" where
  "py_str L v = (case v of JStr s \<Rightarrow> s | JInt i \<Rightarrow> show_int i | JNull \<Rightarrow> ''None''
     | JBool b \<Rightarrow> (if b then ''True'' else ''False'') | JFloat f \<Rightarrow> sl_frepr L f | _ \<Rightarrow> sl_str_other L v)"

text \<open>\<open>str(d.get(k, default))\<close>.\<close>

definition get_str :: "sim_lib \<Rightarrow> (string \<times> json) list \<Rightarrow> string \<Rightarrow> string \<Rightarrow> string" where
  "get_str L d k dflt = (case map_of d k of None \<Rightarrow> dflt | Some v \<Rightarrow> py_str L v)"

lemma get_str_hit [simp]: "map_of d k = Some (JStr s) \<Longrightarrow> get_str L d k dflt = s"
  by (simp add: get_str_def py_str_def)

section \<open>Submit parameters\<close>

record submit_params =
  sp_build_jobs :: "int option"
  sp_build_cmake :: "string option"
  sp_build_preset :: "int option"
  sp_build_force :: bool
  sp_cfg_file :: "string option"
  sp_overwrite_vars :: "string list option"

definition default_params :: submit_params where
  "default_params = \<lparr>sp_build_jobs = None, sp_build_cmake = None, sp_build_preset = None, sp_build_force = False,
     sp_cfg_file = None, sp_overwrite_vars = None\<rparr>"

definition opt_field :: "(json \<Rightarrow> 'a option) \<Rightarrow> json \<Rightarrow> 'a option option" where
  "opt_field c v = (case v of JNull \<Rightarrow> Some None | _ \<Rightarrow> map_option Some (c v))"

definition strs_field :: "json \<Rightarrow> string list option" where
  "strs_field v = (case v of JList vs \<Rightarrow> all_some (map str_field vs) | _ \<Rightarrow> None)"

definition params_fields :: "string list" where
  "params_fields = [''build_jobs'', ''build_cmake'', ''build_preset'', ''build_force'', ''cfg_file'', ''overwrite_vars'']"

text \<open>The two field validators.\<close>

definition params_ok :: "submit_params \<Rightarrow> bool" where
  "params_ok p = ((case sp_cfg_file p of None \<Rightarrow> True | Some s \<Rightarrow> valid_cfg_file s) \<and>
     (case sp_overwrite_vars p of None \<Rightarrow> True | Some vs \<Rightarrow> list_all valid_overwrite_var vs))"

definition validate_params :: "sim_lib \<Rightarrow> (string \<times> json) list \<Rightarrow> submit_params option" where
  "validate_params L kvs =
     (if \<not> list_all (\<lambda>k. k \<in> set params_fields) (keys kvs) then None
      else case (defaulted kvs ''build_jobs'' (opt_field (sl_lax_int L)) None,
                 defaulted kvs ''build_cmake'' (opt_field str_field) None,
                 defaulted kvs ''build_preset'' (opt_field (sl_lax_int L)) None,
                 defaulted kvs ''build_force'' (sl_lax_bool L) False,
                 defaulted kvs ''cfg_file'' (opt_field str_field) None,
                 defaulted kvs ''overwrite_vars'' (opt_field strs_field) None) of
        (Some j, Some cm, Some pr, Some fo, Some cf, Some ov) \<Rightarrow>
          (let p = \<lparr>sp_build_jobs = j, sp_build_cmake = cm, sp_build_preset = pr, sp_build_force = fo,
              sp_cfg_file = cf, sp_overwrite_vars = ov\<rparr>
           in if params_ok p then Some p else None)
      | _ \<Rightarrow> None)"

lemma validate_params_ok: "validate_params L kvs = Some p \<Longrightarrow> params_ok p"
  by (auto simp: validate_params_def Let_def split: if_splits option.splits)

definition opt_int :: "int option \<Rightarrow> json" where
  "opt_int x = (case x of None \<Rightarrow> JNull | Some i \<Rightarrow> JInt i)"

definition opt_strs :: "string list option \<Rightarrow> json" where
  "opt_strs x = (case x of None \<Rightarrow> JNull | Some vs \<Rightarrow> JList (map JStr vs))"

definition dump_params :: "submit_params \<Rightarrow> (string \<times> json) list" where
  "dump_params p = [(''build_jobs'', opt_int (sp_build_jobs p)), (''build_cmake'', opt_str (sp_build_cmake p)),
     (''build_preset'', opt_int (sp_build_preset p)), (''build_force'', JBool (sp_build_force p)),
     (''cfg_file'', opt_str (sp_cfg_file p)), (''overwrite_vars'', opt_strs (sp_overwrite_vars p))]"

lemma validate_dump_params:
  assumes "\<And>i. sl_lax_int L (JInt i) = Some i" "\<And>b. sl_lax_bool L (JBool b) = Some b" "params_ok p"
  shows "validate_params L (dump_params p) = Some p"
proof -
  have i: "opt_field (sl_lax_int L) (opt_int x) = Some x" for x
    using assms(1) by (cases x) (simp_all add: opt_field_def opt_int_def)
  have s: "opt_field str_field (opt_str x) = Some x" for x
    by (cases x) (simp_all add: opt_field_def opt_str_def str_field_def)
  have "all_some (map (str_field \<circ> JStr) vs) = Some vs" for vs
    by (induction vs) (simp_all add: str_field_def)
  then have v: "opt_field strs_field (opt_strs x) = Some x" for x
    by (cases x) (simp_all add: opt_field_def opt_strs_def strs_field_def)
  show ?thesis using assms(2,3)
    by (cases p) (simp add: validate_params_def params_fields_def dump_params_def defaulted_def i s v Let_def)
qed

text \<open>\<open>picongpu_flags\<close>: the aliases the runner understands, unset options left out.\<close>

definition some_entry :: "string \<Rightarrow> ('a \<Rightarrow> json) \<Rightarrow> 'a option \<Rightarrow> (string \<times> json) list" where
  "some_entry k f x = (case x of None \<Rightarrow> [] | Some a \<Rightarrow> [(k, f a)])"

definition picongpu_flags :: "submit_params \<Rightarrow> (string \<times> json) list" where
  "picongpu_flags p = some_entry ''jobs'' JInt (sp_build_jobs p) @ some_entry ''cmake'' JStr (sp_build_cmake p) @
     some_entry ''preset'' JInt (sp_build_preset p) @ some_entry ''cfg'' JStr (sp_cfg_file p) @
     some_entry ''o'' (\<lambda>vs. JList (map JStr vs)) (sp_overwrite_vars p) @
     (if sp_build_force p then [(''force'', JBool True)] else [])"

section \<open>The payload\<close>

definition wire_format_version :: int where
  "wire_format_version = 1"

record sim_payload =
  pl_wire_format_version :: int
  pl_picongpu_version :: string
  pl_picongpu_revision :: string
  pl_schema_hash :: string
  pl_simulation :: "(string \<times> json) list"

definition payload_hash :: "sim_lib \<Rightarrow> sim_payload \<Rightarrow> string" where
  "payload_hash L p = sl_sha L (canonical_bytes (sl_frepr L) (JObj (pl_simulation p)))"

definition payload_sim_id :: "sim_lib \<Rightarrow> sim_payload \<Rightarrow> string" where
  "payload_sim_id L p = take 8 (payload_hash L p)"

definition check_allowlist :: "sim_payload \<Rightarrow> string option" where
  "check_allowlist p =
     (let ks = remdups (keys (pl_simulation p)); extra = filter (\<lambda>k. k \<noteq> ''sim'') ks;
          parts = (if extra \<noteq> [] then [''unsupported field(s): '' @ join_str '', '' (sort extra)] else []) @
                  (if ''sim'' \<notin> set ks then [''missing field(s): sim''] else [])
      in if parts = [] then None else Some (join_str ''; '' parts))"

lemma allowlist_iff: "distinct (keys (pl_simulation p)) \<Longrightarrow> check_allowlist p = None \<longleftrightarrow> (\<exists>v. pl_simulation p = [(''sim'', v)])"
proof -
  assume d: "distinct (keys (pl_simulation p))"
  have "check_allowlist p = None \<longleftrightarrow> filter (\<lambda>k. k \<noteq> ''sim'') (remdups (keys (pl_simulation p))) = [] \<and> ''sim'' \<in> set (keys (pl_simulation p))"
    by (simp add: check_allowlist_def Let_def)
  also have "\<dots> \<longleftrightarrow> set (keys (pl_simulation p)) = {''sim''}" by (auto simp: filter_empty_conv)
  also have "\<dots> \<longleftrightarrow> keys (pl_simulation p) = [''sim'']"
  proof
    assume "set (keys (pl_simulation p)) = {''sim''}"
    with d show "keys (pl_simulation p) = [''sim'']"
      by (cases "keys (pl_simulation p)"; cases "tl (keys (pl_simulation p))") auto
  qed simp
  also have "\<dots> \<longleftrightarrow> (\<exists>v. pl_simulation p = [(''sim'', v)])" by (auto simp: map_eq_Cons_conv)
  finally show ?thesis .
qed

definition payload_counts :: "sim_lib \<Rightarrow> sim_payload \<Rightarrow> (string \<times> json) list" where
  "payload_counts L p = [(''wire_format_version'', JInt (pl_wire_format_version p)), (''picongpu_version'', JStr (pl_picongpu_version p)),
     (''picongpu_revision'', JStr (pl_picongpu_revision p)), (''schema_hash'', JStr (pl_schema_hash p)),
     (''sim_id'', JStr (payload_sim_id L p)), (''payload_hash'', JStr (payload_hash L p))]"

definition spec_from_runner_dump :: "(string \<times> json) list \<Rightarrow> string + (string \<times> json) list" where
  "spec_from_runner_dump dump = (case map_of dump ''sim'' of
     None \<Rightarrow> Inl ''runner dump has no 'sim' field'' | Some v \<Rightarrow> Inr [(''sim'', v)])"

definition build_payload :: "string \<Rightarrow> string \<Rightarrow> string \<Rightarrow> (string \<times> json) list \<Rightarrow> int \<Rightarrow> string + sim_payload" where
  "build_payload version revision schema dump wfv = bind_res (spec_from_runner_dump dump) (\<lambda>spec.
     Inr \<lparr>pl_wire_format_version = wfv, pl_picongpu_version = version, pl_picongpu_revision = revision,
       pl_schema_hash = schema, pl_simulation = spec\<rparr>)"

text \<open>The serialised fields (computed ones excluded), and \<open>model_validate\<close> of them.\<close>

definition dump_payload :: "sim_payload \<Rightarrow> json" where
  "dump_payload p = JObj [(''wire_format_version'', JInt (pl_wire_format_version p)), (''picongpu_version'', JStr (pl_picongpu_version p)),
     (''picongpu_revision'', JStr (pl_picongpu_revision p)), (''schema_hash'', JStr (pl_schema_hash p)),
     (''simulation'', JObj (pl_simulation p))]"

definition payload_fields :: "string list" where
  "payload_fields = [''wire_format_version'', ''picongpu_version'', ''picongpu_revision'', ''schema_hash'', ''simulation'']"

definition validate_payload :: "sim_lib \<Rightarrow> (string \<times> json) list \<Rightarrow> sim_payload option" where
  "validate_payload L kvs =
     (if \<not> list_all (\<lambda>k. k \<in> set payload_fields) (keys kvs) then None
      else case (required kvs ''wire_format_version'' (sl_lax_int L), required kvs ''picongpu_version'' str_field,
                 defaulted kvs ''picongpu_revision'' str_field '''', required kvs ''schema_hash'' str_field,
                 required kvs ''simulation'' obj_field) of
        (Some w, Some v, Some r, Some h, Some s) \<Rightarrow> Some \<lparr>pl_wire_format_version = w, pl_picongpu_version = v,
           pl_picongpu_revision = r, pl_schema_hash = h, pl_simulation = s\<rparr>
      | _ \<Rightarrow> None)"

lemma validate_dump_payload:
  assumes "\<And>i. sl_lax_int L (JInt i) = Some i"
  shows "\<exists>kvs. dump_payload p = JObj kvs \<and> validate_payload L kvs = Some p"
  using assms by (cases p) (simp add: dump_payload_def validate_payload_def payload_fields_def required_def defaulted_def
      str_field_def obj_field_def)

record provenance =
  pv_picongpu_version :: string
  pv_schema_hash :: string
  pv_picongpu_revision :: string

definition provenance_mismatches :: "sim_payload \<Rightarrow> provenance \<Rightarrow> string list" where
  "provenance_mismatches p l =
     (if pl_wire_format_version p \<noteq> wire_format_version
      then [''wire_format_version '' @ show_int (pl_wire_format_version p) @ '' != '' @ show_int wire_format_version] else []) @
     (if pv_picongpu_version l \<noteq> '''' \<and> pl_picongpu_version p \<noteq> pv_picongpu_version l
      then [''picongpu_version '' @ py_repr (pl_picongpu_version p) @ '' != '' @ py_repr (pv_picongpu_version l)] else []) @
     (if pv_schema_hash l \<noteq> '''' \<and> pl_schema_hash p \<noteq> pv_schema_hash l then [''schema_hash differs''] else []) @
     (if pl_picongpu_revision p \<noteq> '''' \<and> pv_picongpu_revision l \<noteq> '''' \<and> pl_picongpu_revision p \<noteq> pv_picongpu_revision l
      then [''picongpu_revision '' @ take 12 (pl_picongpu_revision p) @ '' != '' @ take 12 (pv_picongpu_revision l)] else [])"

lemma no_mismatch_iff: "provenance_mismatches p l = [] \<longleftrightarrow> pl_wire_format_version p = wire_format_version \<and>
    pv_picongpu_version l \<in> {'''', pl_picongpu_version p} \<and> pv_schema_hash l \<in> {'''', pl_schema_hash p} \<and>
    (pl_picongpu_revision p = '''' \<or> pv_picongpu_revision l \<in> {'''', pl_picongpu_revision p})"
  by (auto simp: provenance_mismatches_def)

section \<open>Size on the wire\<close>

definition max_inline_payload_bytes :: nat where
  "max_inline_payload_bytes = 48 * 1024"

definition envelope_allowance_bytes :: nat where
  "envelope_allowance_bytes = 4 * 1024"

definition payload_body :: "sim_lib \<Rightarrow> sim_payload \<Rightarrow> string" where
  "payload_body L p = sl_dump_json L (dump_payload p)"

definition payload_wire_size :: "sim_lib \<Rightarrow> sim_payload \<Rightarrow> nat" where
  "payload_wire_size L p = length (json_string (payload_body L p)) + envelope_allowance_bytes"

definition payload_wire_bytes :: "sim_lib \<Rightarrow> sim_payload \<Rightarrow> string + string" where
  "payload_wire_bytes L p = (let size = payload_wire_size L p in
     if size > max_inline_payload_bytes
     then Inl (''encoded simulation payload is ~'' @ show_nat size @ '' bytes; the inline limit is '' @
       show_nat max_inline_payload_bytes @ '' (out-of-band payload transport is not implemented yet)'')
     else Inr (payload_body L p))"

section \<open>Commands of the server\<close>

text \<open>
  An unsigned message; \<open>now\<close> is the default of \<open>ts\<close>. Where the code generates a command id, the fresh id
  is an argument.
\<close>

definition new_message :: "string \<Rightarrow> string \<Rightarrow> int \<Rightarrow> kind \<Rightarrow> sender_role \<Rightarrow> string \<Rightarrow> string option \<Rightarrow> (string \<times> json) list \<Rightarrow> rcp_message" where
  "new_message now sim sq kd role ty irt payload = \<lparr>rm_sim = sim, rm_kind = kd, rm_type = ty, rm_seq = sq, rm_sender_role = role,
     rm_payload = payload, rm_ts = now, rm_in_reply_to = irt, rm_version = 0, rm_sig = None, rm_transport_sender = None,
     rm_transport_event_id = None\<rparr>"

definition or_fresh :: "string option \<Rightarrow> string \<Rightarrow> string" where
  "or_fresh cmd_id fresh = (if truthy cmd_id then the cmd_id else fresh)"

definition build_submit_command :: "sim_lib \<Rightarrow> string \<Rightarrow> string \<Rightarrow> string \<Rightarrow> int \<Rightarrow> sim_payload \<Rightarrow> submit_params option \<Rightarrow> string option
    \<Rightarrow> string option \<Rightarrow> string + rcp_message" where
  "build_submit_command L now fresh sim sq payload params cmd_id irt = bind_res (payload_wire_bytes L payload) (\<lambda>body.
     Inr (new_message now sim sq KCommand McpServer (type_value TSubmit) irt
       [(''cmd_id'', JStr (or_fresh cmd_id fresh)), (''header'', JObj (payload_counts L payload)), (''payload'', JStr body),
        (''params'', JObj (dump_params (case params of None \<Rightarrow> default_params | Some p \<Rightarrow> p)))]))"

definition build_status_command :: "string \<Rightarrow> string \<Rightarrow> string \<Rightarrow> int \<Rightarrow> string \<Rightarrow> string option \<Rightarrow> string option \<Rightarrow> rcp_message" where
  "build_status_command now fresh sim sq sim_id cmd_id irt = new_message now sim sq KCommand McpServer (type_value TStatus) irt
     [(''cmd_id'', JStr (or_fresh cmd_id fresh)), (''sim_id'', JStr sim_id)]"

definition log_streams :: "string list" where
  "log_streams = [''stdout'', ''stderr'', ''workflow'']"

definition build_logs_command :: "string \<Rightarrow> string \<Rightarrow> string \<Rightarrow> int \<Rightarrow> string \<Rightarrow> string \<Rightarrow> int \<Rightarrow> string option \<Rightarrow> string option \<Rightarrow> string + rcp_message" where
  "build_logs_command now fresh sim sq sim_id stream tail cmd_id irt =
     (if stream \<notin> set log_streams
      then Inl (''unknown log stream '' @ py_repr stream @ ''; expected one of ('' @ join_str '', '' (map py_repr log_streams) @ '')'')
      else Inr (new_message now sim sq KCommand McpServer (type_value TLogs) irt
        [(''cmd_id'', JStr (or_fresh cmd_id fresh)), (''sim_id'', JStr sim_id), (''stream'', JStr stream), (''tail'', JInt tail)]))"

definition build_control_command :: "string \<Rightarrow> string \<Rightarrow> string \<Rightarrow> int \<Rightarrow> string \<Rightarrow> simulation_op \<Rightarrow> string option \<Rightarrow> string option \<Rightarrow> rcp_message" where
  "build_control_command now fresh sim sq sim_id op cmd_id irt = new_message now sim sq KCommand McpServer (type_value TControl) irt
     [(''cmd_id'', JStr (or_fresh cmd_id fresh)), (''sim_id'', JStr sim_id), (''op'', JStr (op_value op))]"

section \<open>Answers of the client\<close>

text \<open>An optional text that is only carried when it is truthy.\<close>

definition some_text :: "string \<Rightarrow> string option \<Rightarrow> (string \<times> json) list" where
  "some_text k s = (if truthy s then [(k, JStr (the s))] else [])"

definition build_submit_ack :: "string \<Rightarrow> string \<Rightarrow> int \<Rightarrow> string \<Rightarrow> string \<Rightarrow> simulation_state \<Rightarrow> string option \<Rightarrow> int option
    \<Rightarrow> string option \<Rightarrow> string option \<Rightarrow> rcp_message" where
  "build_submit_ack now sim sq cmd_id sim_id state irt job_id err code = new_message now sim sq KAck Simclient (type_value TSubmitAck) irt
     ([(''cmd_id'', JStr cmd_id), (''sim_id'', JStr sim_id), (''state'', JStr (state_value state)), (''job_id'', opt_int job_id)] @
      some_text ''error'' err @ some_text ''error_code'' code)"

text \<open>The optional fields of a lifecycle event, by the names of the keyword arguments.\<close>

record event_fields =
  ef_stage :: "string option"
  ef_error :: "string option"
  ef_error_code :: "string option"
  ef_failure_summary :: "string option"
  ef_submit_system :: "string option"
  ef_results_linked :: "bool option"
  ef_step :: "int option"
  ef_percent :: "int option"
  ef_walltime :: "string option"
  ef_avg_per_step :: "string option"
  ef_eta_s :: "int option"
  ef_slurm_state :: "string option"
  ef_slurm_reason :: "string option"
  ef_exit_code :: "int option"
  ef_core_hours :: "pyfloat option"
  ef_gpu_hours :: "pyfloat option"
  ef_manifest :: "(string \<times> json) list option"
  ef_suspect :: "string option"

definition no_fields :: event_fields where
  "no_fields = \<lparr>ef_stage = None, ef_error = None, ef_error_code = None, ef_failure_summary = None, ef_submit_system = None,
     ef_results_linked = None, ef_step = None, ef_percent = None, ef_walltime = None, ef_avg_per_step = None, ef_eta_s = None,
     ef_slurm_state = None, ef_slurm_reason = None, ef_exit_code = None, ef_core_hours = None, ef_gpu_hours = None,
     ef_manifest = None, ef_suspect = None\<rparr>"

definition build_submit_event :: "string \<Rightarrow> string \<Rightarrow> int \<Rightarrow> string \<Rightarrow> string \<Rightarrow> simulation_state \<Rightarrow> int option \<Rightarrow> event_fields \<Rightarrow> rcp_message" where
  "build_submit_event now sim sq cmd_id sim_id state job_id f = new_message now sim sq KEvent Simclient (type_value TEvent) None
     ([(''cmd_id'', JStr cmd_id), (''sim_id'', JStr sim_id), (''state'', JStr (state_value state)), (''job_id'', opt_int job_id)] @
      some_entry ''stage'' JStr (ef_stage f) @ some_entry ''submit_system'' JStr (ef_submit_system f) @
      some_text ''error'' (ef_error f) @ some_text ''error_code'' (ef_error_code f) @
      some_text ''failure_summary'' (ef_failure_summary f) @ some_entry ''results_linked'' JBool (ef_results_linked f) @
      some_entry ''manifest'' JObj (ef_manifest f) @ some_text ''suspect'' (ef_suspect f) @
      some_entry ''step'' JInt (ef_step f) @ some_entry ''percent'' JInt (ef_percent f) @
      some_entry ''walltime'' JStr (ef_walltime f) @ some_entry ''avg_per_step'' JStr (ef_avg_per_step f) @
      some_entry ''eta_s'' JInt (ef_eta_s f) @ some_entry ''slurm_state'' JStr (ef_slurm_state f) @
      some_entry ''slurm_reason'' JStr (ef_slurm_reason f) @ some_entry ''exit_code'' JInt (ef_exit_code f) @
      some_entry ''core_hours'' JFloat (ef_core_hours f) @ some_entry ''gpu_hours'' JFloat (ef_gpu_hours f) @
      some_entry ''exit_signal'' JStr (signal_from_exit_code (ef_exit_code f)))"

record status_fields =
  sf_slurm_state :: "string option"
  sf_slurm_reason :: "string option"
  sf_job_id :: "int option"
  sf_step :: "int option"
  sf_percent :: "int option"
  sf_walltime :: "string option"
  sf_avg_per_step :: "string option"
  sf_eta_s :: "int option"
  sf_exit_code :: "int option"
  sf_error :: "string option"
  sf_error_code :: "string option"
  sf_suspect :: "string option"

definition no_status :: status_fields where
  "no_status = \<lparr>sf_slurm_state = None, sf_slurm_reason = None, sf_job_id = None, sf_step = None, sf_percent = None, sf_walltime = None,
     sf_avg_per_step = None, sf_eta_s = None, sf_exit_code = None, sf_error = None, sf_error_code = None, sf_suspect = None\<rparr>"

definition build_status_ack :: "string \<Rightarrow> string \<Rightarrow> int \<Rightarrow> string \<Rightarrow> string \<Rightarrow> string option \<Rightarrow> string \<Rightarrow> status_fields \<Rightarrow> rcp_message" where
  "build_status_ack now sim sq cmd_id sim_id irt state f = new_message now sim sq KAck Simclient (type_value TStatusAck) irt
     ([(''cmd_id'', JStr cmd_id), (''sim_id'', JStr sim_id), (''state'', JStr state)] @
      some_entry ''slurm_state'' JStr (sf_slurm_state f) @ some_entry ''slurm_reason'' JStr (sf_slurm_reason f) @
      some_entry ''job_id'' JInt (sf_job_id f) @ some_entry ''step'' JInt (sf_step f) @ some_entry ''percent'' JInt (sf_percent f) @
      some_entry ''walltime'' JStr (sf_walltime f) @ some_entry ''avg_per_step'' JStr (sf_avg_per_step f) @
      some_entry ''eta_s'' JInt (sf_eta_s f) @ some_entry ''exit_code'' JInt (sf_exit_code f) @
      some_entry ''exit_signal'' JStr (signal_from_exit_code (sf_exit_code f)) @ some_entry ''error'' JStr (sf_error f) @
      some_entry ''error_code'' JStr (sf_error_code f) @ some_entry ''suspect'' JStr (sf_suspect f))"

definition build_logs_ack :: "string \<Rightarrow> string \<Rightarrow> int \<Rightarrow> string \<Rightarrow> string \<Rightarrow> string option \<Rightarrow> string \<Rightarrow> string list \<Rightarrow> nat
    \<Rightarrow> string option \<Rightarrow> string option \<Rightarrow> rcp_message" where
  "build_logs_ack now sim sq cmd_id sim_id irt stream lines n err code = new_message now sim sq KAck Simclient (type_value TLogsAck) irt
     ([(''cmd_id'', JStr cmd_id), (''sim_id'', JStr sim_id), (''stream'', JStr stream), (''lines'', JList (map JStr lines)),
       (''total_lines'', JInt (int n))] @ some_text ''error'' err @ some_text ''error_code'' code)"

definition build_control_ack :: "string \<Rightarrow> string \<Rightarrow> int \<Rightarrow> string \<Rightarrow> string \<Rightarrow> simulation_op \<Rightarrow> bool \<Rightarrow> string option \<Rightarrow> int option
    \<Rightarrow> string option \<Rightarrow> string option \<Rightarrow> string option \<Rightarrow> string option \<Rightarrow> string option \<Rightarrow> rcp_message" where
  "build_control_ack now sim sq cmd_id sim_id op ok irt job_id signame reason state err code =
     new_message now sim sq KAck Simclient (type_value TControlAck) irt
     ([(''cmd_id'', JStr cmd_id), (''sim_id'', JStr sim_id), (''op'', JStr (op_value op)), (''ok'', JBool ok)] @
      some_entry ''job_id'' JInt job_id @ some_entry ''signal'' JStr signame @ some_entry ''slurm_reason'' JStr reason @
      some_entry ''state'' JStr state @ some_entry ''error'' JStr err @ some_entry ''error_code'' JStr code)"

definition max_result_bytes :: nat where
  "max_result_bytes = 48 * 1024"

text \<open>\<open>json.dumps\<close> without \<open>sort_keys\<close>: the size measured is that of the float-free form.\<close>

definition wire_length :: "(pyfloat \<Rightarrow> string) \<Rightarrow> (string \<times> json) list \<Rightarrow> nat" where
  "wire_length frepr payload = length (dumps_raw frepr (encode_wire frepr (JObj payload)))"

definition build_result_ack :: "(pyfloat \<Rightarrow> string) \<Rightarrow> string \<Rightarrow> string \<Rightarrow> int \<Rightarrow> string \<Rightarrow> string \<Rightarrow> result_op \<Rightarrow> string option
    \<Rightarrow> (string \<times> json) list \<Rightarrow> rcp_message" where
  "build_result_ack frepr now sim sq cmd_id sim_id op irt outcome =
     (let payload = [(''cmd_id'', JStr cmd_id), (''sim_id'', JStr sim_id), (''op'', JStr (result_op_value op))];
          full = payload @ filter (\<lambda>(k, v). v \<noteq> JNull) outcome
      in new_message now sim sq KAck Simclient (type_value TResultAck) irt
           (if wire_length frepr full > max_result_bytes
            then payload @ [(''error'', JStr ''result exceeds the ack wire budget''), (''error_code'', JStr ''result_too_large'')]
            else full))"

definition hello_command_type :: string where
  "hello_command_type = ''rcp.hello''"

definition hello_ack_type :: string where
  "hello_ack_type = ''rcp.hello_ack''"

definition dump_capabilities :: "capabilities \<Rightarrow> json" where
  "dump_capabilities c = JObj [(''client_version'', JStr (cc_client_version c)), (''result_ops'', opt_strs (cc_result_ops c)),
     (''control_ops'', opt_strs (cc_control_ops c)), (''supported_types'', opt_strs (cc_supported_types c))]"

definition build_hello_command :: "string \<Rightarrow> string \<Rightarrow> string \<Rightarrow> int \<Rightarrow> string \<Rightarrow> string \<Rightarrow> string option \<Rightarrow> string option \<Rightarrow> rcp_message" where
  "build_hello_command now fresh sim sq path text cmd_id irt = new_message now sim sq KCommand McpServer hello_command_type irt
     [(''cmd_id'', JStr (or_fresh cmd_id fresh)), (''message'', JStr text), (''message_path'', JStr path)]"

definition build_hello_ack :: "string \<Rightarrow> string \<Rightarrow> int \<Rightarrow> string \<Rightarrow> string option \<Rightarrow> int option \<Rightarrow> string option \<Rightarrow> string option
    \<Rightarrow> string option \<Rightarrow> capabilities option \<Rightarrow> rcp_message" where
  "build_hello_ack now sim sq cmd_id irt job_id out err code caps = new_message now sim sq KAck Simclient hello_ack_type irt
     ([(''cmd_id'', JStr cmd_id), (''job_id'', opt_int job_id), (''cluster_output'', opt_str out)] @
      (case caps of None \<Rightarrow> [] | Some c \<Rightarrow> [(''capabilities'', dump_capabilities c)]) @
      some_text ''error'' err @ some_text ''error_code'' code)"

lemma new_message_simps [simp]:
  "rm_payload (new_message now sim sq kd role ty irt pl) = pl" "rm_kind (new_message now sim sq kd role ty irt pl) = kd"
  "rm_sim (new_message now sim sq kd role ty irt pl) = sim" "rm_type (new_message now sim sq kd role ty irt pl) = ty"
  "rm_seq (new_message now sim sq kd role ty irt pl) = sq" "rm_sender_role (new_message now sim sq kd role ty irt pl) = role"
  "rm_in_reply_to (new_message now sim sq kd role ty irt pl) = irt" "rm_sig (new_message now sim sq kd role ty irt pl) = None"
  by (simp_all add: new_message_def)

end
