(* ===== verification/SimSubmit.thy ===== *)
theory SimSubmit
  imports SimProtocol
begin

text \<open>
  \<open>simclient/simulation.py\<close>: what the client does with one submit command. The payload is parsed,
  re-hashed and compared with the header, the provenance and the flags are checked, a runner with
  cluster-local directories is built; then the build and the workflow run and their failures are classified.
\<close>

section \<open>Errors\<close>

datatype sim_error_code =
    EPathUnsafe | EPayloadInvalid | EUnsupported | EHashMismatch | EVersionMismatch | ESubmitSystemMismatch | ERejected
  | EOutcomeUnknown | EPicongpuUnavailable | EGenerateFailed | EBuildFailed | ERunFailed | ENotSignalable | ENotTerminal
  | EReaderUnavailable | ENoResults | EResultTooLarge | EUnsupportedByClient

fun error_value :: "sim_error_code \<Rightarrow> string" where
  "error_value EPathUnsafe = ''path_unsafe''"
| "error_value EPayloadInvalid = ''payload_invalid''"
| "error_value EUnsupported = ''unsupported''"
| "error_value EHashMismatch = ''hash_mismatch''"
| "error_value EVersionMismatch = ''version_mismatch''"
| "error_value ESubmitSystemMismatch = ''submit_system_mismatch''"
| "error_value ERejected = ''rejected_by_policy''"
| "error_value EOutcomeUnknown = ''outcome_unknown''"
| "error_value EPicongpuUnavailable = ''picongpu_unavailable''"
| "error_value EGenerateFailed = ''generate_failed''"
| "error_value EBuildFailed = ''build_failed''"
| "error_value ERunFailed = ''run_failed''"
| "error_value ENotSignalable = ''not_signalable''"
| "error_value ENotTerminal = ''not_terminal''"
| "error_value EReaderUnavailable = ''reader_unavailable''"
| "error_value ENoResults = ''no_results''"
| "error_value EResultTooLarge = ''result_too_large''"
| "error_value EUnsupportedByClient = ''unsupported_by_client''"

datatype stage = StBuild | StPrepare | StSubmit | StRun

fun stage_value :: "stage \<Rightarrow> string" where
  "stage_value StBuild = ''build''"
| "stage_value StPrepare = ''prepare''"
| "stage_value StSubmit = ''submit''"
| "stage_value StRun = ''run''"

record sim_error =
  se_code :: sim_error_code
  se_message :: string
  se_stage :: "stage option"
  se_summary :: "string option"

definition raise_sim :: "sim_error_code \<Rightarrow> string \<Rightarrow> sim_error" where
  "raise_sim code msg = \<lparr>se_code = code, se_message = msg, se_stage = None, se_summary = None\<rparr>"

lemma sim_error_simps [simp]:
  "se_code (raise_sim c m) = c" "se_message (raise_sim c m) = m" "se_stage (raise_sim c m) = None" "se_summary (raise_sim c m) = None"
  by (simp_all add: raise_sim_def)

section \<open>Paths\<close>

text \<open>An absolute path is its list of components. \<open>p / s\<close> starts over when \<open>s\<close> is absolute.\<close>

type_synonym path = "string list"

definition path_parts :: "string \<Rightarrow> path" where
  "path_parts s = filter (\<lambda>w. w \<noteq> '''' \<and> w \<noteq> ''.'') (split_on CHR ''/'' s)"

definition path_join :: "path \<Rightarrow> string \<Rightarrow> path" where
  "path_join p s = (if starts_with ''/'' s then path_parts s else p @ path_parts s)"

definition path_str :: "path \<Rightarrow> string" where
  "path_str p = ''/'' @ join_str ''/'' p"

definition path_under :: "path \<Rightarrow> path \<Rightarrow> bool" where
  "path_under rdir p = (take (length rdir) p = rdir)"

lemma path_under_iff: "path_under rdir p \<longleftrightarrow> (\<exists>q. p = rdir @ q)"
  by (metis append_eq_conv_conj append_take_drop_id path_under_def)

section \<open>Checks before acceptance\<close>

text \<open>
  The cluster: local policy (\<open>SubmitConfig\<close>), the configured submit command, path resolution, and the
  pinned PIConGPU runner (\<open>Runner.model_validate\<close> and the dump of its \<open>sim\<close>).
\<close>

record 'r cluster =
  ct_setup_root :: path
  ct_template_dir :: string
  ct_preset :: "int option"
  ct_tbg_submit :: "string option"
  ct_resolve :: "path \<Rightarrow> path"
  ct_runner :: "((string \<times> json) list \<Rightarrow> string + 'r) option"
  ct_sim_dump :: "'r \<Rightarrow> json"
  ct_provenance :: provenance

definition default_submit_system :: string where
  "default_submit_system = ''sbatch''"

definition parse_payload :: "sim_lib \<Rightarrow> string \<Rightarrow> sim_error + (string \<times> json) list" where
  "parse_payload L raw = (case sl_loads L raw of
     Inl exc \<Rightarrow> Inl (raise_sim EPayloadInvalid (''inline payload is not JSON: '' @ exc))
   | Inr (JObj kvs) \<Rightarrow> Inr kvs
   | Inr _ \<Rightarrow> Inl (raise_sim EPayloadInvalid ''inline payload is not a JSON object''))"

definition or_missing :: "string \<Rightarrow> string" where
  "or_missing s = (if s = '''' then ''<missing>'' else s)"

definition check_payload_hash :: "sim_lib \<Rightarrow> (string \<times> json) list \<Rightarrow> (string \<times> json) list \<Rightarrow> sim_error + unit" where
  "check_payload_hash L doc header = (case map_of doc ''simulation'' of
     None \<Rightarrow> Inl (raise_sim EPayloadInvalid (''cannot read simulation from payload: '' @ py_repr ''simulation''))
   | Some simulation \<Rightarrow>
       (let actual = sl_sha L (canonical_bytes (sl_frepr L) simulation); expected = get_str L header ''payload_hash'' ''''
        in if expected = '''' \<or> actual \<noteq> expected
           then Inl (raise_sim EHashMismatch (''payload hash '' @ take 12 actual @ '' does not match header '' @ or_missing (take 12 expected)))
           else Inr ()))"

definition detect_submit_system :: "'r cluster \<Rightarrow> string option" where
  "detect_submit_system k = (if truthy (ct_tbg_submit k) then ct_tbg_submit k else None)"

definition check_submit_system :: "'r cluster \<Rightarrow> sim_error + string" where
  "check_submit_system k =
     (if detect_submit_system k \<noteq> Some default_submit_system
      then Inl (raise_sim ESubmitSystemMismatch (''cluster tbg_submit '' @
        (case detect_submit_system k of None \<Rightarrow> ''is unset'' | Some s \<Rightarrow> ''is '' @ py_repr s) @
        '', but pic-agentic requires '' @ py_repr default_submit_system @ '' to follow the run; set TBG_SUBMIT='' @
        py_repr default_submit_system @ '' in the cluster profile''))
      else Inr default_submit_system)"

text \<open>\<open>^[0-9a-f]{8,64}$\<close> under \<open>re.match\<close>.\<close>

definition hex_lower :: "char \<Rightarrow> bool" where
  "hex_lower c = (let n = char_nat c in (48 \<le> n \<and> n \<le> 57) \<or> (97 \<le> n \<and> n \<le> 102))"

definition token_ok :: "string \<Rightarrow> bool" where
  "token_ok s = (let t = (if s \<noteq> [] \<and> last s = CHR 0x0A then butlast s else s)
     in 8 \<le> length t \<and> length t \<le> 64 \<and> list_all hex_lower t)"

text \<open>Python's equality of two decoded JSON values: numbers by value across types, dicts by key.\<close>

definition json_number :: "json \<Rightarrow> pyfloat option" where
  "json_number v = (case v of JInt i \<Rightarrow> Some (Fin (of_int i)) | JBool b \<Rightarrow> Some (Fin (if b then 1 else 0)) | JFloat f \<Rightarrow> Some f | _ \<Rightarrow> None)"

fun py_equal :: "json \<Rightarrow> json \<Rightarrow> bool" where
  "py_equal (JObj a) w = (case w of
     JObj b \<Rightarrow> length a = length b \<and> list_all (\<lambda>(k, v). case map_of b k of None \<Rightarrow> False | Some u \<Rightarrow> py_equal v u) a
   | _ \<Rightarrow> False)"
| "py_equal (JList vs) w = (case w of JList ws \<Rightarrow> list_all2 py_equal vs ws | _ \<Rightarrow> False)"
| "py_equal (JStr s) w = (w = JStr s)"
| "py_equal JNull w = (w = JNull)"
| "py_equal v w = (case (json_number v, json_number w) of (Some x, Some y) \<Rightarrow> x = y \<and> x \<noteq> NaN | _ \<Rightarrow> False)"

record 'r prepared =
  pp_payload :: sim_payload
  pp_params :: submit_params
  pp_runner :: 'r
  pp_run_dir :: path
  pp_setup_dir :: path
  pp_submit_system :: string

text \<open>\<open>runner_from_payload\<close>; the runner comes with the two directories it was given.\<close>

definition runner_from_payload :: "sim_lib \<Rightarrow> 'r cluster \<Rightarrow> sim_payload \<Rightarrow> string \<Rightarrow> sim_error + ('r \<times> path \<times> path)" where
  "runner_from_payload L k p token =
     (if \<not> token_ok token then Inl (raise_sim EPathUnsafe (''unsafe per-command token: '' @ py_repr token))
      else (let base = ct_resolve k (path_join (path_join (ct_setup_root k) (payload_sim_id L p)) token);
                rdir = ct_resolve k (ct_setup_root k)
        in if \<not> path_under rdir base
           then Inl (raise_sim EPathUnsafe (''generated setup dir escapes '' @ path_str (ct_setup_root k) @ '': '' @ path_str base))
           else (case ct_runner k of
               None \<Rightarrow> Inl (raise_sim EPicongpuUnavailable ''PIConGPU is not installed on the cluster'')
             | Some validate \<Rightarrow>
                 (let setup = base @ [''input'']; run = base @ [''run'']; sim_dump = get_or (pl_simulation p) ''sim'' JNull
                  in case validate ([(''sim'', sim_dump), (''setup_dir'', JStr (path_str setup)), (''run_dir'', JStr (path_str run))] @
                       (if ct_template_dir k \<noteq> '''' then [(''template_dir'', JList [JStr (ct_template_dir k)])] else [])) of
                    Inl exc \<Rightarrow> Inl (raise_sim EPayloadInvalid (''simulation does not validate: '' @ exc))
                  | Inr r \<Rightarrow> if py_equal (ct_sim_dump k r) sim_dump then Inr (r, setup, run)
                      else Inl (raise_sim EUnsupported ''simulation carries fields outside the pinned pypicongpu schema'')))))"

text \<open>\<open>params or {}\<close>, then the model: only an object or a falsy value gets past it.\<close>

definition falsy :: "json \<Rightarrow> bool" where
  "falsy v = (v \<in> {JNull, JBool False, JInt 0, JFloat (Fin 0), JStr '''', JList [], JObj []})"

definition params_of :: "sim_lib \<Rightarrow> json option \<Rightarrow> sim_error + submit_params" where
  "params_of L v =
     (let kvs = (case v of None \<Rightarrow> Some [] | Some (JObj kvs) \<Rightarrow> Some kvs | Some u \<Rightarrow> if falsy u then Some [] else None)
      in case (case kvs of None \<Rightarrow> None | Some d \<Rightarrow> validate_params L d) of
           None \<Rightarrow> Inl (raise_sim EPayloadInvalid (''invalid submit params: '' @ sl_invalid L ''SubmitParams'' (case v of None \<Rightarrow> JNull | Some u \<Rightarrow> u)))
         | Some p \<Rightarrow> Inr p)"

definition prepare_submit :: "sim_lib \<Rightarrow> 'r cluster \<Rightarrow> (string \<times> json) list \<Rightarrow> (string \<times> json) list \<Rightarrow> json option \<Rightarrow> string
    \<Rightarrow> sim_error + 'r prepared" where
  "prepare_submit L k doc header params token =
     bind_res (check_payload_hash L doc header) (\<lambda>_.
     case validate_payload L doc of
       None \<Rightarrow> Inl (raise_sim EPayloadInvalid (sl_invalid L ''SimulationPayload'' (JObj doc)))
     | Some p \<Rightarrow>
         if payload_hash L p \<noteq> get_str L header ''payload_hash'' ''''
         then Inl (raise_sim EHashMismatch ''payload/header hash mismatch'')
         else if payload_sim_id L p \<noteq> get_str L header ''sim_id'' ''''
         then Inl (raise_sim EHashMismatch (''payload sim_id '' @ payload_sim_id L p @ '' does not match header '' @
           (case map_of header ''sim_id'' of None \<Rightarrow> ''None'' | Some (JStr s) \<Rightarrow> py_repr s | Some v \<Rightarrow> py_str L v)))
         else (case check_allowlist p of
             Some msg \<Rightarrow> Inl (raise_sim EUnsupported msg)
           | None \<Rightarrow>
               if provenance_mismatches p (ct_provenance k) \<noteq> []
               then Inl (raise_sim EVersionMismatch (join_str ''; '' (provenance_mismatches p (ct_provenance k))))
               else bind_res (params_of L params) (\<lambda>sp.
                    bind_res (check_submit_system k) (\<lambda>sys.
                    bind_res (runner_from_payload L k p token) (\<lambda>(r, setup, run).
                    Inr \<lparr>pp_payload = p, pp_params = sp, pp_runner = r, pp_run_dir = run, pp_setup_dir = setup,
                      pp_submit_system = sys\<rparr>)))))"
section \<open>Reading a failure\<close>

definition rx_step_index :: rx where
  "rx_step_index = maybe (seq_of [lit ''_'', rx_digits])"

definition rx_bracketed :: "rx \<Rightarrow> rx" where
  "rx_bracketed r = seq_of [lit ''['', Rep rx_space, one_of [lit ''job'', lit ''step''], some_of rx_space, r, rx_step_index,
     Rep rx_space, lit '']'']"

definition error_line_re :: rx where
  "error_line_re = one_of (map lit [''error'', ''fatal'', ''not found'', ''no such file'', ''command not found'', ''exited with status'',
     ''permanentfail'', ''missing expected''])"

definition rx_make :: rx where
  "rx_make = seq_of [lit ''make'', maybe (seq_of [lit ''['', rx_digits, lit '']'']), lit '': ***'']"

text \<open>Case-sensitive, on a padded line; \<open>gmake\<close> ends in \<open>make\<close>.\<close>

definition compiler_error_re :: rx where
  "compiler_error_re = one_of [
     seq_of [rx_nonword, lit ''error'',
       one_of [Cat (Rep rx_space) (Cls (\<lambda>c. c = CHR '':'' \<or> c = CHR ''#'')), Cat (some_of rx_space) (Cls digit)]],
     rx_make, lit ''CMake Error'']"

definition build_step_re :: rx where
  "build_step_re = rx_bracketed (lit ''build_step'')"

definition any_step_re :: rx where
  "any_step_re = rx_bracketed (Cat (some_of (Cls word_char)) (lit ''_step''))"

text \<open>Case-insensitive, on the padded lower-case text.\<close>

definition build_marker_re :: rx where
  "build_marker_re = (let same_line = Cls (\<lambda>c. c \<noteq> CHR 0x0A); gap = Cls (\<lambda>c. c \<noteq> CHR 0x0A \<and> \<not> word_char c) in one_of [
     seq_of [rx_nonword, lit ''pic-build'', rx_nonword],
     rx_make, lit ''cmake error'',
     seq_of [rx_nonword, lit ''nvcc'', gap, maybe (Cat (Rep same_line) gap), one_of [lit ''error'', lit ''fatal''], rx_nonword],
     seq_of [lit ''.'', one_of [lit ''hpp'', lit ''cpp'', lit ''cu'', lit ''cuh''],
       maybe (one_of [seq_of [lit ''('', rx_digits, lit '')''], Cat (lit '':'') rx_digits]), lit '':'', Rep rx_space,
       maybe (Cat (lit ''fatal'') (some_of rx_space)), lit ''error'', rx_nonword]])"

definition captured_errors :: "string \<Rightarrow> string" where
  "captured_errors text = join_str [CHR 0x0A] (map rstrip (filter (\<lambda>l. rx_search error_line_re (lower l)) (splitlines text)))"

definition max_error_detail :: nat where
  "max_error_detail = 4000"

definition workflow_failure_detail :: "string \<Rightarrow> string \<Rightarrow> string" where
  "workflow_failure_detail captured retained = (let d = py_strip captured; d' = (if d = '''' then retained else d)
     in drop (length d' - max_error_detail) d')"

definition classify_workflow_failure :: "string \<Rightarrow> sim_error_code \<times> stage" where
  "classify_workflow_failure detail =
     (if rx_search build_step_re (lower detail) then (EBuildFailed, StBuild)
      else if rx_search any_step_re (lower detail) then (ERunFailed, StRun)
      else if rx_search build_marker_re (padded (lower detail)) then (EBuildFailed, StBuild)
      else (ERunFailed, StRun))"

definition max_failure_summary :: nat where
  "max_failure_summary = 500"

definition summary_line :: "string \<Rightarrow> bool" where
  "summary_line s = (s \<noteq> '''' \<and> rx_search compiler_error_re (padded s) \<and> \<not> rx_search (lit ''cwltool:'') s)"

fun summary_lines :: "string list \<Rightarrow> string list \<Rightarrow> string list" where
  "summary_lines acc [] = acc"
| "summary_lines acc (l # ls) = (let s = py_strip l in
     if summary_line s
     then (if length (join_str [CHR 0x0A] (acc @ [s])) \<ge> max_failure_summary then acc @ [s] else summary_lines (acc @ [s]) ls)
     else summary_lines acc ls)"

definition sim_failure_summary :: "string \<Rightarrow> string option" where
  "sim_failure_summary detail = (let summary = summary_lines [] (splitlines detail)
     in if summary = [] then None else Some (take max_failure_summary (join_str [CHR 0x0A] summary)))"

lemma summary_lines_set: "set (summary_lines acc ls) \<subseteq> set acc \<union> {py_strip l | l. l \<in> set ls \<and> summary_line (py_strip l)}"
  by (induction acc ls rule: summary_lines.induct) (auto simp: Let_def)

lemma summary_lines_prefix: "\<exists>rest. summary_lines acc ls = acc @ rest"
  by (induction acc ls rule: summary_lines.induct) (auto simp: Let_def)

lemma summary_lines_empty: "summary_lines [] ls = [] \<longleftrightarrow> (\<forall>l \<in> set ls. \<not> summary_line (py_strip l))"
proof (induction ls)
  case (Cons l ls)
  show ?case
  proof (cases "summary_line (py_strip l)")
    case True
    obtain rest where "summary_lines [py_strip l] ls = [py_strip l] @ rest" using summary_lines_prefix by blast
    with True show ?thesis by (simp add: Let_def)
  qed (use Cons in \<open>simp add: Let_def\<close>)
qed simp

section \<open>The live build tail\<close>

record ring_tail =
  rt_lines :: "string list"
  rt_maxlen :: nat
  rt_bytes :: nat

definition max_build_tail_bytes :: nat where
  "max_build_tail_bytes = 64 * 1024"

definition new_tail :: "nat \<Rightarrow> ring_tail" where
  "new_tail n = \<lparr>rt_lines = [], rt_maxlen = n, rt_bytes = 0\<rparr>"

fun unify_newlines :: "bool \<Rightarrow> string \<Rightarrow> string" where
  "unify_newlines after_cr [] = []"
| "unify_newlines after_cr (c # s) =
     (if c = CHR 0x0D then CHR 0x0A # unify_newlines True s
      else if c = CHR 0x0A \<and> after_cr then unify_newlines False s
      else c # unify_newlines False s)"

definition normalise_newlines :: "string \<Rightarrow> string" where
  "normalise_newlines s = unify_newlines False s"

definition text_lines :: "string \<Rightarrow> string list" where
  "text_lines text = filter (\<lambda>l. l \<noteq> '''') (split_on CHR 0x0A (normalise_newlines text))"

text \<open>\<open>deque.append\<close> with a \<open>maxlen\<close> drops from the left.\<close>

definition ring_append :: "nat \<Rightarrow> string list \<Rightarrow> string \<Rightarrow> string list" where
  "ring_append n xs x = (let ys = xs @ [x] in drop (length ys - n) ys)"

fun trim_bytes :: "string list \<Rightarrow> string list" where
  "trim_bytes [] = []"
| "trim_bytes (x # xs) = (if sum_list (map length (x # xs)) > max_build_tail_bytes then trim_bytes xs else x # xs)"

definition tail_add :: "ring_tail \<Rightarrow> string \<Rightarrow> ring_tail" where
  "tail_add t text = (let ls = trim_bytes (foldl (ring_append (rt_maxlen t)) (rt_lines t) (text_lines text))
     in t\<lparr>rt_lines := ls, rt_bytes := sum_list (map length ls)\<rparr>)"

lemma ring_append_all: "foldl (ring_append n) xs ls = drop (length (xs @ ls) - n) (xs @ ls)" if "length xs \<le> n"
  using that
proof (induction ls arbitrary: xs)
  case (Cons l ls)
  let ?ys = "ring_append n xs l"
  have y: "?ys = drop (length (xs @ [l]) - n) (xs @ [l])" by (simp add: ring_append_def Let_def)
  have len: "length ?ys \<le> n" by (simp add: y)
  have "foldl (ring_append n) xs (l # ls) = drop (length (?ys @ ls) - n) (?ys @ ls)"
    using Cons.IH [OF len] by simp
  also have "\<dots> = drop (length (xs @ l # ls) - n) (xs @ l # ls)"
  proof (cases "length (xs @ [l]) \<le> n")
    case True
    then show ?thesis by (simp add: y)
  next
    case False
    then have "length xs = n" using Cons.prems by simp
    show ?thesis
    proof (cases xs)
      case Nil
      with \<open>length xs = n\<close> show ?thesis by (simp add: y)
    next
      case (Cons a list)
      with \<open>length xs = n\<close> have n: "n = Suc (length list)" by simp
      have "?ys = list @ [l]" using y by (simp add: Cons n)
      then have "drop (length (?ys @ ls) - n) (?ys @ ls) = drop (length ls) (list @ l # ls)" by (simp add: n)
      then show ?thesis by (simp add: Cons n)
    qed
  qed
  finally show ?case .
qed simp

lemma trim_bytes_suffix: "\<exists>dropped. ls = dropped @ trim_bytes ls"
  by (induction ls) (auto intro: exI [of _ "[]"], metis append_Cons)

lemma trim_bytes_small: "sum_list (map length (trim_bytes ls)) \<le> max_build_tail_bytes"
  by (induction ls) auto

lemma trim_bytes_id: "sum_list (map length ls) \<le> max_build_tail_bytes \<Longrightarrow> trim_bytes ls = ls"
  by (cases ls) auto

lemma tail_add_suffix:
  assumes "length (rt_lines t) \<le> rt_maxlen t"
  shows "\<exists>dropped. rt_lines t @ text_lines text = dropped @ rt_lines (tail_add t text)"
    "length (rt_lines (tail_add t text)) \<le> rt_maxlen t"
    "rt_bytes (tail_add t text) = sum_list (map length (rt_lines (tail_add t text)))"
    "rt_bytes (tail_add t text) \<le> max_build_tail_bytes"
    "rt_maxlen (tail_add t text) = rt_maxlen t"
proof -
  let ?all = "rt_lines t @ text_lines text" and ?n = "rt_maxlen t"
  let ?kept = "drop (length ?all - ?n) ?all"
  have kept: "foldl (ring_append ?n) (rt_lines t) (text_lines text) = ?kept" by (rule ring_append_all [OF assms])
  obtain dropped where d: "?kept = dropped @ trim_bytes ?kept" using trim_bytes_suffix by blast
  have lines: "rt_lines (tail_add t text) = trim_bytes ?kept" by (simp add: tail_add_def Let_def kept)
  have "?all = (take (length ?all - ?n) ?all @ dropped) @ trim_bytes ?kept" using d by (metis append.assoc append_take_drop_id)
  with lines show "\<exists>dropped. ?all = dropped @ rt_lines (tail_add t text)" by metis
  have "length (trim_bytes ?kept) \<le> length ?kept" using d by (metis length_append le_add2)
  with lines show "length (rt_lines (tail_add t text)) \<le> ?n" by simp
  show "rt_bytes (tail_add t text) = sum_list (map length (rt_lines (tail_add t text)))" by (simp add: tail_add_def Let_def)
  then show "rt_bytes (tail_add t text) \<le> max_build_tail_bytes" using lines trim_bytes_small by simp
  show "rt_maxlen (tail_add t text) = ?n" by (simp add: tail_add_def Let_def)
qed

section \<open>Executing an accepted command\<close>

text \<open>
  What the runner and the file system answer, threaded through a world: \<open>generate\<close> and the workflow with
  the text of their exception (the workflow also with the text it captured), the retained step logs, the
  parsed job id, whether the results could be linked, and where the job writes its output.
\<close>

record ('r, 'w) executor =
  xe_generate :: "'w \<Rightarrow> 'r \<Rightarrow> (string \<times> json) list \<Rightarrow> string option \<times> 'w"
  xe_normalise :: "'w \<Rightarrow> path \<Rightarrow> 'w"
  xe_workflow :: "'w \<Rightarrow> 'r \<Rightarrow> (string option \<times> string) \<times> 'w"
  xe_step_logs :: "'w \<Rightarrow> path \<Rightarrow> string"
  xe_job_id :: "'w \<Rightarrow> path \<Rightarrow> int option"
  xe_link :: "'w \<Rightarrow> path \<Rightarrow> bool \<times> 'w"
  xe_stdout :: "'w \<Rightarrow> path \<Rightarrow> string option"

type_synonym emitted = "simulation_state \<times> int option \<times> event_fields"

record submit_outcome =
  so_sim_id :: string
  so_state :: string
  so_job_id :: "int option"
  so_run_dir :: string
  so_stdout_path :: "string option"

definition submit_flags :: "'r cluster \<Rightarrow> submit_params \<Rightarrow> (string \<times> json) list" where
  "submit_flags k sp = (let flags = picongpu_flags sp in
     case ct_preset k of
       Some n \<Rightarrow> if has_key ''preset'' flags then flags else AList.update ''preset'' (JInt n) flags
     | None \<Rightarrow> flags)"

definition execute_submit :: "sim_lib \<Rightarrow> 'r cluster \<Rightarrow> ('r, 'w) executor \<Rightarrow> 'w \<Rightarrow> 'r prepared
    \<Rightarrow> emitted list \<times> (sim_error + submit_outcome) \<times> 'w" where
  "execute_submit L k x w p =
     (let r = pp_runner p; run_dir = pp_run_dir p in
      case xe_generate x w r (submit_flags k (pp_params p)) of
        (Some exc, w1) \<Rightarrow> ([], Inl \<lparr>se_code = EGenerateFailed, se_message = ''generate failed: '' @ exc, se_stage = Some StBuild,
           se_summary = None\<rparr>, w1)
      | (None, w1) \<Rightarrow>
          (case xe_workflow x (xe_normalise x w1 (pp_setup_dir p)) r of
             ((Some exc, text), w2) \<Rightarrow>
               (let detail = workflow_failure_detail (captured_errors text) (xe_step_logs x w2 run_dir);
                    msg = ''workflow failed: '' @ exc @ (if detail = '''' then '''' else CHR 0x0A # detail);
                    (code, stg) = classify_workflow_failure detail
                in ([], Inl \<lparr>se_code = code, se_message = msg, se_stage = Some stg, se_summary = sim_failure_summary detail\<rparr>, w2))
           | ((None, text), w2) \<Rightarrow>
               (let job_id = xe_job_id x w2 run_dir;
                    submitted = (if job_id = None then [] else
                      [(SimSubmitted, job_id, no_fields\<lparr>ef_submit_system := Some (pp_submit_system p)\<rparr>)]);
                    (linked, w3) = xe_link x w2 run_dir
                in (submitted @ [(SimWorkflowFinished, job_id, no_fields\<lparr>ef_results_linked := Some linked\<rparr>)],
                    Inr \<lparr>so_sim_id = payload_sim_id L (pp_payload p), so_state = state_value SimWorkflowFinished, so_job_id = job_id,
                      so_run_dir = path_str run_dir, so_stdout_path = xe_stdout x w3 run_dir\<rparr>, w3))))"

text \<open>A failing execution emits nothing itself and names a stage; a successful one reports the end of the workflow last.\<close>

lemma execute_submit_cases:
  "case execute_submit L k x w p of
     (evs, Inl e, w') \<Rightarrow> evs = [] \<and> se_stage e \<noteq> None \<and> se_code e \<in> {EGenerateFailed, EBuildFailed, ERunFailed} \<and>
       (se_code e = EBuildFailed \<longrightarrow> se_stage e = Some StBuild)
   | (evs, Inr out, w') \<Rightarrow> so_sim_id out = payload_sim_id L (pp_payload p) \<and> fst (last evs) = SimWorkflowFinished \<and>
       (\<exists>e \<in> set evs. fst e = SimSubmitted) = (so_job_id out \<noteq> None) \<and> (\<forall>e \<in> set evs. fst (snd e) = so_job_id out)"
proof -
  have c: "fst (classify_workflow_failure d) \<in> {EBuildFailed, ERunFailed}"
    "fst (classify_workflow_failure d) = EBuildFailed \<longrightarrow> snd (classify_workflow_failure d) = StBuild" for d
    by (simp_all add: classify_workflow_failure_def)
  obtain g w1 where g: "xe_generate x w (pp_runner p) (submit_flags k (pp_params p)) = (g, w1)" by fastforce
  obtain a out w2 where a: "xe_workflow x (xe_normalise x w1 (pp_setup_dir p)) (pp_runner p) = ((a, out), w2)"
    by (metis prod.exhaust)
  obtain linked w3 where l: "xe_link x w2 (pp_run_dir p) = (linked, w3)" by fastforce
  show ?thesis
  proof (cases g)
    case None
    show ?thesis using c
      by (cases a) (auto simp: execute_submit_def Let_def g None a l split_def)
  qed (simp add: execute_submit_def Let_def g)
qed

section \<open>What acceptance means\<close>

lemma runner_from_payload_Inr:
  assumes "runner_from_payload L k p token = Inr (r, setup, run)"
  shows "token_ok token" "path_under (ct_resolve k (ct_setup_root k)) setup" "path_under (ct_resolve k (ct_setup_root k)) run"
    "py_equal (ct_sim_dump k r) (get_or (pl_simulation p) ''sim'' JNull)"
    "\<exists>validate. ct_runner k = Some validate"
  using assms unfolding runner_from_payload_def path_under_iff
  by (auto simp: Let_def split: if_splits option.splits sum.splits)

lemma params_of_ok: "params_of L v = Inr sp \<Longrightarrow> params_ok sp"
  by (auto simp: params_of_def Let_def split: option.splits json.splits if_splits dest: validate_params_ok)

lemma validate_payload_simulation:
  "validate_payload L doc = Some p \<Longrightarrow> map_of doc ''simulation'' = Some (JObj (pl_simulation p))"
  by (auto simp: validate_payload_def required_def obj_field_def split: if_splits option.splits json.splits)

lemma check_payload_hash_Inr:
  "check_payload_hash L doc header = Inr u \<longleftrightarrow> (\<exists>s. map_of doc ''simulation'' = Some s \<and>
     get_str L header ''payload_hash'' '''' = sl_sha L (canonical_bytes (sl_frepr L) s) \<and> get_str L header ''payload_hash'' '''' \<noteq> '''')"
  by (auto simp: check_payload_hash_def Let_def split: option.splits)

lemma prepare_submit_Inr:
  assumes "prepare_submit L k doc header params token = Inr pr"
  shows "validate_payload L doc = Some (pp_payload pr)"
    "get_str L header ''payload_hash'' '''' = payload_hash L (pp_payload pr)"
    "get_str L header ''sim_id'' '''' = payload_sim_id L (pp_payload pr)"
    "check_allowlist (pp_payload pr) = None" "provenance_mismatches (pp_payload pr) (ct_provenance k) = []"
    "params_of L params = Inr (pp_params pr)" "pp_submit_system pr = default_submit_system"
    "detect_submit_system k = Some default_submit_system"
    "runner_from_payload L k (pp_payload pr) token = Inr (pp_runner pr, pp_setup_dir pr, pp_run_dir pr)"
  using assms unfolding prepare_submit_def
  by (auto simp: bind_res_Inr_iff check_submit_system_def split: option.splits if_splits)

section \<open>A concrete installation\<close>

definition sample_sim_lib :: sim_lib where
  "sample_sim_lib = \<lparr>sl_sha = (\<lambda>t. ''0123abcd'' @ t), sl_frepr = sample_frepr, sl_str_other = (\<lambda>v. ''other''), sl_lax_int = sample_lax_int,
     sl_lax_bool = (\<lambda>v. case v of JBool b \<Rightarrow> Some b | _ \<Rightarrow> None), sl_dump_json = dumps_raw sample_frepr,
     sl_loads = (\<lambda>s. Inr (JObj [(''wire_format_version'', JInt 1), (''picongpu_version'', JStr ''1''), (''picongpu_revision'', JStr ''''),
       (''schema_hash'', JStr ''h''), (''simulation'', JObj [(''sim'', JInt 5)])])), sl_invalid = (\<lambda>m v. ''invalid '' @ m)\<rparr>"

definition sample_payload :: sim_payload where
  "sample_payload = \<lparr>pl_wire_format_version = 1, pl_picongpu_version = ''1'', pl_picongpu_revision = '''', pl_schema_hash = ''h'',
     pl_simulation = [(''sim'', JInt 5)]\<rparr>"

definition sample_cluster :: "json cluster" where
  "sample_cluster = \<lparr>ct_setup_root = [''data''], ct_template_dir = '''', ct_preset = None, ct_tbg_submit = Some ''sbatch'', ct_resolve = (\<lambda>p. p),
     ct_runner = Some (\<lambda>d. Inr (get_or d ''sim'' JNull)), ct_sim_dump = (\<lambda>r. r),
     ct_provenance = \<lparr>pv_picongpu_version = ''1'', pv_schema_hash = ''h'', pv_picongpu_revision = ''''\<rparr>\<rparr>"

definition sample_params :: submit_params where
  "sample_params = default_params\<lparr>sp_build_jobs := Some 4, sp_cfg_file := Some ''etc/1.cfg'', sp_overwrite_vars := Some [''A=1'']\<rparr>"

lemma sample_lib_laws:
  "sl_lax_int sample_sim_lib (JInt i) = Some i" "sl_lax_bool sample_sim_lib (JBool b) = Some b"
  by (simp_all add: sample_sim_lib_def sample_lax_int_def)

section \<open>Properties\<close>



text \<open>
  C23: A submit command is accepted only if its header carries the hash and the id of the very simulation it
  embeds, that simulation has the one allowed field, version and schema match this install, the flags are
  inert, the cluster submits with sbatch, and setup and run directories lie under the configured root.
\<close>

theorem accepted_submit_is_checked:
  assumes "prepare_submit L k doc header params token = Inr pr" "distinct (keys (pl_simulation (pp_payload pr)))"
  shows "(\<exists>v. pl_simulation (pp_payload pr) = [(''sim'', v)] \<and> map_of doc ''simulation'' = Some (JObj [(''sim'', v)]) \<and>
        py_equal (ct_sim_dump k (pp_runner pr)) v) \<and>
    get_str L header ''payload_hash'' '''' = payload_hash L (pp_payload pr) \<and>
    get_str L header ''sim_id'' '''' = take 8 (payload_hash L (pp_payload pr)) \<and>
    provenance_mismatches (pp_payload pr) (ct_provenance k) = [] \<and> params_ok (pp_params pr) \<and>
    ct_tbg_submit k = Some ''sbatch'' \<and> token_ok token \<and>
    path_under (ct_resolve k (ct_setup_root k)) (pp_setup_dir pr) \<and> path_under (ct_resolve k (ct_setup_root k)) (pp_run_dir pr)"
proof -
  note p = prepare_submit_Inr [OF assms(1)]
  obtain v where v: "pl_simulation (pp_payload pr) = [(''sim'', v)]" using p(4) allowlist_iff [OF assms(2)] by blast
  note r = runner_from_payload_Inr [OF p(9)]
  have "py_equal (ct_sim_dump k (pp_runner pr)) v" using r(4) by (simp add: v get_or_def)
  moreover have "map_of doc ''simulation'' = Some (JObj [(''sim'', v)])" using validate_payload_simulation [OF p(1)] v by simp
  moreover have "ct_tbg_submit k = Some ''sbatch''"
    using p(8) by (auto simp: detect_submit_system_def default_submit_system_def split: if_splits)
  ultimately show ?thesis using v p(2,3,5) r(1-3) params_of_ok [OF p(6)] by (simp add: payload_sim_id_def)
qed

definition sample_doc :: "(string \<times> json) list" where
  "sample_doc = [(''wire_format_version'', JInt 1), (''picongpu_version'', JStr ''1''), (''picongpu_revision'', JStr ''''),
     (''schema_hash'', JStr ''h''), (''simulation'', JObj [(''sim'', JInt 5)])]"

definition sample_prepared :: "json prepared" where
  "sample_prepared = \<lparr>pp_payload = sample_payload, pp_params = sample_params, pp_runner = JInt 5,
     pp_run_dir = [''data'', ''0123abcd'', ''00112233'', ''run''], pp_setup_dir = [''data'', ''0123abcd'', ''00112233'', ''input''],
     pp_submit_system = ''sbatch''\<rparr>"

lemma sample_prepares:
  "prepare_submit sample_sim_lib sample_cluster sample_doc (payload_counts sample_sim_lib sample_payload)
     (Some (JObj (dump_params sample_params))) ''00112233'' = Inr sample_prepared"
  by code_simp

theorem accepted_submit_is_checked_witness:
  "path_under [''data''] (pp_run_dir sample_prepared) \<and> params_ok sample_params \<and> token_ok ''00112233''"
  using accepted_submit_is_checked [OF sample_prepares]
  by (simp add: sample_prepared_def sample_payload_def sample_cluster_def)

text \<open>
  What the server builds, the client accepts: the command of a payload that fits the wire limit parses back
  to that payload and those flags and passes every check, on an install with matching provenance, an sbatch
  cluster and a runner that takes the simulation.
\<close>

theorem built_command_is_accepted:
  assumes "build_submit_command L now fresh sim sq p params cmd_id irt = Inr m"
    and "\<And>i. sl_lax_int L (JInt i) = Some i" "\<And>b. sl_lax_bool L (JBool b) = Some b"
    and "sl_loads L (payload_body L p) = Inr (dump_payload p)"
    and "flags = (case params of None \<Rightarrow> default_params | Some f \<Rightarrow> f)" "params_ok flags"
    and "pl_simulation p = [(''sim'', v)]" "payload_hash L p \<noteq> ''''"
    and "provenance_mismatches p (ct_provenance k) = []" "ct_tbg_submit k = Some ''sbatch''"
    and "runner_from_payload L k p token = Inr (r, setup, run)"
  shows "\<exists>raw doc header prm. map_of (rm_payload m) ''payload'' = Some (JStr raw) \<and> parse_payload L raw = Inr doc \<and>
    map_of (rm_payload m) ''header'' = Some (JObj header) \<and> map_of (rm_payload m) ''params'' = Some prm \<and>
    length (json_string raw) + envelope_allowance_bytes \<le> max_inline_payload_bytes \<and>
    prepare_submit L k doc header (Some prm) token = Inr \<lparr>pp_payload = p, pp_params = flags, pp_runner = r,
      pp_run_dir = run, pp_setup_dir = setup, pp_submit_system = ''sbatch''\<rparr>"
proof -
  let ?raw = "payload_body L p" and ?hdr = "payload_counts L p" and ?prm = "JObj (dump_params flags)"
  have size: "payload_wire_size L p \<le> max_inline_payload_bytes" and m: "rm_payload m = [(''cmd_id'', JStr (or_fresh cmd_id fresh)),
      (''header'', JObj ?hdr), (''payload'', JStr ?raw), (''params'', ?prm)]"
    using assms(1,5) by (auto simp: build_submit_command_def payload_wire_bytes_def Let_def bind_res_Inr_iff split: if_splits)
  obtain doc where doc: "dump_payload p = JObj doc" "validate_payload L doc = Some p" using validate_dump_payload [OF assms(2)] by blast
  have sim: "map_of doc ''simulation'' = Some (JObj (pl_simulation p))" by (rule validate_payload_simulation [OF doc(2)])
  have hdr: "get_str L ?hdr ''payload_hash'' '''' = payload_hash L p" "get_str L ?hdr ''sim_id'' '''' = payload_sim_id L p"
    by (simp_all add: payload_counts_def)
  have hash: "check_payload_hash L doc ?hdr = Inr ()"
    unfolding check_payload_hash_Inr using sim hdr(1) assms(8) by (simp add: payload_hash_def)
  have allow: "check_allowlist p = None" by (rule iffD2 [OF allowlist_iff]) (use assms(7) in auto)
  have prm: "params_of L (Some ?prm) = Inr flags"
    using validate_dump_params [of L, OF assms(2,3,6)] by (simp add: params_of_def)
  have sys: "check_submit_system k = Inr ''sbatch''"
    using assms(10) by (simp add: check_submit_system_def detect_submit_system_def default_submit_system_def truthy_def)
  have prep: "prepare_submit L k doc ?hdr (Some ?prm) token = Inr \<lparr>pp_payload = p, pp_params = flags, pp_runner = r,
      pp_run_dir = run, pp_setup_dir = setup, pp_submit_system = ''sbatch''\<rparr>"
    unfolding prepare_submit_def hash bind_res_simps doc(2) option.case hdr allow prm sys assms(9,11) by simp
  have parse: "parse_payload L ?raw = Inr doc" using assms(4) doc(1) by (simp add: parse_payload_def)
  have "length (json_string ?raw) + envelope_allowance_bytes \<le> max_inline_payload_bytes" using size by (simp add: payload_wire_size_def)
  with prep parse m show ?thesis by (intro exI [of _ ?raw] exI [of _ doc] exI [of _ ?hdr] exI [of _ ?prm] conjI) simp_all
qed

theorem built_command_is_accepted_witness:
  "\<exists>m raw doc. build_submit_command sample_sim_lib ''t'' ''c'' ''s'' 1 sample_payload (Some sample_params) None None = Inr m \<and>
     map_of (rm_payload m) ''payload'' = Some (JStr raw) \<and> parse_payload sample_sim_lib raw = Inr doc"
proof -
  have "\<exists>m. build_submit_command sample_sim_lib ''t'' ''c'' ''s'' 1 sample_payload (Some sample_params) None None = Inr m"
  proof -
    have "length (json_string (payload_body sample_sim_lib sample_payload)) < 200" by code_simp
    then have "\<not> payload_wire_size sample_sim_lib sample_payload > max_inline_payload_bytes"
      by (simp add: payload_wire_size_def max_inline_payload_bytes_def envelope_allowance_bytes_def)
    then show ?thesis by (simp add: build_submit_command_def payload_wire_bytes_def Let_def)
  qed
  then obtain m where m: "build_submit_command sample_sim_lib ''t'' ''c'' ''s'' 1 sample_payload (Some sample_params) None None = Inr m" ..
  have "sl_loads sample_sim_lib (payload_body sample_sim_lib sample_payload) = Inr (dump_payload sample_payload)" by code_simp
  moreover have "params_ok sample_params" "provenance_mismatches sample_payload (ct_provenance sample_cluster) = []" by code_simp+
  moreover have "payload_hash sample_sim_lib sample_payload \<noteq> ''''" by code_simp
  moreover have "runner_from_payload sample_sim_lib sample_cluster sample_payload ''00112233'' =
      Inr (JInt 5, [''data'', ''0123abcd'', ''00112233'', ''input''], [''data'', ''0123abcd'', ''00112233'', ''run''])" by code_simp
  ultimately have "\<exists>raw doc header prm. map_of (rm_payload m) ''payload'' = Some (JStr raw) \<and> parse_payload sample_sim_lib raw = Inr doc \<and>
    map_of (rm_payload m) ''header'' = Some (JObj header) \<and> map_of (rm_payload m) ''params'' = Some prm \<and>
    length (json_string raw) + envelope_allowance_bytes \<le> max_inline_payload_bytes \<and>
    prepare_submit sample_sim_lib sample_cluster doc header (Some prm) ''00112233'' = Inr \<lparr>pp_payload = sample_payload,
      pp_params = sample_params, pp_runner = JInt 5, pp_run_dir = [''data'', ''0123abcd'', ''00112233'', ''run''],
      pp_setup_dir = [''data'', ''0123abcd'', ''00112233'', ''input''], pp_submit_system = ''sbatch''\<rparr>"
    by (intro built_command_is_accepted [OF m sample_lib_laws]) (simp_all add: sample_payload_def sample_cluster_def)
  with m show ?thesis by blast
qed

text \<open>
  Whatever a build prints, the live tail keeps at most the last \<open>maxlen\<close> lines and 64 KiB of them, counts its
  bytes exactly, and is the end of everything printed so far without blank lines.
\<close>

theorem build_tail_bounded:
  "let t = foldl tail_add (new_tail n) chunks in
     length (rt_lines t) \<le> n \<and> rt_bytes t = sum_list (map length (rt_lines t)) \<and> rt_bytes t \<le> 65536 \<and>
     (\<exists>dropped. concat (map text_lines chunks) = dropped @ rt_lines t)"
proof -
  have "length (rt_lines t) \<le> n \<and> rt_maxlen t = n \<and> rt_bytes t = sum_list (map length (rt_lines t)) \<and> rt_bytes t \<le> 65536 \<and>
      (\<exists>dropped. concat (map text_lines chunks) = dropped @ rt_lines t)" if "t = foldl tail_add (new_tail n) chunks" for t
    using that
  proof (induction chunks arbitrary: t rule: rev_induct)
    case Nil
    then show ?case by (simp add: new_tail_def)
  next
    case (snoc c cs)
    let ?s = "foldl tail_add (new_tail n) cs"
    from snoc.IH [OF refl] obtain dropped where s: "length (rt_lines ?s) \<le> rt_maxlen ?s" "rt_maxlen ?s = n"
      "concat (map text_lines cs) = dropped @ rt_lines ?s" by auto
    note a = tail_add_suffix [OF s(1), of c]
    from a(1) obtain d where "rt_lines ?s @ text_lines c = d @ rt_lines (tail_add ?s c)" by blast
    then have "concat (map text_lines (cs @ [c])) = (dropped @ d) @ rt_lines (tail_add ?s c)" using s(3) by simp
    then show ?case using a(2-5) s(2) snoc.prems by (auto simp: max_build_tail_bytes_def)
  qed
  then show ?thesis by (simp add: Let_def)
qed

text \<open>
  A raw exit status and its shifted form name the same signal for every signal number up to 127, and a status is
  named exactly when it encodes a death by signal in one of the two forms.
\<close>

theorem exit_signal_encodings:
  "(\<forall>n \<in> {1..127}. signal_from_exit_code (Some ((128 + n) * 256)) = signal_from_exit_code (Some (128 + n)) \<and>
      signal_from_exit_code (Some (128 + n)) \<noteq> None) \<and>
   (\<forall>c. signal_from_exit_code (Some c) = None \<longleftrightarrow> c \<le> 128 \<or> (255 < c \<and> c < 129 * 256)) \<and> signal_from_exit_code None = None"
  by (intro conjI allI ballI signal_none signal_both_encodings) (auto simp: signal_from_exit_code_def)

theorem exit_signal_encodings_witness:
  "signal_from_exit_code (Some 35584) = Some ''SIGSEGV''"
proof -
  have "signal_from_exit_code (Some ((128 + 11) * 256)) = signal_from_exit_code (Some (128 + 11))"
    using bspec [OF conjunct1 [OF exit_signal_encodings], of 11] by simp
  moreover have "signal_from_exit_code (Some (128 + 11)) = Some ''SIGSEGV''" by code_simp
  ultimately show ?thesis by simp
qed

end
