(* ===== verification/SimStore.thy ===== *)
theory SimStore
  imports SimSubmit
begin

text \<open>
  The durable idempotency store of \<open>SimClient\<close> (\<open>ProcessedCommand\<close>, \<open>_load_processed\<close>,
  \<open>_persist_processed\<close>, \<open>_rewrite_processed\<close>): a dict in memory and an append-only file of JSON lines,
  the last line of a command id winning on load.
\<close>

section \<open>Records\<close>

record hello_result =
  hr_job_id :: "int option"
  hr_cluster_output :: "string option"
  hr_error :: "string option"
  hr_error_code :: "string option"

record processed =
  pc_cmd_id :: string
  pc_completed :: bool
  pc_job_id :: "int option"
  pc_cluster_output :: "string option"
  pc_error :: "string option"
  pc_payload_hash :: "string option"
  pc_sim_id :: "string option"
  pc_state :: "string option"
  pc_error_code :: "string option"

definition new_record :: "string \<Rightarrow> processed" where
  "new_record cmd_id = \<lparr>pc_cmd_id = cmd_id, pc_completed = False, pc_job_id = None, pc_cluster_output = None, pc_error = None,
     pc_payload_hash = None, pc_sim_id = None, pc_state = None, pc_error_code = None\<rparr>"

lemma new_record_simps [simp]:
  "pc_cmd_id (new_record c) = c" "pc_payload_hash (new_record c) = None" "pc_completed (new_record c) = False"
  by (simp_all add: new_record_def)

definition outcome_unknown_error :: string where
  "outcome_unknown_error = ''already_submitted:outcome_unknown''"

definition to_result :: "processed \<Rightarrow> hello_result" where
  "to_result r = (if pc_completed r
     then \<lparr>hr_job_id = pc_job_id r, hr_cluster_output = pc_cluster_output r, hr_error = pc_error r, hr_error_code = pc_error_code r\<rparr>
     else \<lparr>hr_job_id = pc_job_id r, hr_cluster_output = None, hr_error = Some outcome_unknown_error,
       hr_error_code = Some (error_value EOutcomeUnknown)\<rparr>)"

section \<open>Memory and file\<close>

text \<open>
  A record's JSON line is pydantic's (\<open>model_dump_json\<close>, \<open>model_validate_json\<close>). A write is done, or
  raises \<open>OSError\<close> after some of its characters reached the file.
\<close>

record codec =
  cd_dump :: "processed \<Rightarrow> string"
  cd_parse :: "string \<Rightarrow> processed option"

datatype write_outcome = Written | Torn nat

record cmd_store =
  ps_mem :: "(string \<times> processed) list"
  ps_file :: string

definition max_processed :: nat where
  "max_processed = 4096"

definition line_of :: "codec \<Rightarrow> processed \<Rightarrow> string" where
  "line_of cd r = cd_dump cd r @ [CHR 0x0A]"

definition load_line :: "codec \<Rightarrow> string \<Rightarrow> (string \<times> processed) list \<Rightarrow> (string \<times> processed) list" where
  "load_line cd l d = (if py_strip l = '''' then d else case cd_parse cd l of None \<Rightarrow> d | Some r \<Rightarrow> AList.update (pc_cmd_id r) r d)"

definition load_processed :: "codec \<Rightarrow> string \<Rightarrow> (string \<times> processed) list" where
  "load_processed cd file = fold (load_line cd) (splitlines file) []"

text \<open>Compaction keeps the latest records of the dict; the file is replaced only if writing it all succeeded.\<close>

definition rewrite_processed :: "codec \<Rightarrow> bool \<Rightarrow> cmd_store \<Rightarrow> cmd_store" where
  "rewrite_processed cd ok st =
     (let recent = drop (length (ps_mem st) - max_processed) (ps_mem st)
      in st\<lparr>ps_mem := recent, ps_file := (if ok then concat (map (\<lambda>(k, r). line_of cd r) recent) else ps_file st)\<rparr>)"

definition persist_processed :: "codec \<Rightarrow> write_outcome \<Rightarrow> bool \<Rightarrow> processed \<Rightarrow> cmd_store \<Rightarrow> cmd_store" where
  "persist_processed cd wo rw r st = (case wo of
     Torn n \<Rightarrow> st\<lparr>ps_file := ps_file st @ take n (line_of cd r)\<rparr>
   | Written \<Rightarrow>
       (let st' = st\<lparr>ps_mem := AList.update (pc_cmd_id r) r (ps_mem st), ps_file := ps_file st @ line_of cd r\<rparr>
        in if length (ps_mem st') > max_processed then rewrite_processed cd rw st' else st'))"

section \<open>What is loaded is what was persisted\<close>

text \<open>A record whose JSON text is one line that parses back.\<close>

definition one_line :: "codec \<Rightarrow> processed \<Rightarrow> bool" where
  "one_line cd r \<longleftrightarrow> cd_parse cd (cd_dump cd r) = Some r \<and> (\<forall>c \<in> set (cd_dump cd r). \<not> line_break c) \<and> py_strip (cd_dump cd r) \<noteq> ''''"

lemma line_breaks_split:
  assumes "\<forall>c \<in> set (cd_dump cd r). \<not> line_break c" "ends_line f"
  shows "splitlines (f @ line_of cd r) = splitlines f @ [cd_dump cd r]"
  using splitlines_line [OF assms(1), of "[]"] splitlines_append [OF assms(2)] by (simp add: line_of_def)

lemma load_append:
  assumes "one_line cd r" "ends_line file"
  shows "load_processed cd (file @ line_of cd r) = AList.update (pc_cmd_id r) r (load_processed cd file)"
proof -
  have "splitlines (file @ line_of cd r) = splitlines file @ [cd_dump cd r]"
    by (rule line_breaks_split) (use assms in \<open>auto simp: one_line_def\<close>)
  then show ?thesis using assms(1) by (simp add: load_processed_def load_line_def one_line_def)
qed

lemma load_lines:
  assumes "\<forall>r \<in> set rs. one_line cd r" "distinct (map pc_cmd_id rs)"
  shows "load_processed cd (concat (map (line_of cd) rs)) = map (\<lambda>r. (pc_cmd_id r, r)) rs \<and> ends_line (concat (map (line_of cd) rs))"
  using assms
proof (induction rs rule: rev_induct)
  case Nil
  then show ?case by (simp add: load_processed_def ends_line_def)
next
  case (snoc r rs)
  then have IH: "load_processed cd (concat (map (line_of cd) rs)) = map (\<lambda>r. (pc_cmd_id r, r)) rs" "ends_line (concat (map (line_of cd) rs))"
    by auto
  have "pc_cmd_id r \<notin> set (keys (map (\<lambda>r. (pc_cmd_id r, r)) rs))" using snoc.prems(2) by (auto simp: comp_def)
  then show ?case using load_append [OF _ IH(2), where r = r] snoc.prems(1) IH(1)
    by (simp add: update_append) (simp add: ends_line_def line_of_def)
qed

text \<open>The invariant of the store: the file, loaded, is the memory.\<close>

definition durable_store :: "codec \<Rightarrow> cmd_store \<Rightarrow> bool" where
  "durable_store cd st \<longleftrightarrow> load_processed cd (ps_file st) = ps_mem st \<and> ends_line (ps_file st) \<and>
     distinct (keys (ps_mem st)) \<and> list_all (\<lambda>(k, r). k = pc_cmd_id r \<and> one_line cd r) (ps_mem st) \<and> length (ps_mem st) \<le> max_processed"

lemma persist_durable:
  assumes "durable_store cd st" "one_line cd r"
  shows "durable_store cd (persist_processed cd Written True r st)"
proof -
  let ?mem = "AList.update (pc_cmd_id r) r (ps_mem st)" and ?file = "ps_file st @ line_of cd r"
  note inv = assms(1) [unfolded durable_store_def]
  have load: "load_processed cd ?file = ?mem" using load_append [OF assms(2)] inv by simp
  have ends: "ends_line ?file" by (simp add: ends_line_def line_of_def)
  have dist: "distinct (keys ?mem)" using inv by (simp add: distinct_update)
  have all: "list_all (\<lambda>(k, r). k = pc_cmd_id r \<and> one_line cd r) ?mem"
    using inv assms(2) update_set [of "pc_cmd_id r" r "ps_mem st"] by (fastforce simp: list_all_iff)
  show ?thesis
  proof (cases "length ?mem > max_processed")
    case False
    then show ?thesis using load ends dist all by (simp add: persist_processed_def durable_store_def Let_def)
  next
    case True
    let ?recent = "drop (length ?mem - max_processed) ?mem"
    have sub: "set ?recent \<subseteq> set ?mem" by (rule set_drop_subset)
    have rall: "list_all (\<lambda>(k, r). k = pc_cmd_id r \<and> one_line cd r) ?recent" using all sub by (auto simp: list_all_iff)
    have rdist: "distinct (keys ?recent)" using dist by (simp add: drop_map [symmetric])
    have pairs: "?recent = map (\<lambda>r. (pc_cmd_id r, r)) (map snd ?recent)"
      using rall by (auto simp: list_all_iff comp_def intro!: map_idI [symmetric])
    have ks: "map pc_cmd_id (map snd ?recent) = keys ?recent" using rall by (auto simp: list_all_iff)
    have ones: "\<forall>r \<in> set (map snd ?recent). one_line cd r" using rall by (auto simp: list_all_iff)
    have "distinct (map pc_cmd_id (map snd ?recent))" unfolding ks by (rule rdist)
    note ll = load_lines [OF ones this]
    have cc: "concat (map (line_of cd) (map snd ?recent)) = concat (map (\<lambda>(k, r). line_of cd r) ?recent)"
      by (simp add: comp_def split_def)
    show ?thesis using True ll pairs rdist rall unfolding cc
      by (simp add: persist_processed_def rewrite_processed_def durable_store_def Let_def)
  qed
qed

lemma persist_mem:
  assumes "length (AList.update (pc_cmd_id r) r (ps_mem st)) \<le> max_processed"
  shows "ps_mem (persist_processed cd Written rw r st) = AList.update (pc_cmd_id r) r (ps_mem st)"
  using assms by (simp add: persist_processed_def Let_def)

end
