(* ===== verification/Slurm.thy ===== *)
theory Slurm
  imports PyText PyFloat
begin

text \<open>
  \<open>slurm/client.py\<close>: job states, the readers of \<open>sbatch\<close>, \<open>scontrol\<close> and \<open>sacct\<close> output, the fixed
  set of signals, and the polling loop. What a command prints is an argument.
\<close>

section \<open>Reading numbers and tokens\<close>

text \<open>\<open>int(text)\<close>: surrounding whitespace, a sign, decimal digits with single underscores between them.\<close>

fun digits_value :: "int \<Rightarrow> string \<Rightarrow> int option" where
  "digits_value acc [] = Some acc"
| "digits_value acc (c # s) =
     (if digit c then digits_value (acc * 10 + int (char_nat c - 48)) s
      else if c = CHR ''_'' then (case s of d # t \<Rightarrow> if digit d then digits_value acc s else None | [] \<Rightarrow> None)
      else None)"

definition unsigned_value :: "string \<Rightarrow> int option" where
  "unsigned_value s = (case s of [] \<Rightarrow> None | c # t \<Rightarrow> if digit c then digits_value 0 s else None)"

definition py_int :: "string \<Rightarrow> int option" where
  "py_int text = (let s = py_strip text in
     case s of [] \<Rightarrow> None
     | c # t \<Rightarrow> if c = CHR ''-'' then map_option uminus (unsigned_value t)
         else if c = CHR ''+'' then unsigned_value t else unsigned_value s)"

text \<open>\<open>re.search\<close> of a literal followed by a run of one or more characters of a class: the run.\<close>

fun search_run :: "string \<Rightarrow> (char \<Rightarrow> bool) \<Rightarrow> string \<Rightarrow> string option" where
  "search_run w p [] = None"
| "search_run w p (c # s) =
     (let r = takeWhile p (drop (length w) (c # s))
      in if starts_with w (c # s) \<and> r \<noteq> [] then Some r else search_run w p s)"

section \<open>States\<close>

datatype job_state = JPending | JRunning | JCompleting | JCompleted | JFailed | JCancelled | JTimeout | JUnknown

fun job_state_value :: "job_state \<Rightarrow> string" where
  "job_state_value JPending = ''PENDING''"
| "job_state_value JRunning = ''RUNNING''"
| "job_state_value JCompleting = ''COMPLETING''"
| "job_state_value JCompleted = ''COMPLETED''"
| "job_state_value JFailed = ''FAILED''"
| "job_state_value JCancelled = ''CANCELLED''"
| "job_state_value JTimeout = ''TIMEOUT''"
| "job_state_value JUnknown = ''UNKNOWN''"

definition parse_job_state :: "string \<Rightarrow> job_state option" where
  "parse_job_state s = map_of (map (\<lambda>st. (job_state_value st, st))
     [JPending, JRunning, JCompleting, JCompleted, JFailed, JCancelled, JTimeout, JUnknown]) s"

definition job_terminal :: "job_state \<Rightarrow> bool" where
  "job_terminal st = (st \<in> {JCompleted, JFailed, JCancelled, JTimeout})"

record job_info =
  ji_job_id :: int
  ji_state :: job_state
  ji_exit_code :: "int option"
  ji_reason :: "string option"

definition permanent_reasons :: "string list" where
  "permanent_reasons = [''PartitionNodeLimit'', ''PartitionTimeLimit'', ''PartitionConfig'', ''MaxNodes'']"

definition is_permanent_reason :: "string option \<Rightarrow> bool" where
  "is_permanent_reason r = (case r of None \<Rightarrow> False | Some s \<Rightarrow> s \<in> set permanent_reasons)"

definition job_permanent :: "job_info \<Rightarrow> bool" where
  "job_permanent i = is_permanent_reason (ji_reason i)"

section \<open>Output of the commands\<close>

text \<open>\<open>\bReason=(\S+)\<close>: the token after \<open>Reason=\<close> at a word boundary, the sentinel \<open>None\<close> left out.\<close>

fun reason_token :: "bool \<Rightarrow> string \<Rightarrow> string option" where
  "reason_token after_word [] = None"
| "reason_token after_word (c # s) =
     (let r = takeWhile (\<lambda>d. \<not> is_space d) (drop 7 (c # s))
      in if \<not> after_word \<and> starts_with ''Reason='' (c # s) \<and> r \<noteq> [] then Some r else reason_token (word_char c) s)"

definition parse_reason :: "string \<Rightarrow> string option" where
  "parse_reason output = (case reason_token False output of
     None \<Rightarrow> None | Some r \<Rightarrow> if r = ''None'' then None else Some r)"

fun exit_code_token :: "string \<Rightarrow> string option" where
  "exit_code_token [] = None"
| "exit_code_token (c # s) =
     (let t = drop 9 (c # s); r = takeWhile digit t; u = dropWhile digit t
      in if starts_with ''ExitCode='' (c # s) \<and> r \<noteq> [] \<and> (case u of d # e # v \<Rightarrow> d = CHR '':'' \<and> digit e | _ \<Rightarrow> False)
         then Some r else exit_code_token s)"

text \<open>\<open>job_info\<close>, from the exit status and the two streams of \<open>scontrol show job\<close>; \<open>Inl\<close> is what it raises.\<close>

definition read_job_info :: "int \<Rightarrow> int \<Rightarrow> string \<Rightarrow> string \<Rightarrow> string + job_info" where
  "read_job_info job_id rc out err =
     (if rc \<noteq> 0 then Inl (''scontrol failed ('' @ show_int rc @ ''): '' @ py_strip err)
      else case search_run ''JobState='' word_char out of
        None \<Rightarrow> Inl (''no JobState in scontrol output for job '' @ show_int job_id)
      | Some tok \<Rightarrow> (case parse_job_state tok of
          None \<Rightarrow> Inl (py_repr tok @ '' is not a valid SlurmJobState'')
        | Some st \<Rightarrow> Inr \<lparr>ji_job_id = job_id, ji_state = st,
            ji_exit_code = (case exit_code_token out of None \<Rightarrow> None | Some r \<Rightarrow> py_int r), ji_reason = parse_reason out\<rparr>))"

text \<open>\<open>parse_job_id\<close>; \<open>isdigit\<close> also holds of superscripts, which \<open>int\<close> then refuses (\<open>Inl\<close>).\<close>

definition isdigit :: "string \<Rightarrow> bool" where
  "isdigit s = (s \<noteq> [] \<and> list_all (\<lambda>c. digit c \<or> char_nat c \<in> {178, 179, 185}) s)"

definition parse_job_id :: "string \<Rightarrow> unit + int option" where
  "parse_job_id output = (let text = py_strip output in
     if isdigit text then (case py_int text of None \<Rightarrow> Inl () | Some i \<Rightarrow> Inr (Some i))
     else Inr (case search_run ''Submitted batch job '' digit output of None \<Rightarrow> None | Some r \<Rightarrow> py_int r))"

section \<open>Accounting\<close>

record job_accounting =
  ja_job_id :: int
  ja_core_hours :: pyfloat
  ja_gpu_hours :: pyfloat
  ja_is_gpu :: bool

definition gpu_count :: "string \<Rightarrow> int" where
  "gpu_count tres = (case search_run ''gres/gpu='' digit tres of None \<Rightarrow> 0 | Some r \<Rightarrow> (case py_int r of None \<Rightarrow> 0 | Some i \<Rightarrow> i))"

definition gpu_columns :: "string list \<Rightarrow> int" where
  "gpu_columns fs = (let first = (if length fs > 3 then gpu_count (fs ! 3) else 0)
     in if first \<noteq> 0 then first else if length fs > 4 then gpu_count (fs ! 4) else first)"
text \<open>One row: \<open>None\<close> when it is skipped; \<open>Some None\<close> when the division overflows, which is not caught.\<close>

definition seconds_per_hour :: pyfloat where
  "seconds_per_hour = Fin 3600"

definition accounting_row :: "string \<Rightarrow> job_accounting option option" where
  "accounting_row line =
     (let fs = map py_strip (split_on CHR ''|'' line) in
      if length fs < 3 then None
      else case py_int (hd (split_on CHR ''.'' (fs ! 0))) of
        None \<Rightarrow> None
      | Some job_id \<Rightarrow>
          (let elapsed = (case py_int (fs ! 1) of None \<Rightarrow> 0 | Some i \<Rightarrow> i);
               cpus = (case py_int (fs ! 2) of None \<Rightarrow> 0 | Some i \<Rightarrow> i);
               gpus = gpu_columns fs
           in Some (case (float_of_int elapsed, float_of_int cpus, float_of_int gpus) of
                (Some e, Some n, Some g) \<Rightarrow>
                  (case fdiv e seconds_per_hour of
                     Some hours \<Rightarrow> Some \<lparr>ja_job_id = job_id, ja_core_hours = fmul hours n, ja_gpu_hours = fmul hours g, ja_is_gpu = (gpus > 0)\<rparr>
                   | None \<Rightarrow> None)
              | _ \<Rightarrow> None)))"

fun accounting_rows :: "string list \<Rightarrow> (int \<times> job_accounting) list \<Rightarrow> (int \<times> job_accounting) list option" where
  "accounting_rows [] acc = Some acc"
| "accounting_rows (l # ls) acc = (case accounting_row l of
     None \<Rightarrow> accounting_rows ls acc
   | Some None \<Rightarrow> None
   | Some (Some a) \<Rightarrow> accounting_rows ls (AList.update (ja_job_id a) a acc))"

definition parse_accounting :: "string \<Rightarrow> (int \<times> job_accounting) list option" where
  "parse_accounting output = (case splitlines output of [] \<Rightarrow> Some [] | h # ls \<Rightarrow> accounting_rows ls [])"

definition accounting_header :: string where
  "accounting_header = ''JobID|ElapsedRaw|AllocCPUS|TRESUsageInTot|AllocTRES''"

text \<open>\<open>job_accounting\<close>: \<open>answer\<close> is \<open>None\<close> when the command failed to run.\<close>

definition job_accounting_of :: "int \<Rightarrow> (int \<times> string) option \<Rightarrow> job_accounting option option" where
  "job_accounting_of job_id answer = (case answer of
     None \<Rightarrow> Some None
   | Some (rc, out) \<Rightarrow> if rc \<noteq> 0 then Some None
       else (case parse_accounting (accounting_header @ CHR 0x0A # out) of
               None \<Rightarrow> None | Some rows \<Rightarrow> Some (map_of rows job_id)))"

section \<open>Polling and signals\<close>

text \<open>
  \<open>wait_for_job\<close>, along the answers of the polls and the clock after each: the last snapshot, an exception,
  or \<open>None\<close> while the answers run out before the loop ends.
\<close>

fun wait_for_job :: "int \<Rightarrow> ((string + job_info) \<times> int) list \<Rightarrow> (string + job_info) option" where
  "wait_for_job deadline [] = None"
| "wait_for_job deadline ((Inl e, now) # ps) = Some (Inl e)"
| "wait_for_job deadline ((Inr i, now) # ps) =
     (if job_terminal (ji_state i) then Some (Inr i) else if now \<ge> deadline then Some (Inr i) else wait_for_job deadline ps)"

definition allowed_signals :: "string list" where
  "allowed_signals = [''USR1'', ''USR2'', ''KILL'', ''TERM'', ''ALRM'']"

text \<open>The argument vectors of \<open>signal_job\<close> and \<open>cancel_job\<close>.\<close>

definition signal_job_argv :: "int \<Rightarrow> string \<Rightarrow> string + string list" where
  "signal_job_argv job_id sgnl = (if sgnl \<notin> set allowed_signals then Inl (''unsupported signal: '' @ sgnl)
     else Inr [''scancel'', ''--signal='' @ sgnl, show_int job_id])"

definition cancel_job_argv :: "int \<Rightarrow> string list" where
  "cancel_job_argv job_id = [''scancel'', show_int job_id]"

definition signal_argv :: "int \<Rightarrow> string \<Rightarrow> bool \<Rightarrow> string + string list" where
  "signal_argv job_id sgnl batch = (if sgnl \<notin> set allowed_signals then Inl (''unsupported signal: '' @ sgnl)
     else Inr ([''scancel'', ''--signal='' @ sgnl] @ (if batch then [''--batch''] else []) @ [show_int job_id]))"

definition cancel_argv :: "int \<Rightarrow> string \<Rightarrow> string + string list" where
  "cancel_argv job_id mode = (if mode = ''graceful'' then signal_argv job_id ''USR2'' False
     else if mode = ''hard'' then signal_argv job_id ''KILL'' False else Inl (''unknown cancel mode: '' @ mode))"

lemma wait_for_job_answer:
  assumes "wait_for_job deadline ps = Some (Inr i)"
  shows "\<exists>now. (Inr i, now) \<in> set ps \<and> (job_terminal (ji_state i) \<or> now \<ge> deadline)"
  using assms by (induction deadline ps rule: wait_for_job.induct) (fastforce split: if_splits)+

lemma wait_for_job_returns:
  assumes "\<exists>(a, now) \<in> set ps. now \<ge> deadline" shows "wait_for_job deadline ps \<noteq> None"
  using assms by (induction deadline ps rule: wait_for_job.induct) auto

text \<open>The rows filed under one base job, in order: that of the job and those of its steps.\<close>

definition rows_of :: "int \<Rightarrow> string list \<Rightarrow> job_accounting list" where
  "rows_of j ls = filter (\<lambda>a. ja_job_id a = j) (List.map_filter (\<lambda>l. case accounting_row l of Some (Some a) \<Rightarrow> Some a | _ \<Rightarrow> None) ls)"

lemma rows_of_simps [simp]:
  "rows_of j [] = []"
  "rows_of j (l # ls) = (case accounting_row l of Some (Some a) \<Rightarrow> if ja_job_id a = j then a # rows_of j ls else rows_of j ls
     | _ \<Rightarrow> rows_of j ls)"
  by (auto simp: rows_of_def List.map_filter_simps split: option.splits)

lemma accounting_rows_last:
  "accounting_rows ls acc = Some d \<Longrightarrow> map_of d j = (if rows_of j ls = [] then map_of acc j else Some (last (rows_of j ls)))"
proof (induction ls acc rule: accounting_rows.induct)
  case (2 l ls acc)
  then show ?case by (cases "accounting_row l"; cases "the (accounting_row l)") (auto split: if_splits)
qed simp

lemma parse_accounting_rows:
  assumes "\<forall>c \<in> set h. \<not> line_break c"
  shows "parse_accounting (h @ [CHR 0x0A] @ text) = accounting_rows (splitlines text) []"
  using splitlines_line [OF assms] by (simp add: parse_accounting_def)

section \<open>Properties\<close>

text \<open>
  The usage filed for a job is that of the last parsed row under its base id: a row of a job step replaces the job's
  own, and a job has no entry exactly when no row of it parses.
\<close>

theorem accounting_keeps_last_row:
  assumes "parse_accounting (h @ [CHR 0x0A] @ text) = Some d" "\<forall>c \<in> set h. \<not> line_break c"
  shows "map_of d j = (if rows_of j (splitlines text) = [] then None else Some (last (rows_of j (splitlines text))))"
  using accounting_rows_last [OF assms(1) [unfolded parse_accounting_rows [OF assms(2)]]] by simp

theorem accounting_keeps_last_row_witness:
  "\<exists>d a b. parse_accounting (''h'' @ [CHR 0x0A] @ ''7|0|96||'' @ [CHR 0x0A] @ ''7.batch|0|48|gres/gpu=1|'') = Some d \<and>
     rows_of 7 [''7|0|96||'', ''7.batch|0|48|gres/gpu=1|''] = [a, b] \<and> ja_is_gpu b \<and> \<not> ja_is_gpu a \<and> map_of d 7 = Some b"
proof -
  let ?text = "''7|0|96||'' @ [CHR 0x0A] @ ''7.batch|0|48|gres/gpu=1|''"
  have s: "splitlines ?text = [''7|0|96||'', ''7.batch|0|48|gres/gpu=1|'']" by code_simp
  have f1: "map py_strip (split_on CHR ''|'' ''7|0|96||'') = [''7'', ''0'', ''96'', '''', '''']"
    "map py_strip (split_on CHR ''|'' ''7.batch|0|48|gres/gpu=1|'') = [''7.batch'', ''0'', ''48'', ''gres/gpu=1'', '''']" by code_simp+
  have n1: "hd (split_on CHR ''.'' ''7'') = ''7''" "hd (split_on CHR ''.'' ''7.batch'') = ''7''" "py_int ''7'' = Some 7" "py_int ''0'' = Some 0"
    "py_int ''96'' = Some 96" "py_int ''48'' = Some 48" by code_simp+
  have g1: "gpu_columns [''7'', ''0'', ''96'', '''', ''''] = 0" "gpu_columns [''7.batch'', ''0'', ''48'', ''gres/gpu=1'', ''''] = 1" by code_simp+
  have r1: "\<exists>a. accounting_row ''7|0|96||'' = Some (Some a) \<and> ja_job_id a = 7 \<and> \<not> ja_is_gpu a"
    unfolding accounting_row_def f1 Let_def by (simp add: n1 g1 float_of_int_def seconds_per_hour_def)
  have r2: "\<exists>b. accounting_row ''7.batch|0|48|gres/gpu=1|'' = Some (Some b) \<and> ja_job_id b = 7 \<and> ja_is_gpu b"
    unfolding accounting_row_def f1 Let_def by (simp add: n1 g1 float_of_int_def seconds_per_hour_def)
  from r1 r2 obtain a b where ab: "accounting_row ''7|0|96||'' = Some (Some a)" "ja_job_id a = 7" "\<not> ja_is_gpu a"
    "accounting_row ''7.batch|0|48|gres/gpu=1|'' = Some (Some b)" "ja_job_id b = 7" "ja_is_gpu b" by blast
  have h: "\<forall>c \<in> set ''h''. \<not> line_break c" by code_simp
  obtain d where d: "parse_accounting (''h'' @ [CHR 0x0A] @ ?text) = Some d"
    unfolding parse_accounting_rows [OF h] s by (simp add: ab)
  have rows: "rows_of 7 [''7|0|96||'', ''7.batch|0|48|gres/gpu=1|''] = [a, b]" using ab by simp
  from accounting_keeps_last_row [OF d h, of 7] have "map_of d 7 = Some b" by (simp only: s rows) simp
  with d rows ab show ?thesis by blast
qed

end
