(* ===== verification/Progress.thy ===== *)
theory Progress
  imports Slurm
begin

text \<open>
  \<open>parsing/progress.py\<close>: the progress lines PIConGPU prints. The groups of the regular expression are read
  off one after the other; where it can match in several ways, the greedy choice is made explicit.
\<close>

section \<open>Durations\<close>

definition units :: "(string \<times> int) list" where
  "units = [(''msec'', 1), (''sec'', 1000), (''min'', 60000), (''h'', 3600000)]"

fun unit_at :: "(string \<times> int) list \<Rightarrow> string \<Rightarrow> (int \<times> string) option" where
  "unit_at [] s = None"
| "unit_at ((u, ms) # us) s = (if starts_with u s then Some (ms, drop (length u) s) else unit_at us s)"

definition number :: "string \<Rightarrow> int" where
  "number ds = foldl (\<lambda>n c. n * 10 + int (char_nat c - 48)) 0 ds"

text \<open>A match of \<open>(\d+)\s*(msec|sec|min|h)\<close> at the start: its milliseconds and the text after it.\<close>

definition time_token :: "string \<Rightarrow> (int \<times> string) option" where
  "time_token s = (let ds = takeWhile digit s in
     if ds = [] then None
     else (case unit_at units (lstrip (dropWhile digit s)) of None \<Rightarrow> None | Some (ms, t) \<Rightarrow> Some (number ds * ms, t)))"

lemma unit_at_shorter: "unit_at us s = Some (ms, t) \<Longrightarrow> length t \<le> length s"
  by (induction us) (auto split: if_splits)

lemma time_token_shorter:
  assumes "time_token s = Some (v, t)" shows "length t < length s"
proof -
  have ne: "takeWhile digit s \<noteq> []" using assms by (auto simp: time_token_def Let_def)
  have "length t \<le> length (lstrip (dropWhile digit s))"
    using assms unit_at_shorter by (fastforce simp: time_token_def Let_def split: if_splits option.splits)
  also have "\<dots> \<le> length (dropWhile digit s)" by (simp add: lstrip_def length_dropWhile_le)
  also have "\<dots> < length s" using ne by (metis length_append length_greater_0_conv less_add_same_cancel2 takeWhile_dropWhile_id)
  finally show ?thesis .
qed

text \<open>\<open>re.findall\<close>: matches from the left, each after the end of the one before.\<close>

function time_values :: "string \<Rightarrow> int list" where
  "time_values [] = []"
| "time_values (c # s) = (case time_token (c # s) of Some (v, t) \<Rightarrow> v # time_values t | None \<Rightarrow> time_values s)"
  by pat_completeness auto
termination
  by (relation "measure length") (auto dest: time_token_shorter)

definition parse_time_ms :: "string \<Rightarrow> int option" where
  "parse_time_ms text = (let vs = time_values text in if vs = [] then None else Some (sum_list vs))"

section \<open>Progress lines\<close>

record progress_line =
  pl_percent :: int
  pl_step :: int
  pl_elapsed :: string
  pl_avg_per_step :: string
  pl_elapsed_ms :: "int option"
  pl_avg_per_step_ms :: "int option"

definition avg_separator :: string where
  "avg_separator = '' | avg time per step:''"

text \<open>
  The last place where the separator stands after a non-space and before some text: the greedy group
  \<open>\S(?:.*\S)?\<close> reaches as far as it can.
\<close>

fun split_elapsed :: "string \<Rightarrow> string \<Rightarrow> (string \<times> string) option" where
  "split_elapsed before [] = None"
| "split_elapsed before (c # s) = (case split_elapsed (before @ [c]) s of
     Some r \<Rightarrow> Some r
   | None \<Rightarrow> (let after = py_strip (drop (length avg_separator) (c # s))
       in if starts_with avg_separator (c # s) \<and> before \<noteq> [] \<and> \<not> is_space (last before) \<and> after \<noteq> []
          then Some (before, after) else None))"

definition after_literal :: "string \<Rightarrow> string \<Rightarrow> string option" where
  "after_literal w s = (if starts_with w s then Some (drop (length w) s) else None)"

definition parse_progress_line :: "string \<Rightarrow> progress_line option" where
  "parse_progress_line line =
     (let s1 = lstrip line; p = takeWhile digit s1 in
      if p = [] \<or> length p > 3 then None
      else case after_literal '' % = '' (dropWhile digit s1) of
        None \<Rightarrow> None
      | Some t \<Rightarrow> (let s2 = lstrip t; st = takeWhile digit s2 in
          if st = [] then None
          else case after_literal '' | time elapsed:'' (dropWhile digit s2) of
            None \<Rightarrow> None
          | Some u \<Rightarrow> (case split_elapsed [] (lstrip u) of
              None \<Rightarrow> None
            | Some (elapsed, avg) \<Rightarrow> Some \<lparr>pl_percent = number p, pl_step = number st, pl_elapsed = elapsed, pl_avg_per_step = avg,
                pl_elapsed_ms = parse_time_ms elapsed, pl_avg_per_step_ms = parse_time_ms avg\<rparr>)))"

text \<open>True division of two integers is the correctly rounded quotient; \<open>None\<close> when it does not fit a float.\<close>

definition true_div :: "int \<Rightarrow> int \<Rightarrow> rat option" where
  "true_div a b = (case rnd (of_int a / of_int b) of Fin q \<Rightarrow> Some q | _ \<Rightarrow> None)"

text \<open>\<open>ProgressLine.eta_seconds\<close>: an integer divided by \<open>1000.0\<close>.\<close>

definition eta_seconds :: "progress_line \<Rightarrow> int \<Rightarrow> pyfloat option option" where
  "eta_seconds p total_steps = (case pl_avg_per_step_ms p of
     None \<Rightarrow> Some None
   | Some ms \<Rightarrow> if total_steps \<le> 0 then Some None
       else (case float_of_int (ms * max 0 (total_steps - pl_step p)) of
               None \<Rightarrow> None
             | Some x \<Rightarrow> map_option Some (fdiv x (Fin 1000))))"

text \<open>\<open>_eta_seconds\<close> of the follower; the outer \<open>None\<close> is an \<open>OverflowError\<close>.\<close>

definition eta_whole_seconds :: "int \<Rightarrow> int \<Rightarrow> int option \<Rightarrow> int option option" where
  "eta_whole_seconds percent step avg = (case avg of
     None \<Rightarrow> Some None
   | Some ms \<Rightarrow> if ms = 0 \<or> percent \<le> 0 \<or> step \<le> 0 then Some None
       else (case true_div (step * 100) percent of
           None \<Rightarrow> None
         | Some q \<Rightarrow> (case true_div (ms * max 0 (round_even q - step)) 1000 of
             None \<Rightarrow> None
           | Some r \<Rightarrow> Some (Some (if r \<ge> 0 then floor r else ceiling r)))))"

section \<open>What the parser returns\<close>

lemma split_elapsed_Some:
  "split_elapsed before s = Some (e, a) \<Longrightarrow> (\<exists>rest. before @ s = e @ avg_separator @ rest \<and> a = py_strip rest) \<and>
     e \<noteq> [] \<and> \<not> is_space (last e) \<and> a \<noteq> []"
proof (induction before s rule: split_elapsed.induct)
  case (2 before c s)
  show ?case
  proof (cases "split_elapsed (before @ [c]) s")
    case None
    with "2.prems" have h: "starts_with avg_separator (c # s)" "before = e" "a = py_strip (drop (length avg_separator) (c # s))"
      "before \<noteq> []" "\<not> is_space (last before)" "a \<noteq> []"
      by (auto simp: Let_def split: if_splits)
    then obtain r where "c # s = avg_separator @ r" by (auto simp: starts_with_iff)
    with h show ?thesis by auto
  next
    case (Some r)
    with "2.prems" have "split_elapsed (before @ [c]) s = Some (e, a)" by simp
    from "2.IH" [OF this] show ?thesis by simp
  qed
qed simp

lemma parse_progress_SomeD:
  assumes "parse_progress_line line = Some p"
  shows "0 \<le> pl_percent p \<and> pl_percent p \<le> 999 \<and> 0 \<le> pl_step p"
    "pl_elapsed p \<noteq> []" "pl_avg_per_step p \<noteq> []" "pl_avg_per_step_ms p = parse_time_ms (pl_avg_per_step p)"
proof -
  let ?s1 = "lstrip line"
  from assms obtain st e a where d: "takeWhile digit ?s1 \<noteq> []" "length (takeWhile digit ?s1) \<le> 3"
    "p = \<lparr>pl_percent = number (takeWhile digit ?s1), pl_step = number st, pl_elapsed = e, pl_avg_per_step = a,
       pl_elapsed_ms = parse_time_ms e, pl_avg_per_step_ms = parse_time_ms a\<rparr>"
    and sp: "\<exists>u. split_elapsed [] u = Some (e, a)"
    by (auto simp: parse_progress_line_def Let_def split: if_splits option.splits)
  have pos: "0 \<le> foldl (\<lambda>n c. n * 10 + int (char_nat c - 48)) m ds" if "0 \<le> m" for m ds
    using that by (induction ds arbitrary: m) auto
  have bound: "foldl (\<lambda>n c. n * 10 + int (char_nat c - 48)) m ds < (m + 1) * 10 ^ length ds" if "\<forall>c \<in> set ds. digit c" for m ds
    using that
  proof (induction ds arbitrary: m)
    case (Cons c ds)
    then have c: "int (char_nat c - 48) \<le> 9" by (simp add: digit_def)
    have "foldl (\<lambda>n c. n * 10 + int (char_nat c - 48)) m (c # ds) < (m * 10 + int (char_nat c - 48) + 1) * 10 ^ length ds"
      using Cons by simp
    also have "\<dots> \<le> (m * 10 + 10) * 10 ^ length ds" using c by (intro mult_right_mono) auto
    finally show ?case by (simp add: algebra_simps)
  qed simp
  have dig: "\<forall>c \<in> set (takeWhile digit ?s1). digit c" by (auto dest: set_takeWhileD)
  have "number (takeWhile digit ?s1) < 10 ^ length (takeWhile digit ?s1)" using bound [OF dig, of 0] by (simp add: number_def)
  also have "(10 :: int) ^ length (takeWhile digit ?s1) \<le> 10 ^ 3" using d(2) by (intro power_increasing) auto
  finally have "number (takeWhile digit ?s1) \<le> 999" by simp
  then show "0 \<le> pl_percent p \<and> pl_percent p \<le> 999 \<and> 0 \<le> pl_step p" using pos [of 0] by (simp add: d(3) number_def)
  from sp show "pl_elapsed p \<noteq> []" "pl_avg_per_step p \<noteq> []" using split_elapsed_Some by (auto simp: d(3))
  show "pl_avg_per_step_ms p = parse_time_ms (pl_avg_per_step p)" by (simp add: d(3))
qed

end
