(* ===== verification/SimFollow.thy ===== *)
theory SimFollow
  imports Progress SimProtocol
begin

text \<open>
  \<open>simclient/follow.py\<close>: the watcher of one SLURM job. One iteration of its loop is a function of what the
  world answers during it; a run is the sequence of iterations up to the one that returns.
\<close>

section \<open>State\<close>

record tracked_sim =
  ts_sim_id :: string
  ts_cmd_id :: string
  ts_job_id :: "int option"
  ts_run_dir :: string
  ts_stdout_path :: "string option"
  ts_submit_system :: string
  ts_last_percent :: int
  ts_last_step :: "int option"
  ts_last_walltime :: "string option"
  ts_last_avg_per_step :: "string option"
  ts_last_eta_s :: "int option"
  ts_stdout_offset :: nat
  ts_job_running_emitted :: bool
  ts_terminal_emitted :: bool
  ts_last_slurm_reason :: "string option"

definition new_tracked :: "string \<Rightarrow> string \<Rightarrow> int option \<Rightarrow> string \<Rightarrow> string option \<Rightarrow> string \<Rightarrow> tracked_sim" where
  "new_tracked sim_id cmd_id job_id run_dir stdout sys = \<lparr>ts_sim_id = sim_id, ts_cmd_id = cmd_id, ts_job_id = job_id, ts_run_dir = run_dir,
     ts_stdout_path = stdout, ts_submit_system = sys, ts_last_percent = -1, ts_last_step = None, ts_last_walltime = None,
     ts_last_avg_per_step = None, ts_last_eta_s = None, ts_stdout_offset = 0, ts_job_running_emitted = False,
     ts_terminal_emitted = False, ts_last_slurm_reason = None\<rparr>"

record follower =
  fo_tracked :: tracked_sim
  fo_bucket :: int
  fo_interval :: rat
  fo_initial :: rat
  fo_max :: rat

type_synonym event = "simulation_state \<times> int option \<times> event_fields"

section \<open>Tailing the output\<close>

text \<open>
  \<open>_read_new_lines\<close> on the content of the file (\<open>None\<close>: no file, or unreadable): only whole lines are consumed,
  a file shorter than the offset is read from its start.
\<close>

definition upto_newline :: "string \<Rightarrow> string" where
  "upto_newline s = rev (dropWhile (\<lambda>c. c \<noteq> CHR 0x0A) (rev s))"

definition read_new_lines :: "string option \<Rightarrow> nat \<Rightarrow> string list \<times> nat" where
  "read_new_lines content offset = (case content of
     None \<Rightarrow> ([], offset)
   | Some text \<Rightarrow>
       (let start = (if offset > length text then 0 else offset); data = drop start text; consumed = upto_newline data
        in if CHR 0x0A \<notin> set data then ([], start) else (splitlines consumed, start + length consumed)))"

definition progress_event_step_percent :: int where
  "progress_event_step_percent = 25"

text \<open>One line of \<open>_tail_progress\<close>. The eta may overflow, which ends the watcher (outer \<open>None\<close>).\<close>

definition tail_line :: "follower \<Rightarrow> string \<Rightarrow> (event list \<times> follower) option" where
  "tail_line f line = (case parse_progress_line line of
     None \<Rightarrow> Some ([], f)
   | Some p \<Rightarrow> (case eta_whole_seconds (pl_percent p) (pl_step p) (pl_avg_per_step_ms p) of
       None \<Rightarrow> None
     | Some eta \<Rightarrow>
         (let t = (fo_tracked f)\<lparr>ts_last_percent := pl_percent p, ts_last_step := Some (pl_step p),
                ts_last_walltime := Some (pl_elapsed p), ts_last_avg_per_step := Some (pl_avg_per_step p), ts_last_eta_s := eta\<rparr>;
              bucket = pl_percent p div progress_event_step_percent
          in if bucket > fo_bucket f \<or> pl_percent p \<ge> 100
             then Some ([(SimStepFinished, ts_job_id t, no_fields\<lparr>ef_step := Some (pl_step p), ef_percent := Some (pl_percent p),
                    ef_walltime := Some (pl_elapsed p), ef_avg_per_step := Some (pl_avg_per_step p), ef_eta_s := eta\<rparr>)],
                  f\<lparr>fo_tracked := t, fo_bucket := bucket\<rparr>)
             else Some ([], f\<lparr>fo_tracked := t\<rparr>))))"

fun tail_lines :: "follower \<Rightarrow> string list \<Rightarrow> (event list \<times> follower) option" where
  "tail_lines f [] = Some ([], f)"
| "tail_lines f (l # ls) = (case tail_line f l of
     None \<Rightarrow> None
   | Some (evs, f1) \<Rightarrow> (case tail_lines f1 ls of None \<Rightarrow> None | Some (evs', f2) \<Rightarrow> Some (evs @ evs', f2)))"

definition tail_progress :: "follower \<Rightarrow> string option \<Rightarrow> (event list \<times> follower) option" where
  "tail_progress f content =
     (let (ls, off) = read_new_lines content (ts_stdout_offset (fo_tracked f))
      in tail_lines (f\<lparr>fo_tracked := (fo_tracked f)\<lparr>ts_stdout_offset := off\<rparr>\<rparr>) ls)"

section \<open>The end of the job\<close>

text \<open>What the world answers during one iteration: the poll, the output file, and for the last one the accounting,
  whether the results could be linked, their manifest and the vacuity probe.\<close>

record poll =
  po_info :: "job_info option"
  po_content :: "string option"
  po_accounting :: "(pyfloat \<times> pyfloat) option"
  po_linked :: bool
  po_manifest :: "(string \<times> json) list option"
  po_suspect :: "string option"

definition scheduler_failed_error_code :: string where
  "scheduler_failed_error_code = ''scheduler_failed''"

definition scheduler_failure_code :: "simulation_state \<Rightarrow> string" where
  "scheduler_failure_code st = (if st = SimCancelled then ''scheduler_cancelled'' else scheduler_failed_error_code)"

definition scheduler_failure_reason :: "simulation_state \<Rightarrow> job_info \<Rightarrow> string" where
  "scheduler_failure_reason st info =
     (if st = SimCancelled then ''the job was cancelled''
      else ''scheduler reported '' @ job_state_value (ji_state info) @
        (case signal_from_exit_code (ji_exit_code info) of
           Some s \<Rightarrow> '' ('' @ s @ '')''
         | None \<Rightarrow> (case ji_exit_code info of Some c \<Rightarrow> '' (exit code '' @ show_int c @ '')'' | None \<Rightarrow> '''')))"

definition with_accounting :: "(pyfloat \<times> pyfloat) option \<Rightarrow> event_fields \<Rightarrow> event_fields" where
  "with_accounting acc e = (case acc of None \<Rightarrow> e | Some (c, g) \<Rightarrow> e\<lparr>ef_core_hours := Some c, ef_gpu_hours := Some g\<rparr>)"

definition clean_exit :: "job_info \<Rightarrow> bool" where
  "clean_exit i = (ji_state i = JCompleted \<and> ji_exit_code i \<in> {None, Some 0})"

definition terminal_events :: "int option \<Rightarrow> job_info \<Rightarrow> poll \<Rightarrow> event list" where
  "terminal_events jid info p =
     (let snap = with_accounting (po_accounting p) (no_fields\<lparr>ef_slurm_state := Some (job_state_value (ji_state info)), ef_exit_code := ji_exit_code info\<rparr>)
      in if clean_exit info
         then [(SimJobFinished, jid, snap),
           (if po_linked p
            then (SimResultsReady, jid, with_accounting (po_accounting p)
                (no_fields\<lparr>ef_results_linked := Some True, ef_manifest := po_manifest p, ef_suspect := po_suspect p\<rparr>))
            else (SimJobFinished, jid, snap\<lparr>ef_results_linked := Some False\<rparr>))]
         else (let st = (if ji_state info = JCancelled then SimCancelled else SimJobFailed)
           in [(st, jid, snap\<lparr>ef_slurm_reason := ji_reason info, ef_error := Some (scheduler_failure_reason st info),
                ef_error_code := Some (scheduler_failure_code st)\<rparr>)]))"

definition emit_terminal :: "follower \<Rightarrow> job_info \<Rightarrow> poll \<Rightarrow> event list \<times> follower" where
  "emit_terminal f info p =
     (if ts_terminal_emitted (fo_tracked f) then ([], f)
      else (terminal_events (ts_job_id (fo_tracked f)) info p, f\<lparr>fo_tracked := (fo_tracked f)\<lparr>ts_terminal_emitted := True\<rparr>\<rparr>))"

section \<open>The loop\<close>

text \<open>What a fresh snapshot is worth an event: the job started, or waits for another reason.\<close>

definition observe_info :: "follower \<Rightarrow> job_info \<Rightarrow> event list \<times> follower" where
  "observe_info f info =
     (let t = fo_tracked f in
      if ji_state info = JRunning \<and> \<not> ts_job_running_emitted t
      then ([(SimJobRunning, ts_job_id t, no_fields\<lparr>ef_slurm_state := Some (job_state_value (ji_state info))\<rparr>)],
            f\<lparr>fo_tracked := t\<lparr>ts_job_running_emitted := True\<rparr>, fo_interval := fo_initial f\<rparr>)
      else if ji_state info = JPending \<and> ji_reason info \<noteq> None \<and> ji_reason info \<noteq> ts_last_slurm_reason t
      then ([(SimSubmitted, ts_job_id t, no_fields\<lparr>ef_slurm_state := Some (job_state_value (ji_state info)), ef_slurm_reason := ji_reason info\<rparr>)],
            f\<lparr>fo_tracked := t\<lparr>ts_last_slurm_reason := ji_reason info\<rparr>\<rparr>)
      else ([], f))"

datatype loop_end = Continues | Returned | Crashed

definition backed_off :: "follower \<Rightarrow> follower" where
  "backed_off f = f\<lparr>fo_interval := min (fo_interval f * 2) (fo_max f)\<rparr>"

definition follow_tick :: "follower \<Rightarrow> poll \<Rightarrow> event list \<times> follower \<times> loop_end" where
  "follow_tick f p =
     (if ts_job_id (fo_tracked f) = None then ([], f, Returned)
      else case po_info p of
        None \<Rightarrow> ([], backed_off f, Continues)
      | Some info \<Rightarrow>
          (let (evs1, f1) = observe_info f info in
           case tail_progress f1 (po_content p) of
             None \<Rightarrow> (evs1, f1, Crashed)
           | Some (evs2, f2) \<Rightarrow>
               (if job_terminal (ji_state info)
                then (let (evs3, f3) = emit_terminal f2 info p in (evs1 @ evs2 @ evs3, f3, Returned))
                else (evs1 @ evs2, backed_off f2, Continues))))"

fun follow_run :: "follower \<Rightarrow> poll list \<Rightarrow> event list \<times> follower \<times> loop_end" where
  "follow_run f [] = ([], f, Continues)"
| "follow_run f (p # ps) = (case follow_tick f p of
     (evs, f1, Continues) \<Rightarrow> (case follow_run f1 ps of (evs', f2, e) \<Rightarrow> (evs @ evs', f2, e))
   | (evs, f1, e) \<Rightarrow> (evs, f1, e))"

definition new_follower :: "tracked_sim \<Rightarrow> rat \<Rightarrow> rat \<Rightarrow> follower" where
  "new_follower t initial maxi = \<lparr>fo_tracked = t, fo_bucket = 0, fo_interval = initial, fo_initial = initial, fo_max = maxi\<rparr>"

section \<open>One iteration\<close>

definition end_state :: "simulation_state \<Rightarrow> bool" where
  "end_state st = (st \<in> {SimJobFinished, SimResultsReady, SimJobFailed, SimCancelled})"

definition running_events :: "event list \<Rightarrow> nat" where
  "running_events evs = length (filter (\<lambda>e. fst e = SimJobRunning) evs)"

lemma running_events_append [simp]: "running_events (a @ b) = running_events a + running_events b" "running_events [] = 0"
  by (simp_all add: running_events_def)

text \<open>The fields of the state the loop never touches while it tails.\<close>

definition same_flags :: "follower \<Rightarrow> follower \<Rightarrow> bool" where
  "same_flags f g \<longleftrightarrow> ts_job_id (fo_tracked g) = ts_job_id (fo_tracked f) \<and>
     ts_terminal_emitted (fo_tracked g) = ts_terminal_emitted (fo_tracked f) \<and>
     ts_job_running_emitted (fo_tracked g) = ts_job_running_emitted (fo_tracked f) \<and>
     fo_interval g = fo_interval f \<and> fo_initial g = fo_initial f \<and> fo_max g = fo_max f"

lemma same_flags_refl [simp]: "same_flags f f"
  by (simp add: same_flags_def)

lemma same_flags_trans: "same_flags f g \<Longrightarrow> same_flags g h \<Longrightarrow> same_flags f h"
  by (simp add: same_flags_def)

lemma tail_line_facts: "tail_line f l = Some (evs, g) \<Longrightarrow> same_flags f g \<and> (\<forall>e \<in> set evs. fst e = SimStepFinished)"
  by (auto simp: tail_line_def same_flags_def Let_def split: option.splits if_splits)

lemma tail_lines_facts: "tail_lines f ls = Some (evs, g) \<Longrightarrow> same_flags f g \<and> (\<forall>e \<in> set evs. fst e = SimStepFinished)"
proof (induction ls arbitrary: f evs g)
  case (Cons l ls)
  then obtain a f1 b where h: "tail_line f l = Some (a, f1)" "tail_lines f1 ls = Some (b, g)" "evs = a @ b"
    by (auto split: option.splits)
  show ?case using tail_line_facts [OF h(1)] Cons.IH [OF h(2)] h(3) by (auto intro: same_flags_trans)
qed simp

lemma tail_progress_facts:
  assumes "tail_progress f content = Some (evs, g)"
  shows "same_flags f g" "\<forall>e \<in> set evs. fst e = SimStepFinished"
proof -
  from assms obtain ls off where "tail_lines (f\<lparr>fo_tracked := (fo_tracked f)\<lparr>ts_stdout_offset := off\<rparr>\<rparr>) ls = Some (evs, g)"
    by (auto simp: tail_progress_def split: prod.splits)
  from tail_lines_facts [OF this] show "same_flags f g" "\<forall>e \<in> set evs. fst e = SimStepFinished" by (auto simp: same_flags_def)
qed

lemma observe_info_facts:
  assumes "observe_info f info = (evs, g)"
  shows "ts_job_id (fo_tracked g) = ts_job_id (fo_tracked f)" "ts_terminal_emitted (fo_tracked g) = ts_terminal_emitted (fo_tracked f)"
    "\<forall>e \<in> set evs. fst e \<in> {SimJobRunning, SimSubmitted}" "fo_max g = fo_max f" "fo_initial g = fo_initial f"
    "running_events evs + (if ts_job_running_emitted (fo_tracked g) then 0 else 1) = (if ts_job_running_emitted (fo_tracked f) then 0 else 1)"
    "fo_bucket g = fo_bucket f" "ts_stdout_offset (fo_tracked g) = ts_stdout_offset (fo_tracked f)"
  using assms by (auto simp: observe_info_def running_events_def Let_def split: if_splits)

lemma terminal_events_end: "\<forall>e \<in> set (terminal_events jid info p). end_state (fst e)" "terminal_events jid info p \<noteq> []"
  "running_events (terminal_events jid info p) = 0"
  by (auto simp: terminal_events_def end_state_def running_events_def Let_def)

lemma no_running: "\<forall>e \<in> set evs. fst e = SimStepFinished \<Longrightarrow> running_events evs = 0"
  by (auto simp: running_events_def filter_empty_conv)

text \<open>Every iteration, by how it ends.\<close>

definition tick_facts :: "follower \<Rightarrow> poll \<Rightarrow> event list \<Rightarrow> follower \<Rightarrow> loop_end \<Rightarrow> bool" where
  "tick_facts f p evs g e \<longleftrightarrow> ts_job_id (fo_tracked g) = ts_job_id (fo_tracked f) \<and>
     running_events evs + (if ts_job_running_emitted (fo_tracked g) then 0 else 1) \<le> (if ts_job_running_emitted (fo_tracked f) then 0 else 1) \<and>
     (e \<noteq> Returned \<longrightarrow> (\<forall>x \<in> set evs. \<not> end_state (fst x)) \<and> ts_terminal_emitted (fo_tracked g) = ts_terminal_emitted (fo_tracked f)) \<and>
     (e = Continues \<longrightarrow> \<not> (\<exists>i. po_info p = Some i \<and> job_terminal (ji_state i))) \<and>
     (e = Returned \<and> \<not> ts_terminal_emitted (fo_tracked f) \<longrightarrow> (\<exists>i evs0. po_info p = Some i \<and> job_terminal (ji_state i) \<and>
        evs = evs0 @ terminal_events (ts_job_id (fo_tracked f)) i p \<and> (\<forall>x \<in> set evs0. \<not> end_state (fst x))))"

lemma follow_tick_facts:
  assumes "follow_tick f p = (evs, g, e)" "ts_job_id (fo_tracked f) \<noteq> None"
  shows "tick_facts f p evs g e"
proof (cases "po_info p")
  case None
  then show ?thesis using assms by (auto simp: follow_tick_def tick_facts_def backed_off_def)
next
  case (Some info)
  obtain evs1 f1 where o1: "observe_info f info = (evs1, f1)" by fastforce
  note ob = observe_info_facts [OF o1]
  have no_end1: "\<forall>x \<in> set evs1. \<not> end_state (fst x)" using ob(3) by (auto simp: end_state_def)
  show ?thesis
  proof (cases "tail_progress f1 (po_content p)")
    case None
    then have "evs = evs1" "g = f1" "e = Crashed" using assms Some o1 by (auto simp: follow_tick_def)
    then show ?thesis using ob no_end1 by (auto simp: tick_facts_def)
  next
    case (Some r)
    obtain evs2 f2 where t: "tail_progress f1 (po_content p) = Some (evs2, f2)" using Some by (cases r) auto
    note tp = tail_progress_facts [OF t]
    have no_end2: "\<forall>x \<in> set evs2. \<not> end_state (fst x)" using tp(2) by (auto simp: end_state_def)
    have run2: "running_events evs2 = 0" by (rule no_running [OF tp(2)])
    show ?thesis
    proof (cases "job_terminal (ji_state info)")
      case False
      then have "evs = evs1 @ evs2" "g = backed_off f2" "e = Continues"
        using assms \<open>po_info p = Some info\<close> o1 t by (auto simp: follow_tick_def)
      then show ?thesis using ob no_end1 no_end2 tp(1) run2 False \<open>po_info p = Some info\<close>
        by (auto simp: tick_facts_def same_flags_def backed_off_def)
    next
      case True
      obtain evs3 f3 where em: "emit_terminal f2 info p = (evs3, f3)" by fastforce
      have r: "evs = evs1 @ evs2 @ evs3" "g = f3" "e = Returned"
        using assms \<open>po_info p = Some info\<close> o1 t True em by (auto simp: follow_tick_def)
      have ids: "ts_job_id (fo_tracked f2) = ts_job_id (fo_tracked f)" "ts_terminal_emitted (fo_tracked f2) = ts_terminal_emitted (fo_tracked f)"
        "ts_job_running_emitted (fo_tracked f2) = ts_job_running_emitted (fo_tracked f1)" using ob tp(1) by (auto simp: same_flags_def)
      have f3: "ts_job_id (fo_tracked f3) = ts_job_id (fo_tracked f2)" "ts_job_running_emitted (fo_tracked f3) = ts_job_running_emitted (fo_tracked f2)"
        "running_events evs3 = 0" using em terminal_events_end(3) by (auto simp: emit_terminal_def split: if_splits)
      have ev3: "evs3 = terminal_events (ts_job_id (fo_tracked f)) info p" if "\<not> ts_terminal_emitted (fo_tracked f)"
        using em that ids by (auto simp: emit_terminal_def)
      have "running_events evs = running_events evs1" using r(1) run2 f3(3) by simp
      moreover have "\<exists>evs0. evs = evs0 @ terminal_events (ts_job_id (fo_tracked f)) info p \<and> (\<forall>x \<in> set evs0. \<not> end_state (fst x))"
        if "\<not> ts_terminal_emitted (fo_tracked f)"
        using r(1) ev3 [OF that] no_end1 no_end2 by (intro exI [of _ "evs1 @ evs2"]) auto
      ultimately show ?thesis using ob(6) f3 ids r(2,3) True \<open>po_info p = Some info\<close>
        by (auto simp: tick_facts_def)
    qed
  qed
qed

section \<open>Whole runs\<close>

definition ended :: "poll \<Rightarrow> bool" where
  "ended p \<longleftrightarrow> (\<exists>i. po_info p = Some i \<and> job_terminal (ji_state i))"

lemma follow_run_facts:
  assumes "follow_run f ps = (evs, g, e)" "ts_job_id (fo_tracked f) \<noteq> None" "\<not> ts_terminal_emitted (fo_tracked f)"
  shows "running_events evs \<le> (if ts_job_running_emitted (fo_tracked f) then 0 else 1) \<and>
    (e \<noteq> Returned \<longrightarrow> (\<forall>x \<in> set evs. \<not> end_state (fst x))) \<and>
    (e = Continues \<longrightarrow> (\<forall>p \<in> set ps. \<not> ended p)) \<and>
    (e = Returned \<longrightarrow> (\<exists>pre p post i evs0. ps = pre @ p # post \<and> po_info p = Some i \<and> job_terminal (ji_state i) \<and>
       (\<forall>q \<in> set pre. \<not> ended q) \<and>
       evs = evs0 @ terminal_events (ts_job_id (fo_tracked f)) i p \<and> (\<forall>x \<in> set evs0. \<not> end_state (fst x))))"
  using assms
proof (induction ps arbitrary: f evs g e)
  case (Cons p ps)
  obtain evs1 f1 e1 where t: "follow_tick f p = (evs1, f1, e1)" by (cases "follow_tick f p") auto
  note tf = follow_tick_facts [OF t Cons.prems(2), unfolded tick_facts_def ended_def [symmetric]]
  show ?case
  proof (cases e1)
    case Continues
    obtain evs2 f2 e2 where r: "follow_run f1 ps = (evs2, f2, e2)" by (cases "follow_run f1 ps") auto
    have e: "evs = evs1 @ evs2" "e2 = e" using Cons.prems(1) by (auto simp: t r Continues)
    have f1: "ts_job_id (fo_tracked f1) = ts_job_id (fo_tracked f)" "\<not> ts_terminal_emitted (fo_tracked f1)"
      and p: "\<not> ended p" and quiet: "\<forall>x \<in> set evs1. \<not> end_state (fst x)"
      using tf Cons.prems(3) Continues by auto
    note IH = Cons.IH [OF r, unfolded f1(1) e(2), OF Cons.prems(2) f1(2)]
    show ?thesis
    proof (intro conjI impI)
      show "running_events evs \<le> (if ts_job_running_emitted (fo_tracked f) then 0 else 1)"
        using IH tf by (auto simp: e(1) split: if_splits)
      show "\<forall>x \<in> set evs. \<not> end_state (fst x)" if "e \<noteq> Returned" using IH that quiet by (auto simp: e(1))
      show "\<forall>p \<in> set (p # ps). \<not> ended p" if "e = Continues" using IH that p by auto
      assume "e = Returned"
      then obtain pre q post i evs0 where w: "ps = pre @ q # post" "po_info q = Some i" "job_terminal (ji_state i)"
        "\<forall>q \<in> set pre. \<not> ended q" "evs2 = evs0 @ terminal_events (ts_job_id (fo_tracked f)) i q" "\<forall>x \<in> set evs0. \<not> end_state (fst x)"
        using IH by blast
      show "\<exists>pre q post i evs0. p # ps = pre @ q # post \<and> po_info q = Some i \<and> job_terminal (ji_state i) \<and>
          (\<forall>q \<in> set pre. \<not> ended q) \<and>
          evs = evs0 @ terminal_events (ts_job_id (fo_tracked f)) i q \<and> (\<forall>x \<in> set evs0. \<not> end_state (fst x))"
        by (rule exI [of _ "p # pre"], rule exI [of _ q], rule exI [of _ post], rule exI [of _ i], rule exI [of _ "evs1 @ evs0"])
          (use w e(1) p quiet in auto)
    qed
  next
    case Returned
    then have ev: "evs = evs1" "e = Returned" using Cons.prems(1) by (auto simp: t)
    obtain i evs0 where "po_info p = Some i" "job_terminal (ji_state i)" "evs1 = evs0 @ terminal_events (ts_job_id (fo_tracked f)) i p"
      "\<forall>x \<in> set evs0. \<not> end_state (fst x)" using tf Cons.prems(3) Returned by blast
    then have "\<exists>pre q post i evs0. p # ps = pre @ q # post \<and> po_info q = Some i \<and> job_terminal (ji_state i) \<and>
          (\<forall>q \<in> set pre. \<not> ended q) \<and>
          evs = evs0 @ terminal_events (ts_job_id (fo_tracked f)) i q \<and> (\<forall>x \<in> set evs0. \<not> end_state (fst x))"
      using ev by (intro exI [of _ "[]"] exI [of _ p] exI [of _ ps] exI [of _ i] exI [of _ evs0]) auto
    then show ?thesis using ev tf by (auto split: if_splits)
  next
    case Crashed
    then have "evs = evs1" "e = Crashed" using Cons.prems(1) by (auto simp: t)
    then show ?thesis using tf Crashed by (auto split: if_splits)
  qed
qed auto

section \<open>The cadence of progress events\<close>

definition low_steps :: "event list \<Rightarrow> nat" where
  "low_steps evs = length (filter (\<lambda>(st, j, x). st = SimStepFinished \<and> (case ef_percent x of None \<Rightarrow> False | Some p \<Rightarrow> p < 100)) evs)"

lemma low_steps_append [simp]: "low_steps (a @ b) = low_steps a + low_steps b" "low_steps [] = 0"
  by (simp_all add: low_steps_def)

lemma low_steps_none: "\<forall>e \<in> set evs. fst e \<noteq> SimStepFinished \<Longrightarrow> low_steps evs = 0"
  by (auto simp: low_steps_def filter_empty_conv)

text \<open>How many more events below 100 percent the bucket allows.\<close>

definition room :: "follower \<Rightarrow> nat" where
  "room f = nat (3 - fo_bucket f)"

lemma tail_line_room: "tail_line f l = Some (evs, g) \<Longrightarrow> low_steps evs + room g \<le> room f"
proof -
  assume t: "tail_line f l = Some (evs, g)"
  have b: "p < 100 \<Longrightarrow> p div 25 > k \<Longrightarrow> Suc (nat (3 - p div 25)) \<le> nat (3 - k)" for p k :: int
    by (simp add: nat_eq_iff le_nat_iff) linarith
  have c: "p \<ge> 100 \<Longrightarrow> nat (3 - p div 25) = 0" for p :: int by simp
  show ?thesis
  proof (cases "parse_progress_line l")
    case None
    with t show ?thesis by (simp add: tail_line_def room_def)
  next
    case (Some p)
    with t obtain eta where eta: "eta_whole_seconds (pl_percent p) (pl_step p) (pl_avg_per_step_ms p) = Some eta"
      by (auto simp: tail_line_def split: option.splits)
    show ?thesis
    proof (cases "pl_percent p div 25 > fo_bucket f \<or> pl_percent p \<ge> 100")
      case True
      with t Some eta have g: "fo_bucket g = pl_percent p div 25"
        and e: "low_steps evs = (if pl_percent p < 100 then 1 else 0)"
        by (auto simp: tail_line_def progress_event_step_percent_def low_steps_def Let_def)
      show ?thesis
      proof (cases "pl_percent p < 100")
        case lt: True
        with True have "pl_percent p div 25 > fo_bucket f" by simp
        from b [OF lt this] show ?thesis using e g lt by (simp add: room_def)
      next
        case False
        with c [of "pl_percent p"] show ?thesis using e g by (simp add: room_def)
      qed
    next
      case False
      with t Some eta show ?thesis by (auto simp: tail_line_def progress_event_step_percent_def Let_def room_def)
    qed
  qed
qed

lemma tail_lines_room: "tail_lines f ls = Some (evs, g) \<Longrightarrow> low_steps evs + room g \<le> room f"
proof (induction ls arbitrary: f evs g)
  case (Cons l ls)
  then obtain a f1 b where h: "tail_line f l = Some (a, f1)" "tail_lines f1 ls = Some (b, g)" "evs = a @ b"
    by (auto split: option.splits)
  show ?case using tail_line_room [OF h(1)] Cons.IH [OF h(2)] h(3) by simp
qed simp

lemma tail_progress_room: "tail_progress f content = Some (evs, g) \<Longrightarrow> low_steps evs + room g \<le> room f"
  by (auto simp: tail_progress_def room_def split: prod.splits dest!: tail_lines_room)

lemma end_not_low: "\<forall>e \<in> set evs. end_state (fst e) \<Longrightarrow> low_steps evs = 0"
  by (rule low_steps_none) (auto simp: end_state_def)

lemma follow_tick_room:
  assumes "follow_tick f p = (evs, g, e)" shows "low_steps evs + room g \<le> room f"
proof (cases "ts_job_id (fo_tracked f) = None \<or> po_info p = None")
  case True
  with assms show ?thesis by (auto simp: follow_tick_def room_def backed_off_def split: if_splits)
next
  case False
  then obtain info where i: "po_info p = Some info" and j: "ts_job_id (fo_tracked f) \<noteq> None" by auto
  obtain evs1 f1 where o1: "observe_info f info = (evs1, f1)" by fastforce
  have l1: "low_steps evs1 = 0" "room f1 = room f"
    using observe_info_facts(3,7) [OF o1] by (auto intro!: low_steps_none simp: room_def)
  show ?thesis
  proof (cases "tail_progress f1 (po_content p)")
    case None
    then show ?thesis using assms i j o1 l1 by (auto simp: follow_tick_def)
  next
    case (Some r)
    then obtain evs2 f2 where t: "tail_progress f1 (po_content p) = Some (evs2, f2)" by (cases r) auto
    obtain evs3 f3 where em: "emit_terminal f2 info p = (evs3, f3)" by fastforce
    have l3: "low_steps evs3 = 0" "room f3 = room f2"
      using em terminal_events_end(1) by (auto simp: emit_terminal_def room_def intro!: end_not_low split: if_splits)
    show ?thesis using assms i j o1 l1 t em l3 tail_progress_room [OF t]
      by (auto simp: follow_tick_def backed_off_def room_def split: if_splits)
  qed
qed

lemma follow_run_room: "follow_run f ps = (evs, g, e) \<Longrightarrow> low_steps evs + room g \<le> room f"
proof (induction ps arbitrary: f evs g e)
  case (Cons p ps)
  obtain evs1 f1 e1 where t: "follow_tick f p = (evs1, f1, e1)" by (cases "follow_tick f p") auto
  obtain evs2 f2 e2 where r: "follow_run f1 ps = (evs2, f2, e2)" by (cases "follow_run f1 ps") auto
  show ?case using Cons.prems follow_tick_room [OF t] Cons.IH [OF r] by (cases e1) (auto simp: t r)
qed simp

section \<open>The tail of a growing file\<close>

fun tail_reads :: "nat \<Rightarrow> string list \<Rightarrow> string list" where
  "tail_reads offset [] = []"
| "tail_reads offset (c # cs) = (let (ls, off) = read_new_lines (Some c) offset in ls @ tail_reads off cs)"

fun grows :: "string list \<Rightarrow> bool" where
  "grows (c # d # cs) = (starts_with c d \<and> grows (d # cs))"
| "grows cs = True"

lemma upto_newline_split:
  "\<exists>rest. s = upto_newline s @ rest \<and> CHR 0x0A \<notin> set rest" "CHR 0x0A \<in> set s \<Longrightarrow> upto_newline s \<noteq> [] \<and> last (upto_newline s) = CHR 0x0A"
proof -
  let ?w = "takeWhile (\<lambda>c. c \<noteq> CHR 0x0A) (rev s)" and ?d = "dropWhile (\<lambda>c. c \<noteq> CHR 0x0A) (rev s)"
  have "rev (rev s) = rev (?w @ ?d)" by simp
  then have "s = upto_newline s @ rev ?w" by (simp add: upto_newline_def del: takeWhile_dropWhile_id)
  moreover have "CHR 0x0A \<notin> set (rev ?w)" by (auto dest: set_takeWhileD)
  ultimately show "\<exists>rest. s = upto_newline s @ rest \<and> CHR 0x0A \<notin> set rest" by blast
  assume "CHR 0x0A \<in> set s"
  then have ne: "?d \<noteq> []" by (auto simp: dropWhile_eq_Nil_conv)
  then have "hd ?d = CHR 0x0A" using hd_dropWhile by blast
  with ne show "upto_newline s \<noteq> [] \<and> last (upto_newline s) = CHR 0x0A" by (simp add: upto_newline_def last_rev)
qed

lemma upto_newline_append: "CHR 0x0A \<notin> set a \<or> a = [] \<Longrightarrow> upto_newline (w @ CHR 0x0A # a) = w @ [CHR 0x0A]"
  unfolding upto_newline_def by (auto simp: dropWhile_append)

lemma upto_newline_prefix:
  assumes "ends_line p" shows "upto_newline (p @ d) = p @ upto_newline d"
proof (cases "CHR 0x0A \<in> set d")
  case True
  then have "dropWhile (\<lambda>c. c \<noteq> CHR 0x0A) (rev d @ rev p) = dropWhile (\<lambda>c. c \<noteq> CHR 0x0A) (rev d) @ rev p"
    by (intro dropWhile_append1 [where x = "CHR 0x0A"]) auto
  then show ?thesis by (simp add: upto_newline_def)
next
  case False
  then have d: "dropWhile (\<lambda>c. c \<noteq> CHR 0x0A) (rev d @ rev p) = dropWhile (\<lambda>c. c \<noteq> CHR 0x0A) (rev p)"
    by (intro dropWhile_append2) auto
  have e: "upto_newline d = []" using False by (auto simp: upto_newline_def dropWhile_eq_Nil_conv)
  show ?thesis
  proof (cases "p = []")
    case False
    then obtain q where "p = q @ [CHR 0x0A]" using assms by (metis append_butlast_last_id ends_line_def)
    then show ?thesis using d e by (simp add: upto_newline_def)
  qed (simp add: e)
qed

lemma tail_reads_all:
  assumes "grows (c # cs)" "starts_with p c" "ends_line p"
  shows "splitlines p @ tail_reads (length p) (c # cs) = splitlines (upto_newline (last (c # cs)))"
  using assms
proof (induction cs arbitrary: c p)
  case Nil
  obtain d where d: "c = p @ d" using Nil.prems(2) by (auto simp: starts_with_iff)
  show ?case
  proof (cases "CHR 0x0A \<in> set d")
    case True
    then show ?thesis using d upto_newline_prefix [OF Nil.prems(3), of d] splitlines_append [OF Nil.prems(3)]
      by (simp add: read_new_lines_def Let_def)
  next
    case False
    then have "upto_newline d = []" by (auto simp: upto_newline_def dropWhile_eq_Nil_conv)
    then show ?thesis using d False upto_newline_prefix [OF Nil.prems(3), of d] by (simp add: read_new_lines_def Let_def)
  qed
next
  case (Cons c' cs)
  obtain d where d: "c = p @ d" using Cons.prems(2) by (auto simp: starts_with_iff)
  obtain r where r: "c' = c @ r" using Cons.prems(1) by (auto simp: starts_with_iff)
  let ?q = "p @ upto_newline d"
  have ne: "CHR 0x0A \<notin> set d \<Longrightarrow> upto_newline d = []" by (auto simp: upto_newline_def dropWhile_eq_Nil_conv)
  have read: "read_new_lines (Some c) (length p) = (splitlines (upto_newline d), length ?q)"
    using ne by (auto simp: read_new_lines_def Let_def d)
  have q: "ends_line ?q" using upto_newline_split(2) [of d] ne Cons.prems(3) by (cases "CHR 0x0A \<in> set d") (auto simp: ends_line_def)
  obtain rest where "d = upto_newline d @ rest" using upto_newline_split(1) [of d] by blast
  then have "c' = ?q @ rest @ r" using d r by (metis append.assoc)
  then have "starts_with ?q c'" by (auto simp: starts_with_iff)
  then have "splitlines ?q @ tail_reads (length ?q) (c' # cs) = splitlines (upto_newline (last (c' # cs)))"
    using Cons.IH [OF _ _ q] Cons.prems(1) by simp
  then show ?case using read splitlines_append [OF Cons.prems(3), of "upto_newline d"] by simp
qed

section \<open>Properties\<close>

text \<open>
  C24: A watcher reports the start of the job at most once, goes on polling only while no snapshot was terminal, and
  returns with exactly the events of the first terminal snapshot, none of which came before.
\<close>

theorem watcher_reports_the_end:
  assumes "follow_run (new_follower t initial maxi) ps = (evs, g, e)" "ts_job_id t = Some j" "\<not> ts_terminal_emitted t"
  shows "running_events evs \<le> 1 \<and>
    (e \<noteq> Returned \<longrightarrow> (\<forall>x \<in> set evs. \<not> end_state (fst x))) \<and>
    (e = Continues \<longrightarrow> (\<forall>p \<in> set ps. \<not> ended p)) \<and>
    (e = Returned \<longrightarrow> (\<exists>pre p post i evs0. ps = pre @ p # post \<and> po_info p = Some i \<and> job_terminal (ji_state i) \<and>
       (\<forall>q \<in> set pre. \<not> ended q) \<and> evs = evs0 @ terminal_events (Some j) i p \<and> (\<forall>x \<in> set evs0. \<not> end_state (fst x))))"
  using follow_run_facts [OF assms(1)] assms(2,3) by (auto simp: new_follower_def split: if_splits)

definition sample_tracked :: tracked_sim where
  "sample_tracked = new_tracked ''s'' ''c'' (Some 7) ''/run'' None ''sbatch''"

definition sample_poll :: "job_state \<Rightarrow> string \<Rightarrow> poll" where
  "sample_poll st text = \<lparr>po_info = Some \<lparr>ji_job_id = 7, ji_state = st, ji_exit_code = Some 0, ji_reason = None\<rparr>, po_content = Some text,
     po_accounting = None, po_linked = True, po_manifest = None, po_suspect = None\<rparr>"

theorem watcher_reports_the_end_witness:
  "\<exists>evs g e. follow_run (new_follower sample_tracked 30 300) [sample_poll JRunning '''', sample_poll JCompleted ''''] = (evs, g, e) \<and>
     e \<noteq> Continues \<and> running_events evs \<le> 1"
proof -
  obtain evs g e where r: "follow_run (new_follower sample_tracked 30 300) [sample_poll JRunning '''', sample_poll JCompleted ''''] = (evs, g, e)"
    by (metis prod.exhaust)
  have "ended (sample_poll JCompleted '''')" by (simp add: ended_def sample_poll_def job_terminal_def)
  moreover have "ts_job_id sample_tracked = Some 7" "\<not> ts_terminal_emitted sample_tracked"
    by (simp_all add: sample_tracked_def new_tracked_def)
  note watcher_reports_the_end [OF r this]
  ultimately have "e \<noteq> Continues" "running_events evs \<le> 1" by auto
  with r show ?thesis by blast
qed

text \<open>
  However many progress lines a job prints, its watcher emits at most three events below 100 percent.
\<close>

theorem progress_events_bounded:
  "case follow_run (new_follower t initial maxi) ps of (evs, g, e) \<Rightarrow> low_steps evs \<le> 3"
proof -
  obtain evs g e where r: "follow_run (new_follower t initial maxi) ps = (evs, g, e)" by (metis prod.exhaust)
  have "room (new_follower t initial maxi) = 3" by (simp add: room_def new_follower_def)
  with follow_run_room [OF r] show ?thesis unfolding r by simp
qed

text \<open>
  C25: From a file that only grows, the watcher reads every complete line exactly once and in order, whatever part of a
  line each poll finds at its end.
\<close>

theorem tail_reads_each_line_once:
  assumes "grows cs" "cs \<noteq> []"
  shows "tail_reads 0 cs = splitlines (upto_newline (last cs))"
  using assms tail_reads_all [of _ _ "[]"] by (cases cs) (simp_all add: ends_line_def)

theorem tail_reads_each_line_once_witness:
  "tail_reads 0 [''ab'', ''ab'' @ [CHR 0x0A] @ ''c'', ''ab'' @ [CHR 0x0A] @ ''cd'' @ [CHR 0x0A]] = [''ab'', ''cd'']"
proof -
  have "splitlines (upto_newline (''ab'' @ [CHR 0x0A] @ ''cd'' @ [CHR 0x0A])) = [''ab'', ''cd'']" by code_simp
  then show ?thesis
    using tail_reads_each_line_once [of "[''ab'', ''ab'' @ [CHR 0x0A] @ ''c'', ''ab'' @ [CHR 0x0A] @ ''cd'' @ [CHR 0x0A]]"] by simp
qed

end
