(* ===== verification/SimResults.thy ===== *)
theory SimResults
  imports SimProtocol
begin

text \<open>
  The result requests of \<open>protocol/simulation.py\<close>: \<open>ResultParams\<close> with its field and model validators, and
  the command that carries them. Whether an analysis program is valid is a parameter here.
\<close>

definition plugin_reader_names :: "string list" where
  "plugin_reader_names = [''energy_histogram'', ''energy_fields'', ''emittance'', ''transition_radiation'', ''phase_space'',
     ''radiation'', ''calorimeter'', ''png'']"

record result_params =
  rp_sim_id :: string
  rp_op :: result_op
  rp_path :: "string option"
  rp_record :: "string option"
  rp_component :: "string option"
  rp_iteration :: "json option"
  rp_axis :: "int option"
  rp_index :: "int option"
  rp_downsample :: "int option"
  rp_stream :: "string option"
  rp_tail :: "int option"
  rp_program :: "(string \<times> json) list option"
  rp_reader :: "string option"
  rp_species :: "string option"
  rp_species_filter :: "string option"
  rp_min_kev :: "pyfloat option"
  rp_max_kev :: "pyfloat option"

definition result_fields :: "string list" where
  "result_fields = [''sim_id'', ''op'', ''path'', ''record'', ''component'', ''iteration'', ''axis'', ''index'', ''downsample'',
     ''stream'', ''tail'', ''program'', ''reader'', ''species'', ''species_filter'', ''min_kev'', ''max_kev'']"

definition max_source_bytes :: nat where
  "max_source_bytes = 48 * 1024"

text \<open>The field validators: each holds of an unset field.\<close>

definition valid_stream :: "string \<Rightarrow> bool" where
  "valid_stream s = (s \<in> {''stdout'', ''stderr''})"

definition valid_program :: "(pyfloat \<Rightarrow> string) \<Rightarrow> (json \<Rightarrow> bool) \<Rightarrow> (string \<times> json) list \<Rightarrow> bool" where
  "valid_program frepr program_ok p = (length (dumps_raw frepr (JObj p)) \<le> max_source_bytes \<and> program_ok (JObj p))"

text \<open>\<open>_validate_energy_window\<close> on finite floats.\<close>

definition energy_window_ok :: "pyfloat option \<Rightarrow> pyfloat option \<Rightarrow> bool" where
  "energy_window_ok lo hi = (case (lo, hi) of
     (None, None) \<Rightarrow> True
   | (Some a, Some b) \<Rightarrow> \<not> flt a (Fin 0) \<and> \<not> flt b (Fin 0) \<and> \<not> fle b a
   | _ \<Rightarrow> False)"

definition finite_opt :: "pyfloat option \<Rightarrow> bool" where
  "finite_opt x = (case x of None \<Rightarrow> True | Some f \<Rightarrow> is_fin f)"

definition opt_all :: "('a \<Rightarrow> bool) \<Rightarrow> 'a option \<Rightarrow> bool" where
  "opt_all P x = (case x of None \<Rightarrow> True | Some a \<Rightarrow> P a)"

definition result_params_ok :: "(pyfloat \<Rightarrow> string) \<Rightarrow> (json \<Rightarrow> bool) \<Rightarrow> result_params \<Rightarrow> bool" where
  "result_params_ok frepr program_ok p =
     (opt_all valid_result_path (rp_path p) \<and> opt_all valid_stream (rp_stream p) \<and>
      opt_all (\<lambda>r. r \<in> set plugin_reader_names) (rp_reader p) \<and> opt_all valid_species_name (rp_species p) \<and>
      opt_all valid_species_name (rp_species_filter p) \<and> opt_all (valid_program frepr program_ok) (rp_program p) \<and>
      finite_opt (rp_min_kev p) \<and> finite_opt (rp_max_kev p) \<and> energy_window_ok (rp_min_kev p) (rp_max_kev p))"

definition op_field :: "json \<Rightarrow> result_op option" where
  "op_field v = (case v of JStr s \<Rightarrow> parse_result_op s | _ \<Rightarrow> None)"

definition iteration_field :: "sim_lib \<Rightarrow> json \<Rightarrow> json option" where
  "iteration_field L v = (case v of JInt i \<Rightarrow> Some (JInt i) | JStr s \<Rightarrow> Some (JStr s) | _ \<Rightarrow> map_option JInt (sl_lax_int L v))"

definition validate_result_params :: "sim_lib \<Rightarrow> (json \<Rightarrow> pyfloat option) \<Rightarrow> (json \<Rightarrow> bool) \<Rightarrow> (string \<times> json) list \<Rightarrow> result_params option" where
  "validate_result_params L lax_float program_ok kvs =
     (if \<not> list_all (\<lambda>k. k \<in> set result_fields) (keys kvs) then None
      else case (required kvs ''sim_id'' str_field, required kvs ''op'' op_field) of
        (Some sid, Some op) \<Rightarrow>
          (case (defaulted kvs ''path'' (opt_field str_field) None, defaulted kvs ''record'' (opt_field str_field) None,
                 defaulted kvs ''component'' (opt_field str_field) None, defaulted kvs ''iteration'' (opt_field (iteration_field L)) None,
                 defaulted kvs ''axis'' (opt_field (sl_lax_int L)) None, defaulted kvs ''index'' (opt_field (sl_lax_int L)) None,
                 defaulted kvs ''downsample'' (opt_field (sl_lax_int L)) None, defaulted kvs ''stream'' (opt_field str_field) None) of
             (Some pa, Some re, Some co, Some it, Some ax, Some ix, Some ds, Some st) \<Rightarrow>
               (case (defaulted kvs ''tail'' (opt_field (sl_lax_int L)) None, defaulted kvs ''program'' (opt_field obj_field) None,
                      defaulted kvs ''reader'' (opt_field str_field) None, defaulted kvs ''species'' (opt_field str_field) None,
                      defaulted kvs ''species_filter'' (opt_field str_field) None, defaulted kvs ''min_kev'' (opt_field lax_float) None,
                      defaulted kvs ''max_kev'' (opt_field lax_float) None) of
                  (Some ta, Some pr, Some rd, Some sp, Some sf, Some lo, Some hi) \<Rightarrow>
                    (let p = \<lparr>rp_sim_id = sid, rp_op = op, rp_path = pa, rp_record = re, rp_component = co, rp_iteration = it,
                        rp_axis = ax, rp_index = ix, rp_downsample = ds, rp_stream = st, rp_tail = ta, rp_program = pr, rp_reader = rd,
                        rp_species = sp, rp_species_filter = sf, rp_min_kev = lo, rp_max_kev = hi\<rparr>
                     in if result_params_ok (sl_frepr L) program_ok p then Some p else None)
                | _ \<Rightarrow> None)
           | _ \<Rightarrow> None)
      | _ \<Rightarrow> None)"

definition build_result_command :: "string \<Rightarrow> string \<Rightarrow> string \<Rightarrow> int \<Rightarrow> result_params \<Rightarrow> string option \<Rightarrow> string option \<Rightarrow> rcp_message" where
  "build_result_command now fresh sim sq p cmd_id irt = new_message now sim sq KCommand McpServer (type_value TResult) irt
     ([(''cmd_id'', JStr (or_fresh cmd_id fresh)), (''sim_id'', JStr (rp_sim_id p)), (''op'', JStr (result_op_value (rp_op p)))] @
      some_entry ''path'' JStr (rp_path p) @ some_entry ''record'' JStr (rp_record p) @ some_entry ''component'' JStr (rp_component p) @
      some_entry ''iteration'' id (rp_iteration p) @ some_entry ''axis'' JInt (rp_axis p) @ some_entry ''index'' JInt (rp_index p) @
      some_entry ''downsample'' JInt (rp_downsample p) @ some_entry ''stream'' JStr (rp_stream p) @ some_entry ''tail'' JInt (rp_tail p) @
      some_entry ''program'' JObj (rp_program p) @ some_entry ''reader'' JStr (rp_reader p) @ some_entry ''species'' JStr (rp_species p) @
      some_entry ''species_filter'' JStr (rp_species_filter p) @ some_entry ''min_kev'' JFloat (rp_min_kev p) @
      some_entry ''max_kev'' JFloat (rp_max_kev p))"

text \<open>
  Both patterns are anchored by a dollar under \<open>re.match\<close>, so a trailing line feed passes: what else is
  accepted is made of the class only.
\<close>

lemma dollar_match_class: "dollar_match p s \<Longrightarrow> \<exists>t. t \<noteq> [] \<and> list_all p t \<and> (s = t \<or> s = t @ [CHR 0x0A])"
proof (cases "s \<noteq> [] \<and> last s = CHR 0x0A")
  case True
  then have s: "s = butlast s @ [CHR 0x0A]" by (metis append_butlast_last_id)
  assume "dollar_match p s"
  with True have "butlast s \<noteq> []" "list_all p (butlast s)" by (auto simp: dollar_match_def Let_def)
  with s show ?thesis by blast
qed (auto simp: dollar_match_def Let_def)

lemma species_newline_accepted: "valid_species_name (''e'' @ [CHR 0x0A])" "valid_result_path (''a.txt'' @ [CHR 0x0A])"
  by code_simp+

end
