(* ===== verification/SimClient.thy ===== *)
theory SimClient
  imports SimStore SimFollow SimResults
begin

text \<open>
  \<open>simclient/client.py\<close>: the simulation-side client. Its state, what it asks of the outside world, and one
  definition per handler. A handler's code up to its first \<open>await\<close> is one step; what runs afterwards in a task
  (a hello job, the build of an accepted submission) is kept as a task and has steps of its own, so that
  handling a message directly and serving messages concurrently are built from the same definitions.
\<close>

section \<open>State\<close>

datatype effect =
    Sent rcp_message
  | RanHello string
  | RanSubmit string
  | Controlled simulation_op tracked_sim

text \<open>
  A suspended part of a handler: a hello command admitted but not executed, one executed whose outcome is not
  recorded yet, the same two for a submission, and a control request that has passed its replay cache.
\<close>

datatype 'r task =
    HelloWaiting rcp_message string
  | HelloDone rcp_message string hello_result
  | SubmitWaiting string "'r prepared" string string
  | SubmitDone string string string string "sim_error + submit_outcome"
  | ControlWaiting rcp_message string simulation_op tracked_sim

record ('r, 'w) client =
  cs_sim :: string
  cs_secret :: string
  cs_allowed :: "string option"
  cs_config :: "'r cluster option"
  cs_capabilities :: capabilities
  cs_sequences :: sequence_state
  cs_seen :: dedup_store
  cs_store :: cmd_store
  cs_tracked :: "(string \<times> tracked_sim) list"
  cs_followers :: "(string \<times> follower) list"
  cs_poll_interval :: rat
  cs_poll_max :: rat
  cs_build_concurrency :: int
  cs_active_builds :: "(string \<times> string) list"
  cs_control_acks :: "((string \<times> string \<times> string) \<times> rcp_message) list"
  cs_serving :: bool
  cs_tasks :: "'r task list"
  cs_log :: "effect list"
  cs_world :: 'w

text \<open>
  How the run of a hello job goes: the message file cannot be written, sbatch or the wait fails (with
  \<open>SlurmError\<close> or otherwise), or a last snapshot, with the text of the output file if it can be read.
\<close>

datatype hello_run =
    HelloRaised string
  | HelloSubmitFailed string
  | HelloWaitFailed int string
  | HelloWaitRaised int string
  | HelloFinished int job_info "string option"

datatype result_answer = NoEngine | EngineRaised string | EnginePayload "(string \<times> json) list"

record ('r, 'w) outside =
  we_lib :: sim_lib
  we_codec :: codec
  we_mac :: "string \<Rightarrow> string \<Rightarrow> string"
  we_lax_float :: "json \<Rightarrow> pyfloat option"
  we_program_ok :: "json \<Rightarrow> bool"
  we_now :: "'w \<Rightarrow> string"
  we_append :: "'w \<Rightarrow> write_outcome \<times> 'w"
  we_rewrite :: "'w \<Rightarrow> bool \<times> 'w"
  we_hello :: "'w \<Rightarrow> string \<Rightarrow> string \<Rightarrow> string \<Rightarrow> hello_run \<times> 'w"
  we_exec :: "('r, 'w) executor"
  we_job_info :: "'w \<Rightarrow> int \<Rightarrow> (string + job_info) \<times> 'w"
  we_control :: "('w \<Rightarrow> simulation_op \<Rightarrow> tracked_sim \<Rightarrow> (string + string) \<times> 'w) option"
  we_result :: "'w \<Rightarrow> tracked_sim \<Rightarrow> result_params \<Rightarrow> result_answer \<times> 'w"
  we_suspect :: "'w \<Rightarrow> tracked_sim \<Rightarrow> string option"
  we_has_output :: "'w \<Rightarrow> string \<Rightarrow> bool"
  we_build_log :: "'w \<Rightarrow> string \<Rightarrow> string list"
  we_file :: "'w \<Rightarrow> string \<Rightarrow> string option"
  we_find_stdout :: "'w \<Rightarrow> string \<Rightarrow> string option"

section \<open>Sending and persisting\<close>

text \<open>An ack takes the next sequence number when it is built and signed; sending is a separate effect.\<close>

definition build_signed :: "('r, 'w) outside \<Rightarrow> (string \<Rightarrow> string \<Rightarrow> int \<Rightarrow> rcp_message) \<Rightarrow> ('r, 'w) client \<Rightarrow> rcp_message \<times> ('r, 'w) client" where
  "build_signed E f s = (let (n, sq) = next_seq (cs_sequences s) (cs_sim s) Simclient
     in (sign_message (we_mac E) (sl_frepr (we_lib E)) (cs_secret s) (f (we_now E (cs_world s)) (cs_sim s) n), s\<lparr>cs_sequences := sq\<rparr>))"

definition log_effect :: "effect \<Rightarrow> ('r, 'w) client \<Rightarrow> ('r, 'w) client" where
  "log_effect e s = s\<lparr>cs_log := cs_log s @ [e]\<rparr>"

definition answer :: "('r, 'w) outside \<Rightarrow> (string \<Rightarrow> string \<Rightarrow> int \<Rightarrow> rcp_message) \<Rightarrow> ('r, 'w) client \<Rightarrow> rcp_message \<times> ('r, 'w) client" where
  "answer E f s = (let (m, s1) = build_signed E f s in (m, log_effect (Sent m) s1))"

definition persist :: "('r, 'w) outside \<Rightarrow> processed \<Rightarrow> ('r, 'w) client \<Rightarrow> ('r, 'w) client" where
  "persist E r s = (let (wo, w1) = we_append E (cs_world s); (rw, w2) = we_rewrite E w1
     in s\<lparr>cs_store := persist_processed (we_codec E) wo rw r (cs_store s), cs_world := w2\<rparr>)"

definition payload_str :: "('r, 'w) outside \<Rightarrow> rcp_message \<Rightarrow> string \<Rightarrow> string \<Rightarrow> string" where
  "payload_str E m k d = get_str (we_lib E) (rm_payload m) k d"

definition record_of :: "('r, 'w) client \<Rightarrow> string \<Rightarrow> processed option" where
  "record_of s c = map_of (ps_mem (cs_store s)) c"

section \<open>Acceptance\<close>

definition accepts :: "('r, 'w) outside \<Rightarrow> ('r, 'w) client \<Rightarrow> rcp_message \<Rightarrow> bool \<times> ('r, 'w) client" where
  "accepts E s m =
     (if rm_sim m \<noteq> cs_sim s \<or> rm_kind m \<noteq> KCommand then (False, s)
      else if \<not> verify_message (we_mac E) (sl_frepr (we_lib E)) (cs_secret s) m then (False, s)
      else if truthy (cs_allowed s) \<and> truthy (rm_transport_sender m) \<and> rm_transport_sender m \<noteq> cs_allowed s then (False, s)
      else (case seen (cs_seen s) m of (b, d) \<Rightarrow> (b, s\<lparr>cs_seen := d\<rparr>)))"

section \<open>Rejections\<close>

text \<open>The several shapes of a rejection: the payload may be invalid, so its fields are read defensively.\<close>

definition control_rejection :: "('r, 'w) outside \<Rightarrow> rcp_message \<Rightarrow> string \<Rightarrow> sim_error_code \<Rightarrow> string \<Rightarrow> string \<Rightarrow> int \<Rightarrow> rcp_message" where
  "control_rejection E m err code now sim n =
     (let op = (case parse_op (payload_str E m ''op'' '''') of None \<Rightarrow> OpCheckpoint | Some p \<Rightarrow> p)
      in build_control_ack now sim n (payload_str E m ''cmd_id'' '''') (payload_str E m ''sim_id'' '''') op False (rm_transport_event_id m)
           None None None None (Some err) (Some (error_value code)))"

definition result_rejection :: "('r, 'w) outside \<Rightarrow> rcp_message \<Rightarrow> string \<Rightarrow> sim_error_code \<Rightarrow> string \<Rightarrow> string \<Rightarrow> int \<Rightarrow> rcp_message" where
  "result_rejection E m err code now sim n =
     (let op = (case parse_result_op (payload_str E m ''op'' '''') of None \<Rightarrow> RDescribe | Some p \<Rightarrow> p)
      in build_result_ack (sl_frepr (we_lib E)) now sim n (payload_str E m ''cmd_id'' '''') (payload_str E m ''sim_id'' '''') op
           (rm_transport_event_id m) [(''error'', JStr err), (''error_code'', JStr (error_value code))])"

definition logs_answer :: "('r, 'w) outside \<Rightarrow> rcp_message \<Rightarrow> string list \<Rightarrow> nat \<Rightarrow> string option \<Rightarrow> string option \<Rightarrow> string \<Rightarrow> string \<Rightarrow> int \<Rightarrow> rcp_message" where
  "logs_answer E m ls n err code now sim sq = build_logs_ack now sim sq (payload_str E m ''cmd_id'' '''') (payload_str E m ''sim_id'' '''')
     (rm_transport_event_id m) (payload_str E m ''stream'' ''stdout'') ls n err code"

definition status_rejection :: "('r, 'w) outside \<Rightarrow> rcp_message \<Rightarrow> string \<Rightarrow> string \<Rightarrow> string \<Rightarrow> string \<Rightarrow> int \<Rightarrow> rcp_message" where
  "status_rejection E m err code now sim n = build_status_ack now sim n (payload_str E m ''cmd_id'' '''') (payload_str E m ''sim_id'' '''')
     (rm_transport_event_id m) (state_value SimFailed) (no_status\<lparr>sf_error := Some err, sf_error_code := Some code\<rparr>)"

definition reject_pull :: "('r, 'w) outside \<Rightarrow> rcp_message \<Rightarrow> string \<Rightarrow> sim_error_code \<Rightarrow> ('r, 'w) client \<Rightarrow> rcp_message \<times> ('r, 'w) client" where
  "reject_pull E m err code s =
     (if rm_type m = type_value TLogs then answer E (logs_answer E m [] 0 (Some err) (Some (error_value code))) s
      else if rm_type m = type_value TControl then answer E (control_rejection E m err code) s
      else if rm_type m = type_value TResult then answer E (result_rejection E m err code) s
      else answer E (status_rejection E m err (error_value code)) s)"

definition header_of :: "rcp_message \<Rightarrow> (string \<times> json) list" where
  "header_of m = (case map_of (rm_payload m) ''header'' of Some (JObj h) \<Rightarrow> h | _ \<Rightarrow> [])"

definition or_else :: "string \<Rightarrow> string \<Rightarrow> string" where
  "or_else a b = (if a \<noteq> '''' then a else b)"

definition submit_answer :: "rcp_message \<Rightarrow> string \<Rightarrow> string \<Rightarrow> simulation_state \<Rightarrow> int option \<Rightarrow> string option \<Rightarrow> string option
    \<Rightarrow> string \<Rightarrow> string \<Rightarrow> int \<Rightarrow> rcp_message" where
  "submit_answer m cmd_id sim_id st jid err code now sim n = build_submit_ack now sim n cmd_id sim_id st (rm_transport_event_id m) jid err code"

definition reject_submit :: "('r, 'w) outside \<Rightarrow> rcp_message \<Rightarrow> string \<Rightarrow> sim_error_code \<Rightarrow> string \<Rightarrow> string \<Rightarrow> ('r, 'w) client \<Rightarrow> rcp_message \<times> ('r, 'w) client" where
  "reject_submit E m err code sim_id cmd_id s = answer E (submit_answer m (or_else cmd_id (payload_str E m ''cmd_id'' ''''))
     (or_else sim_id (get_str (we_lib E) (header_of m) ''sim_id'' '''')) SimFailed None (Some err) (Some (error_value code))) s"

definition reject_m2 :: "('r, 'w) outside \<Rightarrow> rcp_message \<Rightarrow> string \<Rightarrow> sim_error_code \<Rightarrow> ('r, 'w) client \<Rightarrow> rcp_message \<times> ('r, 'w) client" where
  "reject_m2 E m err code s = (if rm_type m = type_value TSubmit then reject_submit E m err code '''' '''' s else reject_pull E m err code s)"

definition reject_unsupported :: "('r, 'w) outside \<Rightarrow> rcp_message \<Rightarrow> string \<Rightarrow> string \<Rightarrow> ('r, 'w) client \<Rightarrow> rcp_message \<times> ('r, 'w) client" where
  "reject_unsupported E m op ty s =
     (let err = client_capability_mismatch (cs_capabilities s) op ty in
      if rm_type m = type_value TResult then answer E (result_rejection E m err EUnsupportedByClient) s
      else if rm_type m = type_value TControl then answer E (control_rejection E m err EUnsupportedByClient) s
      else reject_pull E m err EUnsupportedByClient s)"

section \<open>Hello\<close>

definition read_outcome :: "job_info \<Rightarrow> string option \<Rightarrow> (string option \<times> string option) option" where
  "read_outcome info text =
     (if ji_state info = JCompleted then (case text of None \<Rightarrow> None | Some t \<Rightarrow> Some (None, Some t))
      else if job_terminal (ji_state info) then Some (Some (''job_failed:'' @ job_state_value (ji_state info)), None)
      else Some (Some (''job_timeout:'' @ job_state_value (ji_state info)), None))"

definition hello_outcome :: "int option \<Rightarrow> string option \<Rightarrow> string option \<Rightarrow> hello_result" where
  "hello_outcome jid out err = \<lparr>hr_job_id = jid, hr_cluster_output = out, hr_error = err, hr_error_code = None\<rparr>"

text \<open>\<open>_execute_hello\<close>; \<open>None\<close> when reading the output raises, which nothing catches.\<close>

definition execute_hello :: "hello_run \<Rightarrow> hello_result option" where
  "execute_hello run = (case run of
     HelloRaised e \<Rightarrow> Some (hello_outcome None None (Some (''unexpected:'' @ e)))
   | HelloSubmitFailed e \<Rightarrow> Some (hello_outcome None None (Some (''submit_failed:'' @ e)))
   | HelloWaitFailed j e \<Rightarrow> Some (hello_outcome (Some j) None (Some ((if j \<noteq> 0 then ''signal_failed:'' else ''submit_failed:'') @ e)))
   | HelloWaitRaised j e \<Rightarrow> Some (hello_outcome (Some j) None (Some (''unexpected:'' @ e)))
   | HelloFinished j info text \<Rightarrow> (case read_outcome info text of
       None \<Rightarrow> None | Some (err, out) \<Rightarrow> Some (hello_outcome (Some j) out err)))"

definition hello_answer :: "('r, 'w) client \<Rightarrow> rcp_message \<Rightarrow> string \<Rightarrow> hello_result \<Rightarrow> string \<Rightarrow> string \<Rightarrow> int \<Rightarrow> rcp_message" where
  "hello_answer s m cmd_id r now sim n = build_hello_ack now sim n cmd_id (rm_transport_event_id m) (hr_job_id r) (hr_cluster_output r)
     (hr_error r) (hr_error_code r) (Some (cs_capabilities s))"

definition add_task :: "'r task \<Rightarrow> ('r, 'w) client \<Rightarrow> ('r, 'w) client" where
  "add_task t s = s\<lparr>cs_tasks := cs_tasks s @ [t]\<rparr>"

text \<open>\<open>_handle_hello\<close> up to the execution: a known id is re-acked, a new one persisted before it runs.\<close>

definition admit_hello :: "('r, 'w) outside \<Rightarrow> rcp_message \<Rightarrow> ('r, 'w) client \<Rightarrow> rcp_message option \<times> ('r, 'w) client" where
  "admit_hello E m s =
     (let cmd_id = payload_str E m ''cmd_id'' '''' in
      case (if cmd_id \<noteq> '''' then record_of s cmd_id else None) of
        Some r \<Rightarrow> (case answer E (hello_answer s m cmd_id (to_result r)) s of (a, s1) \<Rightarrow> (Some a, s1))
      | None \<Rightarrow> (None, add_task (HelloWaiting m cmd_id) (if cmd_id \<noteq> '''' then persist E (new_record cmd_id) s else s)))"

definition run_hello :: "('r, 'w) outside \<Rightarrow> rcp_message \<Rightarrow> string \<Rightarrow> ('r, 'w) client \<Rightarrow> hello_result option \<times> ('r, 'w) client" where
  "run_hello E m cmd_id s =
     (case we_hello E (cs_world s) (payload_str E m ''message_path'' '''') (payload_str E m ''message'' ''Hello World'') (''hello-'' @ cmd_id @ ''.out'') of
        (run, w) \<Rightarrow> (execute_hello run, log_effect (RanHello cmd_id) (s\<lparr>cs_world := w\<rparr>)))"

text \<open>After it: the ack is built, the outcome persisted, the ack sent.\<close>

definition finish_hello :: "('r, 'w) outside \<Rightarrow> rcp_message \<Rightarrow> string \<Rightarrow> hello_result \<Rightarrow> ('r, 'w) client \<Rightarrow> rcp_message \<times> ('r, 'w) client" where
  "finish_hello E m cmd_id r s =
     (let (a, s1) = build_signed E (hello_answer s m cmd_id r) s;
          s2 = (if cmd_id \<noteq> '''' then persist E ((new_record cmd_id)\<lparr>pc_completed := True, pc_job_id := hr_job_id r,
                  pc_cluster_output := hr_cluster_output r, pc_error := hr_error r\<rparr>) s1 else s1)
      in (a, log_effect (Sent a) s2))"

section \<open>Submit\<close>

definition submit_record :: "string \<Rightarrow> string \<Rightarrow> string \<Rightarrow> processed" where
  "submit_record cmd_id hash sim_id = (new_record cmd_id)\<lparr>pc_payload_hash := Some hash, pc_sim_id := Some sim_id\<rparr>"

definition failed_record :: "string \<Rightarrow> string \<Rightarrow> string \<Rightarrow> sim_error \<Rightarrow> processed" where
  "failed_record cmd_id hash sim_id e = (submit_record cmd_id hash sim_id)\<lparr>pc_completed := True,
     pc_state := Some (state_value SimFailed), pc_error := Some (se_message e), pc_error_code := Some (error_value (se_code e))\<rparr>"

lemma record_simps [simp]:
  "pc_cmd_id (submit_record c h i) = c" "pc_payload_hash (submit_record c h i) = Some h" "pc_sim_id (submit_record c h i) = Some i"
  "pc_completed (submit_record c h i) = False" "pc_cmd_id (failed_record c h i e) = c" "pc_payload_hash (failed_record c h i e) = Some h"
  by (simp_all add: submit_record_def failed_record_def)

definition cmd_id_conflict :: string where
  "cmd_id_conflict = ''cmd_id_conflict: a different payload was already submitted under this cmd_id''"

text \<open>
  \<open>_submit_replay_ack\<close>: a conflict, a replay, or \<open>None\<close> when the command counts as new. \<open>SimulationState(state)\<close>
  of a stored state that is none raises; every stored state is one.
\<close>

definition stored_state :: "processed \<Rightarrow> simulation_state" where
  "stored_state r = (case pc_state r of
     Some s \<Rightarrow> (case parse_state s of Some st \<Rightarrow> if s = '''' then SimFailed else st | None \<Rightarrow> SimFailed)
   | None \<Rightarrow> SimFailed)"

definition submit_replay :: "rcp_message \<Rightarrow> processed \<Rightarrow> string \<Rightarrow> string \<Rightarrow> string \<Rightarrow> (string \<Rightarrow> string \<Rightarrow> int \<Rightarrow> rcp_message) option" where
  "submit_replay m r cmd_id sim_id hash =
     (if truthy (pc_payload_hash r) \<and> hash \<noteq> '''' \<and> pc_payload_hash r \<noteq> Some hash
      then Some (submit_answer m cmd_id sim_id SimFailed None (Some cmd_id_conflict) (Some (error_value ERejected)))
      else if pc_payload_hash r = Some hash \<and> hash \<noteq> ''''
      then Some (submit_answer m cmd_id (or_else (case pc_sim_id r of None \<Rightarrow> '''' | Some i \<Rightarrow> i) sim_id)
             (if pc_completed r then stored_state r else SimFailed) (pc_job_id r)
             (if pc_completed r then pc_error r else Some outcome_unknown_error)
             (if pc_completed r then pc_error_code r else Some (error_value EOutcomeUnknown)))
      else None)"

text \<open>
  \<open>_prepare_or_reject\<close>. A missing payload is rejected without a record of the outcome, a failed check with one,
  persisted between building and sending the ack.
\<close>

definition prepare_or_reject :: "('r, 'w) outside \<Rightarrow> 'r cluster \<Rightarrow> rcp_message \<Rightarrow> string \<Rightarrow> string \<Rightarrow> string \<Rightarrow> ('r, 'w) client
    \<Rightarrow> (rcp_message + 'r prepared) \<times> ('r, 'w) client" where
  "prepare_or_reject E k m hash cmd_id sim_id s =
     (case map_of (rm_payload m) ''payload'' of
        Some (JStr raw) \<Rightarrow>
          (case bind_res (parse_payload (we_lib E) raw) (\<lambda>doc. prepare_submit (we_lib E) k doc (header_of m)
                  (map_of (rm_payload m) ''params'') (or_else cmd_id hash)) of
             Inr p \<Rightarrow> (Inr p, s)
           | Inl e \<Rightarrow>
               (let (a, s1) = build_signed E (submit_answer m cmd_id sim_id SimFailed None (Some (se_message e)) (Some (error_value (se_code e)))) s;
                    s2 = (if cmd_id \<noteq> '''' then persist E (failed_record cmd_id hash sim_id e) s1 else s1)
                in (Inl a, log_effect (Sent a) s2)))
      | _ \<Rightarrow> (case reject_submit E m ''payload_missing'' ERejected sim_id cmd_id s of (a, s1) \<Rightarrow> (Inl a, s1)))"

definition admit_submit :: "('r, 'w) outside \<Rightarrow> 'r cluster \<Rightarrow> rcp_message \<Rightarrow> ('r, 'w) client \<Rightarrow> rcp_message \<times> ('r, 'w) client" where
  "admit_submit E k m s =
     (let cmd_id = payload_str E m ''cmd_id'' ''''; hash = get_str (we_lib E) (header_of m) ''payload_hash'' '''';
          sim_id = get_str (we_lib E) (header_of m) ''sim_id'' '''' in
      case (case (if cmd_id \<noteq> '''' then record_of s cmd_id else None) of None \<Rightarrow> None | Some r \<Rightarrow> submit_replay m r cmd_id sim_id hash) of
        Some f \<Rightarrow> answer E f s
      | None \<Rightarrow>
          (let s1 = (if cmd_id \<noteq> '''' then persist E (submit_record cmd_id hash sim_id) s else s) in
           case prepare_or_reject E k m hash cmd_id sim_id s1 of
             (Inl a, s2) \<Rightarrow> (a, s2)
           | (Inr p, s2) \<Rightarrow>
               (let sid = payload_sim_id (we_lib E) (pp_payload p);
                    (a, s3) = answer E (submit_answer m cmd_id sid SimAccepted None None None) s2
                in (a, add_task (SubmitWaiting cmd_id p hash sid) s3))))"

text \<open>\<open>emit\<close>: one lifecycle event of a submission.\<close>

definition emit_event :: "('r, 'w) outside \<Rightarrow> string \<Rightarrow> string \<Rightarrow> emitted \<Rightarrow> ('r, 'w) client \<Rightarrow> ('r, 'w) client" where
  "emit_event E cmd_id sim_id e s = (case e of (st, jid, f) \<Rightarrow> snd (answer E (\<lambda>now sim n. build_submit_event now sim n cmd_id sim_id st jid f) s))"

definition emit_all :: "('r, 'w) outside \<Rightarrow> string \<Rightarrow> string \<Rightarrow> emitted list \<Rightarrow> ('r, 'w) client \<Rightarrow> ('r, 'w) client" where
  "emit_all E cmd_id sim_id es s = fold (emit_event E cmd_id sim_id) es s"

text \<open>
  \<open>_execute_accepted_submit\<close> in two parts: the run itself, with the events it emits, and what is recorded after it.
\<close>

definition run_submit :: "('r, 'w) outside \<Rightarrow> 'r cluster \<Rightarrow> string \<Rightarrow> 'r prepared \<Rightarrow> string \<Rightarrow> ('r, 'w) client
    \<Rightarrow> (sim_error + submit_outcome) \<times> ('r, 'w) client" where
  "run_submit E k cmd_id p sim_id s =
     (let s1 = log_effect (RanSubmit cmd_id) (s\<lparr>cs_active_builds := AList.update sim_id (path_str (pp_run_dir p)) (cs_active_builds s)\<rparr>)
      in case execute_submit (we_lib E) k (we_exec E) (cs_world s1) p of
           (evs, res, w) \<Rightarrow> (res, emit_all E cmd_id sim_id evs (s1\<lparr>cs_world := w\<rparr>)))"

definition failed_event :: "sim_error \<Rightarrow> emitted" where
  "failed_event e = (SimFailed, None, no_fields\<lparr>ef_stage := Some (stage_value (case se_stage e of None \<Rightarrow> StBuild | Some st \<Rightarrow> st)),
     ef_error := Some (se_message e), ef_error_code := Some (error_value (se_code e)), ef_failure_summary := se_summary e\<rparr>)"

text \<open>
  \<open>_start_follower\<close>: the previous watcher of the same simulation is cancelled before it is replaced. A tracked
  simulation and its watcher share one object, so a step of the watcher changes what a status request reads.
\<close>

definition start_follower :: "string \<Rightarrow> submit_outcome \<Rightarrow> string \<Rightarrow> ('r, 'w) client \<Rightarrow> ('r, 'w) client" where
  "start_follower cmd_id out sys s =
     (if \<not> cs_serving s \<or> (so_job_id out = None \<and> sys \<noteq> default_submit_system) then s
      else let t = new_tracked (so_sim_id out) cmd_id (so_job_id out) (so_run_dir out) (so_stdout_path out) sys
           in s\<lparr>cs_tracked := AList.update (so_sim_id out) t (cs_tracked s),
                cs_followers := AList.update (so_sim_id out) (new_follower t (cs_poll_interval s) (cs_poll_max s)) (cs_followers s)\<rparr>)"

definition follow_step :: "('r, 'w) outside \<Rightarrow> string \<Rightarrow> poll \<Rightarrow> ('r, 'w) client \<Rightarrow> ('r, 'w) client" where
  "follow_step E sid p s = (case map_of (cs_followers s) sid of
     None \<Rightarrow> s
   | Some f \<Rightarrow>
       (case follow_tick f p of (evs, f1, e) \<Rightarrow>
          (let s1 = emit_all E (ts_cmd_id (fo_tracked f)) sid evs s
           in s1\<lparr>cs_tracked := AList.update sid (fo_tracked f1) (cs_tracked s1),
                 cs_followers := (if e = Continues then AList.update sid f1 (cs_followers s1) else AList.delete sid (cs_followers s1))\<rparr>)))"

definition finish_submit :: "('r, 'w) outside \<Rightarrow> string \<Rightarrow> string \<Rightarrow> string \<Rightarrow> string \<Rightarrow> sim_error + submit_outcome \<Rightarrow> ('r, 'w) client \<Rightarrow> ('r, 'w) client" where
  "finish_submit E cmd_id sys hash sim_id res s = (case res of
     Inl e \<Rightarrow>
       (let s1 = emit_event E cmd_id sim_id (failed_event e) s;
            s2 = (if cmd_id \<noteq> '''' then persist E (failed_record cmd_id hash sim_id e) s1 else s1)
        in s2\<lparr>cs_active_builds := AList.delete sim_id (cs_active_builds s2)\<rparr>)
   | Inr out \<Rightarrow>
       (let s1 = s\<lparr>cs_active_builds := AList.delete sim_id (cs_active_builds s)\<rparr>;
            s2 = (if cmd_id \<noteq> '''' then persist E ((submit_record cmd_id hash (so_sim_id out))\<lparr>pc_completed := True,
                    pc_job_id := so_job_id out, pc_state := Some (so_state out)\<rparr>) s1 else s1)
        in start_follower cmd_id out sys s2))"


end
