(* ===== verification/SimHandlers.thy ===== *)
theory SimHandlers
  imports SimClient
begin

text \<open>
  \<open>simclient/client.py\<close>, continued: control, status, result and log requests, the dispatch of an inbound
  message, and the tasks a message leaves behind.
\<close>

section \<open>Settings\<close>

text \<open>\<open>derive_setup_dir\<close>; \<open>resolve\<close> is \<open>Path.resolve\<close>, \<open>None\<close> an \<open>OSError\<close>.\<close>

definition derive_setup_dir :: "(path \<Rightarrow> path option) \<Rightarrow> path \<Rightarrow> path option" where
  "derive_setup_dir resolve run_dir = (case (resolve (butlast run_dir), resolve (butlast run_dir @ [''input''])) of
     (Some base, Some setup) \<Rightarrow> if butlast setup \<noteq> base then None else Some setup
   | _ \<Rightarrow> None)"

definition default_build_concurrency :: int where
  "default_build_concurrency = 1"

definition resolve_build_concurrency :: "string option \<Rightarrow> string option \<Rightarrow> int" where
  "resolve_build_concurrency raw env = (case (if raw \<noteq> None then raw else env) of
     None \<Rightarrow> default_build_concurrency
   | Some v \<Rightarrow> (if py_strip v = '''' then default_build_concurrency
       else case py_int v of None \<Rightarrow> default_build_concurrency | Some n \<Rightarrow> max 1 n))"

definition default_shutdown_grace :: pyfloat where
  "default_shutdown_grace = Fin 120"

text \<open>\<open>max(0.0, parsed)\<close> keeps its first argument unless the second is greater, so a NaN becomes zero.\<close>

definition resolve_shutdown_grace :: "(string \<Rightarrow> pyfloat option) \<Rightarrow> string option \<Rightarrow> string option \<Rightarrow> pyfloat" where
  "resolve_shutdown_grace fparse raw env = (case (if raw \<noteq> None then raw else env) of
     None \<Rightarrow> default_shutdown_grace
   | Some v \<Rightarrow> (if py_strip v = '''' then default_shutdown_grace
       else case fparse v of None \<Rightarrow> default_shutdown_grace | Some x \<Rightarrow> if flt (Fin 0) x then x else Fin 0))"

lemma build_concurrency_positive: "1 \<le> resolve_build_concurrency raw env"
  by (auto simp: resolve_build_concurrency_def default_build_concurrency_def split: option.splits)

lemma shutdown_grace_nonneg: "fle (Fin 0) (resolve_shutdown_grace fparse raw env)"
proof -
  have "flt (Fin 0) x \<Longrightarrow> fle (Fin 0) x" for x by (cases x) (simp_all add: fle_def)
  then show ?thesis by (auto simp: resolve_shutdown_grace_def default_shutdown_grace_def fle_def feq_def split: option.splits)
qed

lemma setup_dir_is_sibling: "derive_setup_dir resolve d = Some p \<Longrightarrow> resolve (butlast d) = Some (butlast p)"
  by (auto simp: derive_setup_dir_def split: option.splits if_splits)

section \<open>Control\<close>

definition control_doc :: "rcp_message \<Rightarrow> (string \<times> json) list" where
  "control_doc m = map (\<lambda>k. (k, case map_of (rm_payload m) k of None \<Rightarrow> JNull | Some v \<Rightarrow> v)) [''sim_id'', ''op'']"

definition validate_control_params :: "(string \<times> json) list \<Rightarrow> (string \<times> simulation_op) option" where
  "validate_control_params kvs = (case (map_of kvs ''sim_id'', map_of kvs ''op'') of
     (Some (JStr sid), Some (JStr p)) \<Rightarrow> map_option (Pair sid) (parse_op p)
   | _ \<Rightarrow> None)"

definition parse_control_or_reject :: "('r, 'w) outside \<Rightarrow> rcp_message \<Rightarrow> ('r, 'w) client \<Rightarrow> (rcp_message + string \<times> simulation_op) \<times> ('r, 'w) client" where
  "parse_control_or_reject E m s =
     (let raw = payload_str E m ''op'' '''' in
      if raw \<noteq> '''' \<and> \<not> supports_control_op (cs_capabilities s) raw
      then (case answer E (control_rejection E m (client_capability_mismatch (cs_capabilities s) raw '''') EUnsupportedByClient) s of (a, s1) \<Rightarrow> (Inl a, s1))
      else (case validate_control_params (control_doc m) of
          Some p \<Rightarrow> (Inr p, s)
        | None \<Rightarrow> (case answer E (control_rejection E m (''invalid_control_params:'' @ sl_invalid (we_lib E) ''ControlParams'' (JObj (control_doc m)))
              ERejected) s of (a, s1) \<Rightarrow> (Inl a, s1))))"

record control_fields =
  cf_job_id :: "int option"
  cf_signal :: "string option"
  cf_reason :: "string option"
  cf_state :: "string option"
  cf_error :: "string option"
  cf_code :: "sim_error_code option"

definition no_control :: control_fields where
  "no_control = \<lparr>cf_job_id = None, cf_signal = None, cf_reason = None, cf_state = None, cf_error = None, cf_code = None\<rparr>"

text \<open>\<open>_send_control_ack\<close>: the ack is sent, and kept for a redelivery of the same command.\<close>

definition send_control_ack :: "('r, 'w) outside \<Rightarrow> rcp_message \<Rightarrow> string \<Rightarrow> simulation_op \<Rightarrow> bool \<Rightarrow> control_fields \<Rightarrow> ('r, 'w) client \<Rightarrow> rcp_message \<times> ('r, 'w) client" where
  "send_control_ack E m sid p ok f s =
     (let cmd_id = payload_str E m ''cmd_id'' '''';
          (a, s1) = answer E (\<lambda>now sim n. build_control_ack now sim n cmd_id sid p ok (rm_transport_event_id m) (cf_job_id f) (cf_signal f)
            (cf_reason f) (cf_state f) (cf_error f) (map_option error_value (cf_code f))) s
      in (a, if cmd_id = '''' then s1
             else let cache = AList.update (cmd_id, sid, op_value p) a (cs_control_acks s1)
                  in s1\<lparr>cs_control_acks := drop (length cache - max_processed) cache\<rparr>))"

definition latest_record_for_sim :: "string \<Rightarrow> ('r, 'w) client \<Rightarrow> processed option" where
  "latest_record_for_sim sid s = (if sid = '''' then None else List.find (\<lambda>r. pc_sim_id r = Some sid) (rev (map snd (ps_mem (cs_store s)))))"

definition untracked_detail :: "processed \<Rightarrow> string" where
  "untracked_detail r = (if \<not> pc_completed r
     then ''the simulation was accepted but never recorded an outcome (the simclient may have died mid-build); it has no scheduler job to signal yet''
     else ''the simulation has no live scheduler job (state='' @ (case pc_state r of Some st \<Rightarrow> or_else st ''unknown'' | None \<Rightarrow> ''unknown'') @ '')'')"

text \<open>
  \<open>_control_gate\<close> in two parts: what is answered without asking the scheduler, and what depends on the live state
  (\<open>None\<close> when it is not known).
\<close>

definition untracked_answer :: "string \<Rightarrow> ('r, 'w) client \<Rightarrow> control_fields" where
  "untracked_answer sid s = (case latest_record_for_sim sid s of
     Some r \<Rightarrow> no_control\<lparr>cf_error := Some (''not_signalable: '' @ untracked_detail r), cf_code := Some ENotSignalable, cf_state := pc_state r\<rparr>
   | None \<Rightarrow> no_control\<lparr>cf_error := Some ''unknown_sim'', cf_code := Some ENoResults\<rparr>)"

definition live_gate :: "simulation_op \<Rightarrow> tracked_sim \<Rightarrow> job_state option \<Rightarrow> control_fields option" where
  "live_gate p t st =
     (if p \<in> set control_requires_running \<and> st \<noteq> Some JRunning
      then Some (no_control\<lparr>cf_job_id := ts_job_id t, cf_state := map_option job_state_value st, cf_code := Some ENotSignalable\<rparr>)
      else if p = OpCancel \<and> (case st of None \<Rightarrow> False | Some x \<Rightarrow> job_terminal x)
      then Some (no_control\<lparr>cf_job_id := ts_job_id t, cf_state := map_option job_state_value st, cf_code := Some ENotTerminal\<rparr>)
      else None)"

definition live_job_state :: "('r, 'w) outside \<Rightarrow> tracked_sim \<Rightarrow> ('r, 'w) client \<Rightarrow> job_state option \<times> ('r, 'w) client" where
  "live_job_state E t s = (case ts_job_id t of
     None \<Rightarrow> (None, s)
   | Some j \<Rightarrow> (case we_job_info E (cs_world s) j of
        (Inl exc, w) \<Rightarrow> (None, s\<lparr>cs_world := w\<rparr>)
      | (Inr info, w) \<Rightarrow> (Some (ji_state info), s\<lparr>cs_world := w\<rparr>)))"

text \<open>\<open>_handle_control\<close> up to the first time it waits for the scheduler.\<close>

definition admit_control :: "('r, 'w) outside \<Rightarrow> rcp_message \<Rightarrow> ('r, 'w) client \<Rightarrow> rcp_message option \<times> ('r, 'w) client" where
  "admit_control E m s = (case parse_control_or_reject E m s of
     (Inl a, s1) \<Rightarrow> (Some a, s1)
   | (Inr (sid, p), s1) \<Rightarrow>
       (let cmd_id = payload_str E m ''cmd_id'' '''' in
        case (if cmd_id = '''' then None else map_of (cs_control_acks s1) (cmd_id, sid, op_value p)) of
          Some cached \<Rightarrow> (Some cached, log_effect (Sent cached) s1)
        | None \<Rightarrow>
            (case map_of (cs_tracked s1) sid of
               None \<Rightarrow> map_prod Some id (send_control_ack E m sid p False (untracked_answer sid s1) s1)
             | Some t \<Rightarrow>
                 (if ts_job_id t = None
                  then map_prod Some id (send_control_ack E m sid p False (no_control\<lparr>cf_error := Some ''no_job_id'', cf_code := Some ENotSignalable\<rparr>) s1)
                  else (None, add_task (ControlWaiting m sid p t) s1)))))"

text \<open>The rest of it.\<close>

definition run_control :: "('r, 'w) outside \<Rightarrow> rcp_message \<Rightarrow> string \<Rightarrow> simulation_op \<Rightarrow> tracked_sim \<Rightarrow> ('r, 'w) client \<Rightarrow> rcp_message \<times> ('r, 'w) client" where
  "run_control E m sid p t s = (case live_job_state E t s of (st, s1) \<Rightarrow>
     (case live_gate p t st of
        Some f \<Rightarrow> send_control_ack E m sid p False f s1
      | None \<Rightarrow>
          (case we_control E of
             None \<Rightarrow> answer E (control_rejection E m ''control_disabled'' ERejected) s1
           | Some ctl \<Rightarrow>
               (case ctl (cs_world s1) p t of
                  (Inl exc, w) \<Rightarrow> send_control_ack E m sid p False (no_control\<lparr>cf_job_id := ts_job_id t, cf_signal := control_signal p,
                      cf_error := Some (''control_failed:'' @ exc), cf_code := Some ERunFailed\<rparr>) (log_effect (Controlled p t) (s1\<lparr>cs_world := w\<rparr>))
                | (Inr reason, w) \<Rightarrow>
                    (let s2 = log_effect (Controlled p t) (s1\<lparr>cs_world := w\<rparr>);
                         s3 = (if p = OpCheckpoint then emit_event E (ts_cmd_id t) (ts_sim_id t) (SimCheckpoint, ts_job_id t, no_fields) s2 else s2)
                     in send_control_ack E m sid p True (no_control\<lparr>cf_job_id := ts_job_id t, cf_signal := control_signal p,
                          cf_reason := Some reason, cf_state := (if p = OpCheckpoint then Some (state_value SimCheckpoint) else None)\<rparr>) s3)))))"

section \<open>Status\<close>

fun live_state :: "job_state \<Rightarrow> simulation_state" where
  "live_state JPending = SimSubmitted"
| "live_state JRunning = SimJobRunning"
| "live_state JCompleting = SimJobRunning"
| "live_state JCompleted = SimJobFinished"
| "live_state JFailed = SimJobFailed"
| "live_state JCancelled = SimCancelled"
| "live_state JTimeout = SimJobFailed"
| "live_state JUnknown = SimWorkflowFinished"

definition state_for_info :: "('r, 'w) outside \<Rightarrow> 'w \<Rightarrow> job_info \<Rightarrow> string \<Rightarrow> simulation_state" where
  "state_for_info E w info run_dir =
     (if ji_state info = JCompleted \<and> ji_exit_code info \<in> {None, Some 0}
      then (if run_dir \<noteq> '''' \<and> we_has_output E w run_dir then SimResultsReady else SimJobFinished)
      else live_state (ji_state info))"

text \<open>\<open>_probe_status_suspect\<close>; \<open>we_suspect\<close> is the probe, \<open>None\<close> when it is missing or fails.\<close>

definition probe_status_suspect :: "('r, 'w) outside \<Rightarrow> 'w \<Rightarrow> tracked_sim \<Rightarrow> simulation_state \<Rightarrow> string option" where
  "probe_status_suspect E w t st = (if st \<noteq> SimResultsReady then None else we_suspect E w t)"

definition progress_fields :: "tracked_sim \<Rightarrow> status_fields" where
  "progress_fields t = no_status\<lparr>sf_job_id := ts_job_id t, sf_step := ts_last_step t,
     sf_percent := (if ts_last_percent t \<ge> 0 then Some (ts_last_percent t) else None), sf_walltime := ts_last_walltime t,
     sf_avg_per_step := ts_last_avg_per_step t, sf_eta_s := ts_last_eta_s t\<rparr>"

text \<open>The live snapshot: the state, and the fields of the ack that depend on it.\<close>

definition status_of :: "('r, 'w) outside \<Rightarrow> tracked_sim \<Rightarrow> ('r, 'w) client \<Rightarrow> (simulation_state \<times> status_fields) \<times> ('r, 'w) client" where
  "status_of E t s = (case ts_job_id t of
     None \<Rightarrow> ((SimWorkflowFinished, progress_fields t), s)
   | Some j \<Rightarrow> (case we_job_info E (cs_world s) j of
        (Inl exc, w) \<Rightarrow> ((SimWorkflowFinished, (progress_fields t)\<lparr>sf_error := Some (''job_info_failed:'' @ exc),
           sf_error_code := Some ''job_info_failed''\<rparr>), s\<lparr>cs_world := w\<rparr>)
      | (Inr info, w) \<Rightarrow> ((state_for_info E w info (ts_run_dir t), (progress_fields t)\<lparr>sf_slurm_state := Some (job_state_value (ji_state info)),
           sf_slurm_reason := ji_reason info, sf_exit_code := ji_exit_code info\<rparr>), s\<lparr>cs_world := w\<rparr>)))"

definition handle_status :: "('r, 'w) outside \<Rightarrow> rcp_message \<Rightarrow> ('r, 'w) client \<Rightarrow> rcp_message \<times> ('r, 'w) client" where
  "handle_status E m s =
     (let cmd_id = payload_str E m ''cmd_id'' ''''; sid = payload_str E m ''sim_id'' '''';
          ack = (\<lambda>st f now sim n. build_status_ack now sim n cmd_id sid (rm_transport_event_id m) (state_value st) f)
      in case map_of (cs_tracked s) sid of
           None \<Rightarrow> answer E (ack SimFailed (no_status\<lparr>sf_error := Some ''unknown_sim'', sf_error_code := Some ''unknown_sim''\<rparr>)) s
         | Some t \<Rightarrow>
             (case status_of E t s of ((st, f), s1) \<Rightarrow>
                answer E (ack st (f\<lparr>sf_suspect := probe_status_suspect E (cs_world s1) t st\<rparr>)) s1))"

section \<open>Results\<close>

definition result_doc :: "rcp_message \<Rightarrow> (string \<times> json) list" where
  "result_doc m = map (\<lambda>k. (k, the (map_of (rm_payload m) k))) (filter (\<lambda>k. map_of (rm_payload m) k \<noteq> None) result_fields)"

definition outcome_keys :: "string list" where
  "outcome_keys = [''manifest'', ''result'', ''data'', ''data_encoding'', ''n_points'', ''stats'', ''error'', ''error_code'']"

definition result_outcome :: "result_answer \<Rightarrow> (string \<times> json) list" where
  "result_outcome r = (case r of
     NoEngine \<Rightarrow> [(''error'', JStr ''reader_unavailable''), (''error_code'', JStr (error_value EReaderUnavailable))]
   | EngineRaised exc \<Rightarrow> [(''error'', JStr (''result_failed:'' @ exc)), (''error_code'', JStr (error_value ERunFailed))]
   | EnginePayload p \<Rightarrow> map (\<lambda>k. (k, case map_of p k of None \<Rightarrow> JNull | Some v \<Rightarrow> v)) outcome_keys)"

definition handle_result :: "('r, 'w) outside \<Rightarrow> rcp_message \<Rightarrow> ('r, 'w) client \<Rightarrow> rcp_message \<times> ('r, 'w) client" where
  "handle_result E m s =
     (let raw = payload_str E m ''op'' ''''; cmd_id = payload_str E m ''cmd_id'' '''' in
      if raw \<noteq> '''' \<and> \<not> supports_result_op (cs_capabilities s) raw
      then answer E (result_rejection E m (client_capability_mismatch (cs_capabilities s) raw '''') EUnsupportedByClient) s
      else (case validate_result_params (we_lib E) (we_lax_float E) (we_program_ok E) (result_doc m) of
          None \<Rightarrow> answer E (result_rejection E m (''invalid_result_params:'' @ sl_invalid (we_lib E) ''ResultParams'' (JObj (result_doc m))) ERejected) s
        | Some p \<Rightarrow>
            (let ack = (\<lambda>outcome now sim n. build_result_ack (sl_frepr (we_lib E)) now sim n cmd_id (rp_sim_id p) (rp_op p) (rm_transport_event_id m) outcome)
             in case map_of (cs_tracked s) (rp_sim_id p) of
                  None \<Rightarrow> answer E (ack [(''error'', JStr ''unknown_sim''), (''error_code'', JStr (error_value ENoResults))]) s
                | Some t \<Rightarrow> (case we_result E (cs_world s) t p of (r, w) \<Rightarrow> answer E (ack (result_outcome r)) (s\<lparr>cs_world := w\<rparr>)))))"

section \<open>Logs\<close>

definition assumed_max_line_bytes :: nat where
  "assumed_max_line_bytes = 4096"

definition max_log_read_bytes :: nat where
  "max_log_read_bytes = 8 * 1024 * 1024"

definition last_lines :: "nat \<Rightarrow> 'a list \<Rightarrow> 'a list" where
  "last_lines n ls = (if n = 0 then [] else drop (length ls - n) ls)"

text \<open>
  \<open>_read_tail\<close> on the content of the file (\<open>None\<close>: no file, or unreadable). A window that does not reach the
  start of the file is cut at its first newline.
\<close>

definition tail_window :: "nat \<Rightarrow> nat" where
  "tail_window n = min max_log_read_bytes (max n 1 * assumed_max_line_bytes + 1)"

definition read_tail :: "string option \<Rightarrow> nat \<Rightarrow> string list \<times> nat" where
  "read_tail content n = (case content of
     None \<Rightarrow> ([], 0)
   | Some s \<Rightarrow>
       (let start = length s - tail_window n; data = drop start s in
        if start > 0 \<and> CHR 0x0A \<notin> set data then ([], 0)
        else (let ls = splitlines (if start > 0 then tl (dropWhile (\<lambda>c. c \<noteq> CHR 0x0A) data) else data)
              in (last_lines n ls, length ls))))"

text \<open>\<open>_log_path\<close>: the file behind a stream. \<open>we_file\<close> is the content of a file, \<open>None\<close> when there is no readable one.\<close>

definition in_dir :: "string \<Rightarrow> string \<Rightarrow> string" where
  "in_dir d s = (if d = '''' then s else d @ ''/'' @ s)"

definition log_path :: "('r, 'w) outside \<Rightarrow> 'w \<Rightarrow> tracked_sim \<Rightarrow> string \<Rightarrow> string option" where
  "log_path E w t stream =
     (if stream = ''stdout''
      then (case ts_stdout_path t of
          Some p \<Rightarrow> Some (if p \<noteq> '''' \<and> we_file E w p \<noteq> None then p else in_dir (ts_run_dir t) ''stdout'')
        | None \<Rightarrow> Some (in_dir (ts_run_dir t) ''stdout''))
      else if stream = ''stderr'' then Some (in_dir (ts_run_dir t) ''stderr'')
      else we_find_stdout E w (ts_run_dir t))"

definition tracked_logs :: "('r, 'w) outside \<Rightarrow> 'w \<Rightarrow> tracked_sim \<Rightarrow> string \<Rightarrow> nat \<Rightarrow> string list \<times> nat" where
  "tracked_logs E w t stream n = (case log_path E w t stream of None \<Rightarrow> ([], 0) | Some p \<Rightarrow> read_tail (we_file E w p) n)"

text \<open>\<open>int(payload.get("tail", 100))\<close>, clamped. \<open>None\<close>: an infinite float raises \<open>OverflowError\<close>, which is not caught.\<close>

definition wanted_tail :: "rcp_message \<Rightarrow> nat option" where
  "wanted_tail m =
     (let clamp = (\<lambda>i. Some (nat (max 0 (min i 10000)))) in
      case map_of (rm_payload m) ''tail'' of
        None \<Rightarrow> clamp 100
      | Some (JInt i) \<Rightarrow> clamp i
      | Some (JBool b) \<Rightarrow> clamp (if b then 1 else 0)
      | Some (JFloat x) \<Rightarrow> (case x of Fin q \<Rightarrow> clamp (if q < 0 then \<lceil>q\<rceil> else \<lfloor>q\<rfloor>) | NaN \<Rightarrow> clamp 100 | _ \<Rightarrow> None)
      | Some (JStr t) \<Rightarrow> clamp (case py_int t of None \<Rightarrow> 100 | Some i \<Rightarrow> i)
      | Some _ \<Rightarrow> clamp 100)"

definition logs_message :: "rcp_message \<Rightarrow> string \<Rightarrow> string \<Rightarrow> string \<Rightarrow> string list \<Rightarrow> nat \<Rightarrow> string option \<Rightarrow> string option
    \<Rightarrow> string \<Rightarrow> string \<Rightarrow> int \<Rightarrow> rcp_message" where
  "logs_message m cmd_id sid stream ls n err code now sim sq =
     build_logs_ack now sim sq cmd_id sid (rm_transport_event_id m) stream ls n err code"

text \<open>What is known of a simulation that is not tracked: failed before any log, still building, or never submitted.\<close>

definition untracked_logs :: "('r, 'w) outside \<Rightarrow> string \<Rightarrow> nat \<Rightarrow> ('r, 'w) client \<Rightarrow> (string list \<times> nat) \<times> string option \<times> string option" where
  "untracked_logs E sid n s = (case List.find (\<lambda>r. pc_sim_id r = Some sid) (rev (map snd (ps_mem (cs_store s)))) of
     None \<Rightarrow> (([], 0), Some ''unknown_sim'', Some ''unknown_sim'')
   | Some r \<Rightarrow>
       (if pc_state r = Some (state_value SimFailed) \<or> pc_error_code r \<noteq> None
        then (([], 0), Some (''the simulation failed before any log was written'' @ (case pc_error r of None \<Rightarrow> '''' | Some e \<Rightarrow> if e = '''' then '''' else '': '' @ e)),
              Some (case pc_error_code r of None \<Rightarrow> state_value SimFailed | Some c \<Rightarrow> or_else c (state_value SimFailed)))
        else (let ls = (case map_of (cs_active_builds s) sid of None \<Rightarrow> [] | Some d \<Rightarrow> we_build_log E (cs_world s) d) in
              if ls \<noteq> [] then ((last_lines n ls, length ls), None, None)
              else (([], 0), Some ''the simulation is still building; no log output captured yet (the build can take 15-20 minutes before the job is submitted)'',
                    Some ''logs_not_available''))))"

definition handle_logs :: "('r, 'w) outside \<Rightarrow> rcp_message \<Rightarrow> ('r, 'w) client \<Rightarrow> rcp_message option \<times> ('r, 'w) client" where
  "handle_logs E m s =
     (let cmd_id = payload_str E m ''cmd_id'' ''''; sid = payload_str E m ''sim_id'' ''''; stream = payload_str E m ''stream'' ''stdout'' in
      case wanted_tail m of
        None \<Rightarrow> (None, s)
      | Some n \<Rightarrow>
          (case (case map_of (cs_tracked s) sid of
                   None \<Rightarrow> untracked_logs E sid n s
                 | Some t \<Rightarrow> (tracked_logs E (cs_world s) t stream n, None, None)) of
             ((ls, total_lines), err, code) \<Rightarrow> map_prod Some id (answer E (logs_message m cmd_id sid stream ls total_lines err code) s)))"

section \<open>Dispatch\<close>

definition m2_commands :: "string list" where
  "m2_commands = map type_value [TSubmit, TStatus, TLogs, TControl, TResult]"

definition dispatch_m2 :: "('r, 'w) outside \<Rightarrow> 'r cluster \<Rightarrow> rcp_message \<Rightarrow> ('r, 'w) client \<Rightarrow> rcp_message option \<times> ('r, 'w) client" where
  "dispatch_m2 E k m s =
     (if rm_type m = type_value TSubmit then map_prod Some id (admit_submit E k m s)
      else if rm_type m = type_value TStatus then map_prod Some id (handle_status E m s)
      else if rm_type m = type_value TControl then admit_control E m s
      else if rm_type m = type_value TResult then map_prod Some id (handle_result E m s)
      else if rm_type m = type_value TLogs then handle_logs E m s
      else map_prod Some id (reject_unsupported E m '''' (rm_type m) s))"

text \<open>\<open>handle\<close> up to where it first waits.\<close>

definition deliver :: "('r, 'w) outside \<Rightarrow> rcp_message \<Rightarrow> ('r, 'w) client \<Rightarrow> rcp_message option \<times> ('r, 'w) client" where
  "deliver E m s = (case accepts E s m of
     (False, s1) \<Rightarrow> (None, s1)
   | (True, s1) \<Rightarrow>
       (let s2 = s1\<lparr>cs_sequences := observe_seq (cs_sequences s1) (rm_sim m) (rm_sender_role m) (rm_seq m)\<rparr> in
        if rm_type m = hello_command_type then admit_hello E m s2
        else if rm_type m \<in> set m2_commands
        then (case cs_config s2 of
            None \<Rightarrow> map_prod Some id (reject_m2 E m ''rejected_by_policy'' ERejected s2)
          | Some k \<Rightarrow> dispatch_m2 E k m s2)
        else map_prod Some id (reject_unsupported E m '''' (rm_type m) s2)))"

section \<open>Tasks\<close>

text \<open>
  What is left of a handler runs in a task of its own. A waiting one runs when its turn comes (a build only when
  the build gate has room), and what it leaves is recorded in a second step; \<open>None\<close> when the task cannot
  take its step now.
\<close>

definition building :: "'r task \<Rightarrow> bool" where
  "building t = (case t of SubmitDone _ _ _ _ _ \<Rightarrow> True | _ \<Rightarrow> False)"

definition remove_nth :: "nat \<Rightarrow> 'a list \<Rightarrow> 'a list" where
  "remove_nth i xs = take i xs @ drop (Suc i) xs"

definition gate_open :: "('r, 'w) client \<Rightarrow> bool" where
  "gate_open s \<longleftrightarrow> int (length (filter building (cs_tasks s))) < cs_build_concurrency s"

definition start_task :: "('r, 'w) outside \<Rightarrow> nat \<Rightarrow> ('r, 'w) client \<Rightarrow> ('r, 'w) client option" where
  "start_task E i s =
     (if i \<ge> length (cs_tasks s) then None
      else let s0 = s\<lparr>cs_tasks := remove_nth i (cs_tasks s)\<rparr> in
        case cs_tasks s ! i of
          HelloWaiting m c \<Rightarrow> (case run_hello E m c s0 of
              (None, s1) \<Rightarrow> Some s1
            | (Some r, s1) \<Rightarrow> Some (add_task (HelloDone m c r) s1))
        | SubmitWaiting c p hash sid \<Rightarrow> (case cs_config s0 of
              None \<Rightarrow> None
            | Some k \<Rightarrow> (if \<not> gate_open s then None
                else case run_submit E k c p sid s0 of (res, s1) \<Rightarrow> Some (add_task (SubmitDone c (pp_submit_system p) hash sid res) s1)))
        | ControlWaiting m sid p t \<Rightarrow> Some (snd (run_control E m sid p t s0))
        | _ \<Rightarrow> None)"

definition finish_task :: "('r, 'w) outside \<Rightarrow> nat \<Rightarrow> ('r, 'w) client \<Rightarrow> ('r, 'w) client option" where
  "finish_task E i s =
     (if i \<ge> length (cs_tasks s) then None
      else let s0 = s\<lparr>cs_tasks := remove_nth i (cs_tasks s)\<rparr> in
        case cs_tasks s ! i of
          HelloDone m c r \<Rightarrow> Some (snd (finish_hello E m c r s0))
        | SubmitDone c sys hash sid res \<Rightarrow> Some (finish_submit E c sys hash sid res s0)
        | _ \<Rightarrow> None)"

section \<open>Start, restart and direct calls\<close>

text \<open>\<open>__init__\<close> for a given message directory: a fresh client that loads the records of the file.\<close>

definition new_client :: "('r, 'w) outside \<Rightarrow> string \<Rightarrow> string \<Rightarrow> string option \<Rightarrow> 'r cluster option \<Rightarrow> string \<Rightarrow> int \<Rightarrow> string \<Rightarrow> 'w \<Rightarrow> ('r, 'w) client" where
  "new_client E sim secret allowed config version concurrency stored w = \<lparr>cs_sim = sim, cs_secret = secret, cs_allowed = allowed, cs_config = config,
     cs_capabilities = current_capabilities version, cs_sequences = [], cs_seen = new_dedup 4096,
     cs_store = \<lparr>ps_mem = load_processed (we_codec E) stored, ps_file = stored\<rparr>, cs_tracked = [], cs_followers = [], cs_poll_interval = 1 / 5,
     cs_poll_max = 300, cs_build_concurrency = concurrency, cs_active_builds = [], cs_control_acks = [], cs_serving = False, cs_tasks = [],
     cs_log = [], cs_world = w\<rparr>"

text \<open>The process dies and a new one starts on the same directory: only the file survives, and the ghost log.\<close>

definition restart :: "('r, 'w) outside \<Rightarrow> ('r, 'w) client \<Rightarrow> ('r, 'w) client" where
  "restart E s = (new_client E (cs_sim s) (cs_secret s) (cs_allowed s) (cs_config s) (cc_client_version (cs_capabilities s))
     (cs_build_concurrency s) (ps_file (cs_store s)) (cs_world s))\<lparr>cs_serving := cs_serving s, cs_poll_interval := cs_poll_interval s,
       cs_poll_max := cs_poll_max s, cs_log := cs_log s\<rparr>"

text \<open>A direct call of \<open>handle\<close> outside \<open>serve\<close>: the task the message leaves runs to its end.\<close>

definition drain :: "('r, 'w) outside \<Rightarrow> ('r, 'w) client \<Rightarrow> ('r, 'w) client" where
  "drain E s = (let i = length (cs_tasks s) - 1 in
     case start_task E i s of None \<Rightarrow> s | Some s1 \<Rightarrow>
       (if length (cs_tasks s1) = length (cs_tasks s) then (case finish_task E i s1 of None \<Rightarrow> s1 | Some s2 \<Rightarrow> s2) else s1))"

definition handle :: "('r, 'w) outside \<Rightarrow> rcp_message \<Rightarrow> ('r, 'w) client \<Rightarrow> ('r, 'w) client" where
  "handle E m s = (let s1 = snd (deliver E m s) in if length (cs_tasks s1) > length (cs_tasks s) then drain E s1 else s1)"


end
