(* ===== verification/SimLedger.thy ===== *)
theory SimLedger
  imports SimStore
begin

text \<open>
  What the client needs of its idempotency store: a command id that was recorded once is still known after any
  further records and any restarts. Not every record has to be readable after a restart. A record whose JSON
  text holds a character that \<open>splitlines\<close> breaks at is lost on load, so the contract only asks that such a line
  is never read as anything else, and that the records written before an execution are readable.
\<close>

section \<open>The contract\<close>

locale ledger =
  fixes look :: "'st \<Rightarrow> 'c \<Rightarrow> 'r option"
    and put :: "'r \<Rightarrow> 'st \<Rightarrow> 'st"
    and reload :: "'st \<Rightarrow> 'st"
    and ident :: "'r \<Rightarrow> 'c"
    and good :: "'st \<Rightarrow> bool"
    and entry :: "'r \<Rightarrow> bool"
    and plain :: "'r \<Rightarrow> bool"
  assumes good_put: "good st \<Longrightarrow> entry r \<Longrightarrow> good (put r st)"
    and good_reload: "good st \<Longrightarrow> good (reload st)"
    and look_put: "good st \<Longrightarrow> entry r \<Longrightarrow> look (put r st) c = (if c = ident r then Some r else look st c)"
    and reload_put: "good st \<Longrightarrow> entry r \<Longrightarrow> look (reload st) c \<noteq> None \<Longrightarrow> look (reload (put r st)) c \<noteq> None"
    and reload_plain: "good st \<Longrightarrow> entry r \<Longrightarrow> plain r \<Longrightarrow> look (reload (put r st)) (ident r) \<noteq> None"
    and reload_again: "reload (reload st) = reload st"
    and look_entry: "good st \<Longrightarrow> look st c = Some r \<Longrightarrow> entry r \<and> ident r = c"
begin

lemma known_put:
  assumes "good st" "entry r" "look st c \<noteq> None \<and> look (reload st) c \<noteq> None"
  shows "look (put r st) c \<noteq> None \<and> look (reload (put r st)) c \<noteq> None"
  using assms look_put [OF assms(1,2)] reload_put [OF assms(1,2)] by auto

lemma known_new:
  assumes "good st" "entry r" "plain r"
  shows "look (put r st) (ident r) \<noteq> None \<and> look (reload (put r st)) (ident r) \<noteq> None"
  using look_put [OF assms(1,2)] reload_plain [OF assms] by simp

lemma known_reload:
  "look (reload st) c \<noteq> None \<Longrightarrow> look (reload st) c \<noteq> None \<and> look (reload (reload st)) c \<noteq> None"
  by (simp add: reload_again)

text \<open>A history of records and restarts (\<open>None\<close>): what is known stays known.\<close>

lemma known_forever:
  assumes "good st" "list_all (\<lambda>op. case op of None \<Rightarrow> True | Some r \<Rightarrow> entry r) ops" "look st c \<noteq> None \<and> look (reload st) c \<noteq> None"
  shows "good (fold (\<lambda>op. case op of None \<Rightarrow> reload | Some r \<Rightarrow> put r) ops st) \<and>
    look (fold (\<lambda>op. case op of None \<Rightarrow> reload | Some r \<Rightarrow> put r) ops st) c \<noteq> None"
  using assms
proof (induction ops arbitrary: st)
  case (Cons op ops)
  show ?case
  proof (cases op)
    case None
    then show ?thesis using Cons.IH [of "reload st"] Cons.prems good_reload known_reload by simp
  next
    case (Some r)
    then show ?thesis using Cons.IH [of "put r st"] Cons.prems good_put known_put [of st r c] by simp
  qed
qed simp

end

section \<open>Reading back lines\<close>

definition safe_line :: "codec \<Rightarrow> processed \<Rightarrow> bool" where
  "safe_line cd r \<longleftrightarrow> list_all (\<lambda>l. py_strip l = '''' \<or> cd_parse cd l = None \<or> cd_parse cd l = Some r) (splitlines (line_of cd r))"

lemma one_line_safe: "one_line cd r \<Longrightarrow> safe_line cd r"
  using splitlines_line [of "cd_dump cd r" "[]"] by (simp add: one_line_def safe_line_def line_of_def)

lemma update_twice: "AList.update k v (AList.update k v d) = AList.update k v d"
  by (induction d) auto

lemma load_safe_lines:
  assumes "list_all (\<lambda>l. py_strip l = '''' \<or> cd_parse cd l = None \<or> cd_parse cd l = Some r) ls"
  shows "fold (load_line cd) ls d \<in> {d, AList.update (pc_cmd_id r) r d}"
  using assms
proof (induction ls arbitrary: d)
  case (Cons l ls)
  then have "load_line cd l d \<in> {d, AList.update (pc_cmd_id r) r d}" by (auto simp: load_line_def)
  then show ?case using Cons.IH [of "load_line cd l d"] Cons.prems by (auto simp: update_twice)
qed simp

lemma load_safe:
  assumes "ends_line f" "safe_line cd r"
  shows "load_processed cd (f @ line_of cd r) \<in> {load_processed cd f, AList.update (pc_cmd_id r) r (load_processed cd f)}"
  using load_safe_lines [OF assms(2) [unfolded safe_line_def], of "load_processed cd f"] splitlines_append [OF assms(1)]
  by (simp add: load_processed_def)

lemma load_processed_distinct: "distinct (keys (load_processed cd f))"
proof -
  have "distinct (keys d) \<Longrightarrow> distinct (keys (fold (load_line cd) ls d))" for ls d
    by (induction ls arbitrary: d) (auto simp: load_line_def distinct_update split: option.splits)
  then show ?thesis by (simp add: load_processed_def)
qed

section \<open>The store keeps the contract\<close>

definition reload_store :: "codec \<Rightarrow> cmd_store \<Rightarrow> cmd_store" where
  "reload_store cd st = st\<lparr>ps_mem := load_processed cd (ps_file st)\<rparr>"

text \<open>Every record is of a known set of command ids, no larger than the store, and meets a condition of the client's.\<close>

definition good_entry :: "string set \<Rightarrow> (processed \<Rightarrow> bool) \<Rightarrow> codec \<Rightarrow> processed \<Rightarrow> bool" where
  "good_entry ids Q cd r \<longleftrightarrow> pc_cmd_id r \<in> ids \<and> Q r \<and> safe_line cd r"

definition good_dict :: "string set \<Rightarrow> (processed \<Rightarrow> bool) \<Rightarrow> codec \<Rightarrow> (string \<times> processed) list \<Rightarrow> bool" where
  "good_dict ids Q cd d \<longleftrightarrow> distinct (keys d) \<and> list_all (\<lambda>(k, r). pc_cmd_id r = k \<and> good_entry ids Q cd r) d"

definition good_store :: "string set \<Rightarrow> (processed \<Rightarrow> bool) \<Rightarrow> codec \<Rightarrow> cmd_store \<Rightarrow> bool" where
  "good_store ids Q cd st \<longleftrightarrow> finite ids \<and> card ids \<le> max_processed \<and> ends_line (ps_file st) \<and>
     good_dict ids Q cd (ps_mem st) \<and> good_dict ids Q cd (load_processed cd (ps_file st))"

lemma good_dict_update: "good_dict ids Q cd d \<Longrightarrow> good_entry ids Q cd r \<Longrightarrow> good_dict ids Q cd (AList.update (pc_cmd_id r) r d)"
  using update_set [of "pc_cmd_id r" r d] by (fastforce simp: good_dict_def distinct_update list_all_iff)

lemma good_dict_length:
  assumes "good_dict ids Q cd d" "finite ids" shows "length d \<le> card ids"
proof -
  have "set (keys d) \<subseteq> ids" using assms(1) by (auto simp: good_dict_def good_entry_def list_all_iff)
  then have "card (set (keys d)) \<le> card ids" by (rule card_mono [OF assms(2)])
  moreover have "card (set (keys d)) = length d" using assms(1) distinct_card [of "keys d"] by (simp add: good_dict_def)
  ultimately show ?thesis by simp
qed

lemma persist_small:
  assumes "good_store ids Q cd st" "good_entry ids Q cd r"
  shows "persist_processed cd Written rw r st = st\<lparr>ps_mem := AList.update (pc_cmd_id r) r (ps_mem st), ps_file := ps_file st @ line_of cd r\<rparr>"
proof -
  have "length (AList.update (pc_cmd_id r) r (ps_mem st)) \<le> max_processed"
    using good_dict_length [OF good_dict_update [OF _ assms(2)]] assms(1) by (fastforce simp: good_store_def)
  then show ?thesis by (simp add: persist_processed_def Let_def)
qed

lemma good_persist:
  assumes "good_store ids Q cd st" "good_entry ids Q cd r"
  shows "good_store ids Q cd (persist_processed cd Written rw r st)"
proof -
  have "load_processed cd (ps_file st @ line_of cd r) \<in> {load_processed cd (ps_file st), AList.update (pc_cmd_id r) r (load_processed cd (ps_file st))}"
    by (rule load_safe) (use assms in \<open>simp_all add: good_store_def good_entry_def\<close>)
  moreover have mem: "good_dict ids Q cd (ps_mem st)" and load: "good_dict ids Q cd (load_processed cd (ps_file st))"
    using assms(1) by (simp_all add: good_store_def)
  ultimately have "good_dict ids Q cd (load_processed cd (ps_file st @ line_of cd r))"
    using good_dict_update [OF load assms(2)] by auto
  moreover have "ends_line (ps_file st @ line_of cd r)" by (simp add: ends_line_def line_of_def)
  ultimately show ?thesis unfolding persist_small [OF assms] using good_dict_update [OF mem assms(2)] assms(1)
    by (simp add: good_store_def)
qed

interpretation store: ledger "\<lambda>st. map_of (ps_mem st)" "persist_processed cd Written rw" "reload_store cd" pc_cmd_id
  "good_store ids Q cd" "good_entry ids Q cd" "one_line cd"
proof (unfold_locales, goal_cases)
  case (1 st r)
  then show ?case by (rule good_persist)
next
  case (2 st)
  then show ?case by (simp add: good_store_def reload_store_def)
next
  case (3 st r c)
  then show ?case by (simp add: persist_small)
next
  case (4 st r c)
  have "load_processed cd (ps_file st @ line_of cd r) \<in> {load_processed cd (ps_file st), AList.update (pc_cmd_id r) r (load_processed cd (ps_file st))}"
    by (rule load_safe) (use 4 in \<open>simp_all add: good_store_def good_entry_def\<close>)
  then show ?case using 4(3) by (auto simp: persist_small [OF 4(1,2)] reload_store_def)
next
  case (5 st r)
  then show ?case using load_append [OF 5(3), of "ps_file st"] by (simp add: persist_small [OF 5(1,2)] reload_store_def good_store_def)
next
  case (6 st)
  then show ?case by (simp add: reload_store_def)
next
  case (7 st c r)
  then show ?case by (auto simp: good_store_def good_dict_def list_all_iff dest: map_of_SomeD)
qed

end
