(* ===== verification/SimServe.thy ===== *)
theory SimServe
  imports SimHandlers SimLedger "HOL-Library.Multiset"
begin

text \<open>
  Serving: messages arrive in any order and any number of times, the tasks they leave run interleaved, the
  process may die and restart at any moment. The transitions are the handlers of the client; the invariant is
  that a command id is executed at most once, however often its command is delivered.
\<close>

section \<open>The transition relation\<close>

inductive serve_step :: "('r, 'w) outside \<Rightarrow> rcp_message set \<Rightarrow> ('r, 'w) client \<Rightarrow> ('r, 'w) client \<Rightarrow> bool"
  for E :: "('r, 'w) outside" and M :: "rcp_message set" where
  receives: "m \<in> M \<Longrightarrow> serve_step E M s (snd (deliver E m s))"
| begins: "start_task E i s = Some t \<Longrightarrow> serve_step E M s t"
| ends: "finish_task E i s = Some t \<Longrightarrow> serve_step E M s t"
| watches: "serve_step E M s (follow_step E sid p s)"
| restarts: "serve_step E M s (restart E s)"

inductive served :: "('r, 'w) outside \<Rightarrow> rcp_message set \<Rightarrow> ('r, 'w) client \<Rightarrow> ('r, 'w) client \<Rightarrow> bool"
  for E :: "('r, 'w) outside" and M :: "rcp_message set" and s0 :: "('r, 'w) client" where
  served_start: "served E M s0 s0"
| served_step: "served E M s0 s \<Longrightarrow> serve_step E M s t \<Longrightarrow> served E M s0 t"



section \<open>What an execution is\<close>

definition is_run :: "effect \<Rightarrow> bool" where
  "is_run e = (case e of RanHello _ \<Rightarrow> True | RanSubmit _ \<Rightarrow> True | _ \<Rightarrow> False)"

definition owed :: "'r task \<Rightarrow> effect list" where
  "owed t = (case t of HelloWaiting m c \<Rightarrow> [RanHello c] | SubmitWaiting c p h sid \<Rightarrow> [RanSubmit c] | _ \<Rightarrow> [])"

text \<open>Executions that happened and those a waiting task will perform.\<close>

definition commits :: "'r task list \<Rightarrow> effect list \<Rightarrow> effect multiset" where
  "commits ts runs = mset runs + mset (concat (map owed ts))"

definition core :: "('r, 'w) client \<Rightarrow> cmd_store \<times> 'r task list \<times> effect list" where
  "core s = (cs_store s, cs_tasks s, filter is_run (cs_log s))"

lemma is_run_simps [simp]: "\<not> is_run (Sent m)" "is_run (RanHello c)" "is_run (RanSubmit c)" "\<not> is_run (Controlled p t)"
  by (simp_all add: is_run_def)

lemma owed_simps [simp]: "owed (HelloWaiting m c) = [RanHello c]" "owed (SubmitWaiting c p h sid) = [RanSubmit c]"
  "owed (HelloDone m c r) = []" "owed (SubmitDone c sys h sid res) = []" "owed (ControlWaiting m sid p' t) = []"
  by (simp_all add: owed_def)

text \<open>Most of what a handler does leaves the core alone: it sends, reads, and takes sequence numbers.\<close>

named_theorems quiet \<open>operations that leave the store, the tasks and the executions alone\<close>

lemma core_updates [quiet, simp]:
  "core (s\<lparr>cs_world := w\<rparr>) = core s" "core (s\<lparr>cs_sequences := sq\<rparr>) = core s" "core (s\<lparr>cs_seen := d\<rparr>) = core s"
  "core (s\<lparr>cs_control_acks := c\<rparr>) = core s" "core (s\<lparr>cs_active_builds := b\<rparr>) = core s" "core (s\<lparr>cs_tracked := tr\<rparr>) = core s"
  "core (s\<lparr>cs_followers := fs\<rparr>) = core s" "core (s\<lparr>cs_tracked := tr, cs_followers := fs\<rparr>) = core s"
  by (simp_all add: core_def)

lemma core_log [simp]: "core (log_effect e s) = (cs_store s, cs_tasks s, filter is_run (cs_log s) @ (if is_run e then [e] else []))"
  by (simp add: core_def log_effect_def)

lemma core_quiet_log [quiet, simp]: "\<not> is_run e \<Longrightarrow> core (log_effect e s) = core s"
  by (simp add: core_def log_effect_def)

lemma core_build_signed [quiet, simp]: "core (snd (build_signed E f s)) = core s"
  by (simp add: build_signed_def Let_def split_beta)

lemma core_answer [quiet, simp]: "core (snd (answer E f s)) = core s"
  by (simp add: answer_def split_beta Let_def del: core_log)

lemma core_emit [quiet, simp]: "core (emit_event E c sid e s) = core s"
  by (simp add: emit_event_def split_beta split: prod.split)

lemma core_emit_all [quiet, simp]: "core (emit_all E c sid es s) = core s"
  by (induction es arbitrary: s) (simp_all add: emit_all_def)

lemma core_accepts [quiet, simp]: "core (snd (accepts E s m)) = core s"
  by (simp add: accepts_def split_beta Let_def split: prod.split)

lemma core_rejects [quiet, simp]:
  "core (snd (reject_pull E m err c s)) = core s" "core (snd (reject_submit E m err c sid cid s)) = core s"
  "core (snd (reject_unsupported E m op ty s)) = core s"
  by (simp_all add: reject_pull_def reject_submit_def reject_unsupported_def Let_def)

lemma core_reject_m2 [quiet, simp]: "core (snd (reject_m2 E m err c s)) = core s"
  by (simp add: reject_m2_def)

lemma core_status [quiet, simp]: "core (snd (handle_status E m s)) = core s"
  by (simp add: handle_status_def status_of_def Let_def split_beta split: option.split sum.split prod.split)

lemma core_result [quiet, simp]: "core (snd (handle_result E m s)) = core s"
  by (simp add: handle_result_def Let_def split_beta split: option.split)

lemma core_logs [quiet, simp]: "core (snd (handle_logs E m s)) = core s"
  by (simp add: handle_logs_def Let_def split_beta split: option.split)

lemma core_control_ack [quiet, simp]: "core (snd (send_control_ack E m sid p ok f s)) = core s"
  by (simp add: send_control_ack_def Let_def split_beta)

lemma core_live_state [quiet, simp]: "core (snd (live_job_state E t s)) = core s"
  by (simp add: live_job_state_def split_beta split: option.split sum.split prod.split)

lemma core_parse_control [quiet, simp]: "core (snd (parse_control_or_reject E m s)) = core s"
  by (simp add: parse_control_or_reject_def Let_def split_beta split: option.split)

lemma core_run_control [quiet, simp]: "core (snd (run_control E m sid p t s)) = core s"
  by (simp add: run_control_def Let_def split_beta del: core_log split: option.split sum.split prod.split)

lemma core_follow [quiet, simp]: "core (follow_step E sid p s) = core s"
  by (simp add: follow_step_def Let_def split_beta split: option.split prod.split)

lemma core_follower [quiet, simp]: "core (start_follower c out sys s) = core s"
  by (simp add: start_follower_def Let_def)

lemma core_add_task [simp]: "core (add_task t s) = (case core s of (st, ts, rs) \<Rightarrow> (st, ts @ [t], rs))"
  by (simp add: core_def add_task_def)

lemma core_drop_task [simp]: "core (s\<lparr>cs_tasks := ts\<rparr>) = (cs_store s, ts, filter is_run (cs_log s))"
  by (simp add: core_def)

section \<open>The invariant\<close>

text \<open>
  The assumptions: hello commands use ids of \<open>H\<close>, submissions ids of \<open>S\<close> and a payload hash, no more of them than
  the store holds; writes succeed; a record's line is never read as another record, and the record written before
  an execution is read back.
\<close>

definition reliable :: "('r, 'w) outside \<Rightarrow> string set \<Rightarrow> string set \<Rightarrow> bool" where
  "reliable E H S \<longleftrightarrow> finite (H \<union> S) \<and> card (H \<union> S) \<le> max_processed \<and> H \<inter> S = {} \<and> (\<forall>w. fst (we_append E w) = Written) \<and>
     (\<forall>r. pc_cmd_id r \<in> H \<union> S \<longrightarrow> safe_line (we_codec E) r)"

definition well_sent :: "('r, 'w) outside \<Rightarrow> string set \<Rightarrow> string set \<Rightarrow> rcp_message \<Rightarrow> bool" where
  "well_sent E H S m \<longleftrightarrow>
     (let c = payload_str E m ''cmd_id'' ''''; h = get_str (we_lib E) (header_of m) ''payload_hash'' '''' in
      (rm_type m = hello_command_type \<and> c \<noteq> '''' \<longrightarrow> c \<in> H \<and> one_line (we_codec E) (new_record c)) \<and>
      (rm_type m = type_value TSubmit \<and> c \<noteq> '''' \<longrightarrow> c \<in> S \<and> h \<noteq> '''' \<and>
         one_line (we_codec E) (submit_record c h (get_str (we_lib E) (header_of m) ''sim_id'' ''''))))"

definition hashed :: "string set \<Rightarrow> processed \<Rightarrow> bool" where
  "hashed S r \<longleftrightarrow> (pc_cmd_id r \<in> S \<longrightarrow> truthy (pc_payload_hash r))"

definition task_ok :: "string set \<Rightarrow> string set \<Rightarrow> 'r task \<Rightarrow> bool" where
  "task_ok H S t = (case t of
     HelloWaiting m c \<Rightarrow> c \<noteq> '''' \<longrightarrow> c \<in> H
   | HelloDone m c r \<Rightarrow> c \<noteq> '''' \<longrightarrow> c \<in> H
   | SubmitWaiting c p h sid \<Rightarrow> c \<noteq> '''' \<longrightarrow> c \<in> S \<and> h \<noteq> ''''
   | SubmitDone c sys h sid res \<Rightarrow> c \<noteq> '''' \<longrightarrow> c \<in> S \<and> h \<noteq> ''''
   | ControlWaiting m sid p t \<Rightarrow> True)"

definition known :: "codec \<Rightarrow> cmd_store \<Rightarrow> string \<Rightarrow> bool" where
  "known cd st c \<longleftrightarrow> map_of (ps_mem st) c \<noteq> None \<and> map_of (ps_mem (reload_store cd st)) c \<noteq> None"

definition once :: "codec \<Rightarrow> cmd_store \<Rightarrow> effect multiset \<Rightarrow> bool" where
  "once cd st es \<longleftrightarrow> (\<forall>c e. c \<noteq> '''' \<and> e \<in> {RanHello c, RanSubmit c} \<and> e \<in># es \<longrightarrow> count es e = 1 \<and> known cd st c)"

fun once_inv :: "codec \<Rightarrow> string set \<Rightarrow> string set \<Rightarrow> cmd_store \<times> 'r task list \<times> effect list \<Rightarrow> bool" where
  "once_inv cd H S (st, ts, rs) \<longleftrightarrow> good_store (H \<union> S) (hashed S) cd st \<and> list_all (task_ok H S) ts \<and> once cd st (commits ts rs)"

lemma good_entry_hello: "reliable E H S \<Longrightarrow> pc_cmd_id r \<in> H \<Longrightarrow> good_entry (H \<union> S) (hashed S) (we_codec E) r"
  by (auto simp: reliable_def good_entry_def hashed_def)

lemma good_entry_submit: "reliable E H S \<Longrightarrow> pc_cmd_id r \<in> S \<Longrightarrow> truthy (pc_payload_hash r) \<Longrightarrow> good_entry (H \<union> S) (hashed S) (we_codec E) r"
  by (auto simp: reliable_def good_entry_def hashed_def)

lemma core_persist:
  assumes "reliable E H S"
  shows "\<exists>rw. core (persist E r s) = (persist_processed (we_codec E) Written rw r (cs_store s), cs_tasks s, filter is_run (cs_log s))"
proof -
  obtain wo w1 where 1: "we_append E (cs_world s) = (wo, w1)" by fastforce
  obtain rw w2 where 2: "we_rewrite E w1 = (rw, w2)" by fastforce
  have "wo = Written" using assms 1 by (metis fst_conv reliable_def)
  then show ?thesis using 1 2 by (auto simp: persist_def core_def)
qed

text \<open>Recording keeps the invariant, and makes a readable record's id known.\<close>

lemma inv_persist:
  assumes "reliable E H S" "once_inv (we_codec E) H S (core s)" "good_entry (H \<union> S) (hashed S) (we_codec E) r"
  shows "once_inv (we_codec E) H S (core (persist E r s)) \<and> snd (core (persist E r s)) = snd (core s) \<and>
    (one_line (we_codec E) r \<longrightarrow> known (we_codec E) (fst (core (persist E r s))) (pc_cmd_id r))"
proof -
  obtain rw where c: "core (persist E r s) = (persist_processed (we_codec E) Written rw r (cs_store s), cs_tasks s, filter is_run (cs_log s))"
    using core_persist [OF assms(1)] by blast
  have good: "good_store (H \<union> S) (hashed S) (we_codec E) (cs_store s)" using assms(2) by (simp add: core_def)
  let ?st = "persist_processed (we_codec E) Written rw r (cs_store s)"
  have kept: "known (we_codec E) (cs_store s) k \<Longrightarrow> known (we_codec E) ?st k" for k
    unfolding known_def by (rule store.known_put [OF good assms(3)])
  have new: "one_line (we_codec E) r \<Longrightarrow> known (we_codec E) ?st (pc_cmd_id r)"
    unfolding known_def by (rule store.known_new [OF good assms(3)])
  have "once (we_codec E) (cs_store s) (commits (cs_tasks s) (filter is_run (cs_log s)))" "list_all (task_ok H S) (cs_tasks s)"
    using assms(2) by (simp_all add: core_def)
  then have "once_inv (we_codec E) H S (core (persist E r s))"
    using kept store.good_put [OF good assms(3)] unfolding c once_def once_inv.simps by blast
  then show ?thesis using new unfolding c by (simp add: core_def [of s])
qed

text \<open>A new task for an id that is known and not yet committed.\<close>

lemma inv_commit:
  assumes "once_inv cd H S (st, ts, rs)" "task_ok H S t" "owed t = [e]" "e \<in> {RanHello c, RanSubmit c}"
    "c \<noteq> '''' \<Longrightarrow> known cd st c \<and> e \<notin># commits ts rs"
  shows "once_inv cd H S (st, ts @ [t], rs)"
proof -
  have "commits (ts @ [t]) rs = add_mset e (commits ts rs)" using assms(3) by (simp add: commits_def)
  moreover have "once cd st (add_mset e (commits ts rs))"
    using assms(1,4,5) by (auto simp: once_def not_in_iff split: if_splits)
  ultimately show ?thesis using assms(1,2) by simp
qed

lemma inv_quiet_task: "once_inv cd H S (st, ts, rs) \<Longrightarrow> task_ok H S t \<Longrightarrow> owed t = [] \<Longrightarrow> once_inv cd H S (st, ts @ [t], rs)"
  by (simp add: commits_def)

lemma commits_remove:
  "i < length ts \<Longrightarrow> commits ts rs = commits (remove_nth i ts) rs + mset (owed (ts ! i))"
proof -
  assume "i < length ts"
  then have "concat (map owed ts) = concat (map owed (take i ts)) @ owed (ts ! i) @ concat (map owed (drop (Suc i) ts))"
    by (metis concat.simps(2) concat_append id_take_nth_drop list.simps(9) map_append)
  then show ?thesis by (simp add: commits_def remove_nth_def)
qed

lemma once_mono: "once cd st es \<Longrightarrow> es' \<subseteq># es \<Longrightarrow> once cd st es'"
proof -
  assume o: "once cd st es" and sub: "es' \<subseteq># es"
  have "count es' e = 1" if "e \<in># es'" "count es e = 1" for e
    using that mset_subset_eq_count [OF sub, of e] count_greater_zero_iff [of es' e] by linarith
  then show ?thesis using o mset_subset_eqD [OF sub] by (fastforce simp: once_def)
qed

text \<open>A task that runs moves from the tasks to the log.\<close>

lemma inv_ran:
  assumes "once_inv cd H S (st, ts, rs)" "i < length ts"
  shows "once_inv cd H S (st, remove_nth i ts, rs @ owed (ts ! i)) \<and> once_inv cd H S (st, remove_nth i ts, rs) \<and> task_ok H S (ts ! i)"
proof -
  have all: "list_all (task_ok H S) (remove_nth i ts)" "task_ok H S (ts ! i)"
    using assms by (auto simp: remove_nth_def list_all_iff dest: in_set_takeD in_set_dropD)
  have "commits (remove_nth i ts) (rs @ owed (ts ! i)) = commits ts rs"
    using commits_remove [OF assms(2), of rs] by (simp add: commits_def ac_simps)
  moreover have "once cd st (commits (remove_nth i ts) rs)"
    by (rule once_mono [of cd st "commits ts rs"]) (use assms commits_remove [OF assms(2), of rs] in simp_all)
  ultimately show ?thesis using assms(1) all by simp
qed


section \<open>Every transition keeps it\<close>

abbreviation inv_of :: "('r, 'w) outside \<Rightarrow> string set \<Rightarrow> string set \<Rightarrow> ('r, 'w) client \<Rightarrow> bool" where
  "inv_of E H S s \<equiv> once_inv (we_codec E) H S (core s)"

lemma unknown_uncommitted:
  assumes "once_inv cd H S (st, ts, rs)" "map_of (ps_mem st) c = None" "c \<noteq> ''''" "e \<in> {RanHello c, RanSubmit c}"
  shows "e \<notin># commits ts rs"
proof
  assume "e \<in># commits ts rs"
  then have "known cd st c" using assms unfolding once_inv.simps once_def by blast
  then show False using assms(2) by (simp add: known_def)
qed

lemma inv_hello:
  assumes "reliable E H S" "inv_of E H S s" "well_sent E H S m" "rm_type m = hello_command_type"
  shows "inv_of E H S (snd (admit_hello E m s))"
proof -
  define c where "c = payload_str E m ''cmd_id'' ''''"
  show ?thesis
  proof (cases "c \<noteq> '''' \<and> record_of s c \<noteq> None")
    case True
    then show ?thesis using assms(2) by (auto simp: admit_hello_def c_def [symmetric] Let_def split_beta)
  next
    case False
    then have adm: "snd (admit_hello E m s) = add_task (HelloWaiting m c) (if c \<noteq> '''' then persist E (new_record c) s else s)"
      by (auto simp: admit_hello_def c_def [symmetric] Let_def)
    show ?thesis
    proof (cases "c = ''''")
      case True
      then show ?thesis using inv_commit [of _ H S "cs_store s" "cs_tasks s" _ "HelloWaiting m c" "RanHello c" c] assms(2)
        unfolding adm by (simp add: core_def [of s] task_ok_def)
    next
      case c: False
      have H: "c \<in> H" "one_line (we_codec E) (new_record c)"
        using assms(3,4) c by (simp_all add: well_sent_def c_def Let_def)
      note p = inv_persist [OF assms(1,2) good_entry_hello [OF assms(1)], of "new_record c"]
      have un: "RanHello c \<notin># commits (cs_tasks s) (filter is_run (cs_log s))"
        by (rule unknown_uncommitted [of "we_codec E" H S "cs_store s"]) (use assms(2) False c in \<open>simp_all add: core_def record_of_def\<close>)
      obtain st where st: "core (persist E (new_record c) s) = (st, cs_tasks s, filter is_run (cs_log s))"
        using p H by (cases "core (persist E (new_record c) s)") (simp add: core_def [of s])
      have "once_inv (we_codec E) H S (st, cs_tasks s @ [HelloWaiting m c], filter is_run (cs_log s))"
        by (rule inv_commit [where c = c and e = "RanHello c"]) (use p H st un in \<open>simp_all add: task_ok_def core_def [of s]\<close>)
      then show ?thesis unfolding adm using c st by simp
    qed
  qed
qed

lemma inv_prepare:
  assumes "reliable E H S" "inv_of E H S s" "c \<noteq> '''' \<Longrightarrow> c \<in> S \<and> h \<noteq> ''''" "prepare_or_reject E k m h c sid s = (res, s1)"
  shows "inv_of E H S s1 \<and> snd (core s1) = snd (core s) \<and> (\<forall>p. res = Inr p \<longrightarrow> s1 = s)"
proof -
  have fail: "inv_of E H S (persist E (failed_record c h sid e) s0) \<and> snd (core (persist E (failed_record c h sid e) s0)) = snd (core s0)"
    if "core s0 = core s" "c \<noteq> ''''" for e s0
    using inv_persist [OF assms(1) _ good_entry_submit [OF assms(1)], of s0 "failed_record c h sid e"] assms(2,3) that
    by (simp add: truthy_def)
  show ?thesis
    using assms(2,4) fail
    by (auto simp: prepare_or_reject_def Let_def split_beta core_quiet_log simp del: core_log
        split: option.splits json.splits sum.splits if_splits)
qed


text \<open>An id that is known, of a submission with a payload hash, is answered and never executed again.\<close>

lemma hashed_replays:
  assumes "truthy (pc_payload_hash r)" "h \<noteq> ''''"
  shows "submit_replay m r c sid h \<noteq> None"
  using assms by (auto simp: submit_replay_def truthy_iff)

lemma stored_hash:
  assumes "good_store ids (hashed S) cd st" "map_of (ps_mem st) c = Some r" "c \<in> S"
  shows "truthy (pc_payload_hash r)"
  using store.look_entry [OF assms(1,2)] assms(3) by (simp add: good_entry_def hashed_def)

lemma inv_submit:
  assumes "reliable E H S" "inv_of E H S s" "well_sent E H S m" "rm_type m = type_value TSubmit"
  shows "inv_of E H S (snd (admit_submit E k m s))"
proof -
  define c where "c = payload_str E m ''cmd_id'' ''''"
  define h where "h = get_str (we_lib E) (header_of m) ''payload_hash'' ''''"
  define sid where "sid = get_str (we_lib E) (header_of m) ''sim_id'' ''''"
  define s1 where "s1 = (if c \<noteq> '''' then persist E (submit_record c h sid) s else s)"
  have sent: "c \<noteq> '''' \<Longrightarrow> c \<in> S \<and> h \<noteq> '''' \<and> one_line (we_codec E) (submit_record c h sid)"
    using assms(3,4) by (simp add: well_sent_def c_def h_def sid_def Let_def)
  define replay where "replay = (case (if c \<noteq> '''' then record_of s c else None) of None \<Rightarrow> None | Some r \<Rightarrow> submit_replay m r c sid h)"
  show ?thesis
  proof (cases replay)
    case (Some f)
    then have "admit_submit E k m s = answer E f s" unfolding replay_def
      by (simp add: admit_submit_def Let_def c_def [symmetric] h_def [symmetric] sid_def [symmetric])
    then show ?thesis using assms(2) by simp
  next
    case None
    have unknown: "map_of (ps_mem (cs_store s)) c = None" if "c \<noteq> ''''"
    proof (rule ccontr)
      assume "map_of (ps_mem (cs_store s)) c \<noteq> None"
      then obtain r where r: "map_of (ps_mem (cs_store s)) c = Some r" by blast
      have "truthy (pc_payload_hash r)" by (rule stored_hash [of "H \<union> S" S "we_codec E"]) (use assms(2) r sent that in \<open>auto simp: core_def\<close>)
      then show False using None that r hashed_replays [of r h m c sid] sent by (simp add: replay_def record_of_def)
    qed
    have s1: "inv_of E H S s1 \<and> snd (core s1) = snd (core s) \<and> (c \<noteq> '''' \<longrightarrow> known (we_codec E) (fst (core s1)) c)"
      using inv_persist [OF assms(1,2) good_entry_submit [OF assms(1)], of "submit_record c h sid"] assms(2) sent
      by (simp add: s1_def truthy_def)
    obtain res s2 where pr: "prepare_or_reject E k m h c sid s1 = (res, s2)" by fastforce
    have adm: "snd (admit_submit E k m s) = (case res of Inl a \<Rightarrow> s2 | Inr p \<Rightarrow>
        let sid' = payload_sim_id (we_lib E) (pp_payload p)
        in add_task (SubmitWaiting c p h sid') (snd (answer E (submit_answer m c sid' SimAccepted None None None) s2)))"
      using None pr unfolding replay_def
      by (simp add: admit_submit_def Let_def c_def [symmetric] h_def [symmetric] sid_def [symmetric] s1_def [symmetric] split_beta split: sum.split)
    have s2: "inv_of E H S s2 \<and> (\<forall>p. res = Inr p \<longrightarrow> s2 = s1)"
      using inv_prepare [OF assms(1) _ _ pr] s1 sent by blast
    show ?thesis
    proof (cases res)
      case (Inl a)
      then show ?thesis using s2 adm by simp
    next
      case (Inr p)
      then have "s2 = s1" using s2 by simp
      obtain st where st: "core s1 = (st, cs_tasks s, filter is_run (cs_log s))" using s1 by (cases "core s1") (simp add: core_def [of s])
      have "once_inv (we_codec E) H S (st, cs_tasks s @ [SubmitWaiting c p h (payload_sim_id (we_lib E) (pp_payload p))], filter is_run (cs_log s))"
      proof (rule inv_commit [where c = c and e = "RanSubmit c"])
        assume "c \<noteq> ''''"
        moreover have "RanSubmit c \<notin># commits (cs_tasks s) (filter is_run (cs_log s))" if "c \<noteq> ''''"
          by (rule unknown_uncommitted [of "we_codec E" H S "cs_store s"]) (use assms(2) unknown that in \<open>simp_all add: core_def\<close>)
        ultimately show "known (we_codec E) st c \<and> RanSubmit c \<notin># commits (cs_tasks s) (filter is_run (cs_log s))"
          using s1 st by simp
      qed (use s1 st sent in \<open>simp_all add: task_ok_def core_def [of s] del: once_inv.simps\<close>)
      then show ?thesis using adm Inr \<open>s2 = s1\<close> st by (simp add: Let_def)
    qed
  qed
qed

lemma inv_control: "inv_of E H S s \<Longrightarrow> inv_of E H S (snd (admit_control E m s))"
proof -
  assume inv: "inv_of E H S s"
  obtain res s1 where p: "parse_control_or_reject E m s = (res, s1)" by fastforce
  have "core s1 = core s" using core_parse_control [of E m s] p by simp
  moreover have "once_inv (we_codec E) H S (case core s of (st, ts, rs) \<Rightarrow> (st, ts @ [ControlWaiting m sid q t], rs))" for sid q t
    using inv_quiet_task [of "we_codec E" H S "fst (core s)" "fst (snd (core s))" "snd (snd (core s))" "ControlWaiting m sid q t"] inv
    by (simp add: task_ok_def split_beta)
  ultimately show ?thesis using inv
    by (simp add: admit_control_def p Let_def del: core_log once_inv.simps split: sum.split prod.split option.split)
qed

lemma type_values: "hello_command_type \<noteq> type_value TSubmit" "distinct m2_commands" "hello_command_type \<notin> set m2_commands"
  by (simp_all add: hello_command_type_def m2_commands_def)

lemma inv_deliver:
  assumes "reliable E H S" "inv_of E H S s" "well_sent E H S m"
  shows "inv_of E H S (snd (deliver E m s))"
proof -
  obtain b s1 where a: "accepts E s m = (b, s1)" by fastforce
  let ?s2 = "s1\<lparr>cs_sequences := observe_seq (cs_sequences s1) (rm_sim m) (rm_sender_role m) (rm_seq m)\<rparr>"
  have "core s1 = core s" using core_accepts [of E s m] a by simp
  then have inv: "inv_of E H S s1" "inv_of E H S ?s2" using assms(2) by simp_all
  have disp: "inv_of E H S (snd (dispatch_m2 E k m ?s2))" for k
    using inv inv_submit [OF assms(1) inv(2) assms(3), of k] inv_control [OF inv(2), of m] by (simp add: dispatch_m2_def)
  show ?thesis using inv disp inv_hello [OF assms(1) inv(2) assms(3)]
    by (cases b) (simp_all add: deliver_def a Let_def del: once_inv.simps split: option.split)
qed


lemma inv_start:
  assumes "inv_of E H S s" "start_task E i s = Some t"
  shows "inv_of E H S t"
proof -
  let ?s0 = "s\<lparr>cs_tasks := remove_nth i (cs_tasks s)\<rparr>"
  have i: "i < length (cs_tasks s)" using assms(2) by (auto simp: start_task_def split: if_splits)
  note r = inv_ran [OF assms(1) [unfolded core_def [of s]] i]
  show ?thesis
  proof (cases "cs_tasks s ! i")
    case (HelloWaiting m c)
    obtain res s1 where run: "run_hello E m c ?s0 = (res, s1)" by fastforce
    then have c1: "core s1 = (cs_store s, remove_nth i (cs_tasks s), filter is_run (cs_log s) @ owed (cs_tasks s ! i))"
      by (auto simp: run_hello_def HelloWaiting core_def log_effect_def split: prod.splits)
    have t: "t = (case res of None \<Rightarrow> s1 | Some r \<Rightarrow> add_task (HelloDone m c r) s1)"
      using assms(2) i run by (auto simp: start_task_def HelloWaiting split: option.splits)
    have "once_inv (we_codec E) H S (cs_store s, remove_nth i (cs_tasks s) @ [HelloDone m c r'], filter is_run (cs_log s) @ owed (cs_tasks s ! i))" for r'
      by (rule inv_quiet_task) (use r HelloWaiting in \<open>simp_all add: task_ok_def del: once_inv.simps\<close>)
    then show ?thesis using r c1 unfolding t by (simp del: once_inv.simps split: option.split)
  next
    case (SubmitWaiting c p h sid)
    obtain k where k: "cs_config s = Some k" using assms(2) i by (cases "cs_config s") (simp_all add: start_task_def SubmitWaiting)
    obtain res s1 where run: "run_submit E k c p sid ?s0 = (res, s1)" by fastforce
    then have c1: "core s1 = (cs_store s, remove_nth i (cs_tasks s), filter is_run (cs_log s) @ owed (cs_tasks s ! i))"
      using core_emit_all [of E c sid] by (auto simp: run_submit_def SubmitWaiting Let_def split: prod.splits)
    have t: "t = add_task (SubmitDone c (pp_submit_system p) h sid res) s1"
      using assms(2) i run k by (simp add: start_task_def SubmitWaiting split: if_splits)
    have "once_inv (we_codec E) H S (cs_store s, remove_nth i (cs_tasks s) @ [SubmitDone c (pp_submit_system p) h sid res],
        filter is_run (cs_log s) @ owed (cs_tasks s ! i))"
      by (rule inv_quiet_task) (use r SubmitWaiting in \<open>simp_all add: task_ok_def del: once_inv.simps\<close>)
    then show ?thesis using c1 unfolding t by (simp del: once_inv.simps)
  next
    case (ControlWaiting m sid p tr)
    then have "t = snd (run_control E m sid p tr ?s0)" using assms(2) i by (simp add: start_task_def)
    then show ?thesis using r by simp
  qed (use assms(2) i in \<open>simp_all add: start_task_def\<close>)
qed

lemma inv_finish:
  assumes "reliable E H S" "inv_of E H S s" "finish_task E i s = Some t"
  shows "inv_of E H S t"
proof -
  let ?s0 = "s\<lparr>cs_tasks := remove_nth i (cs_tasks s)\<rparr>"
  have i: "i < length (cs_tasks s)" using assms(3) by (auto simp: finish_task_def split: if_splits)
  note r = inv_ran [OF assms(2) [unfolded core_def [of s]] i]
  have s0: "inv_of E H S ?s0" using r by simp
  note hello = inv_persist [OF assms(1) _ good_entry_hello [OF assms(1)], THEN conjunct1]
  note submit = inv_persist [OF assms(1) _ good_entry_submit [OF assms(1)], THEN conjunct1]
  show ?thesis
  proof (cases "cs_tasks s ! i")
    case (HelloDone m c r')
    then have t: "t = snd (finish_hello E m c r' ?s0)" and ok: "c \<noteq> '''' \<Longrightarrow> c \<in> H"
      using assms(3) i r by (simp_all add: finish_task_def task_ok_def)
    show ?thesis using s0 ok unfolding t finish_hello_def
      by (auto simp: Let_def split_beta simp del: core_log once_inv.simps core_drop_task intro!: hello)
  next
    case (SubmitDone c sys h sid res)
    then have t: "t = finish_submit E c sys h sid res ?s0" and ok: "c \<noteq> '''' \<Longrightarrow> c \<in> S \<and> h \<noteq> ''''"
      using assms(3) i r by (simp_all add: finish_task_def task_ok_def)
    show ?thesis using s0 ok unfolding t finish_submit_def
      by (cases res) (auto simp: Let_def truthy_def simp del: core_log once_inv.simps core_drop_task intro!: submit)
  qed (use assms(3) i in \<open>simp_all add: finish_task_def\<close>)
qed

lemma inv_restart:
  assumes "inv_of E H S s" shows "inv_of E H S (restart E s)"
proof -
  let ?st = "cs_store s" and ?rs = "filter is_run (cs_log s)"
  have core: "core (restart E s) = (reload_store (we_codec E) ?st, [], ?rs)"
    by (simp add: core_def restart_def new_client_def reload_store_def)
  have "once (we_codec E) ?st (mset ?rs)"
    by (rule once_mono [of _ _ "commits (cs_tasks s) ?rs"]) (use assms in \<open>simp_all add: core_def [of s] commits_def\<close>)
  then have "once (we_codec E) (reload_store (we_codec E) ?st) (mset ?rs)"
    unfolding once_def known_def by (meson store.known_reload)
  then show ?thesis using assms store.good_reload [of "H \<union> S" "hashed S" "we_codec E" ?st] unfolding core
    by (simp add: core_def [of s] commits_def)
qed

lemma inv_step:
  assumes "reliable E H S" "\<forall>m \<in> M. well_sent E H S m" "serve_step E M s t" "inv_of E H S s"
  shows "inv_of E H S t"
  using assms(3)
proof cases
  case (receives m)
  then show ?thesis using inv_deliver [OF assms(1,4)] assms(2) by blast
next
  case (begins i)
  then show ?thesis using inv_start [OF assms(4)] by blast
next
  case (ends i)
  then show ?thesis using inv_finish [OF assms(1,4)] by blast
next
  case (watches sid p)
  then show ?thesis using assms(4) by simp
next
  case restarts
  then show ?thesis using inv_restart [OF assms(4)] by simp
qed

lemma inv_served:
  assumes "served E M s0 s" "reliable E H S" "\<forall>m \<in> M. well_sent E H S m" "inv_of E H S s0"
  shows "inv_of E H S s"
  using assms(1)
proof induction
  case served_start
  then show ?case by (rule assms(4))
next
  case (served_step s t)
  then show ?case using inv_step [OF assms(2,3)] by blast
qed

lemma inv_new:
  assumes "reliable E H S"
  shows "inv_of E H S (new_client E sim secret allowed config version n '''' w)"
proof -
  have "load_processed (we_codec E) '''' = []" by (simp add: load_processed_def)
  then show ?thesis using assms
    by (simp add: core_def new_client_def once_def commits_def good_store_def good_dict_def ends_line_def reliable_def)
qed


end
