(* ===== verification/SimServeFacts.thy ===== *)
theory SimServeFacts
  imports SimServe
begin

text \<open>
  What serving guarantees, on the transition relation of \<open>SimServe\<close>: execution at most once, answers from the
  record after a restart, replayed control acks, the exactness of a log tail; and where the guarantees end.
\<close>

section \<open>A concrete client\<close>

text \<open>A codec that knows the records of a list: it has the laws the contract of the store asks for.\<close>

definition table_codec :: "processed list \<Rightarrow> codec" where
  "table_codec rs = \<lparr>cd_dump = (\<lambda>r. if r \<in> set rs then replicate (Suc (length (takeWhile (\<lambda>x. x \<noteq> r) rs))) CHR ''a'' else ''x''),
     cd_parse = (\<lambda>l. if l \<noteq> '''' \<and> list_all (\<lambda>c. c = CHR ''a'') l \<and> length l \<le> length rs then Some (rs ! (length l - 1)) else None)\<rparr>"

lemma table_codec_one_line: "r \<in> set rs \<Longrightarrow> one_line (table_codec rs) r"
proof -
  assume r: "r \<in> set rs"
  let ?n = "length (takeWhile (\<lambda>x. x \<noteq> r) rs)"
  have less: "?n < length rs" using r by (induction rs) auto
  then have "rs ! ?n = r" using nth_length_takeWhile by fastforce
  moreover have "\<not> line_break CHR ''a''" "\<not> is_space CHR ''a''" by code_simp+
  ultimately show ?thesis using r less
    by (auto simp: one_line_def table_codec_def list_all_iff py_strip_def lstrip_def rstrip_def)
qed

lemma table_codec_safe: "safe_line (table_codec rs) r"
proof (cases "r \<in> set rs")
  case True
  then show ?thesis by (simp add: one_line_safe table_codec_one_line)
next
  case False
  then have "line_of (table_codec rs) r = ''x'' @ [CHR 0x0A]" by (simp add: line_of_def table_codec_def)
  moreover have "splitlines (''x'' @ [CHR 0x0A]) = [''x'']" by code_simp
  ultimately show ?thesis by (simp add: safe_line_def table_codec_def)
qed

definition submitted_record :: "string \<Rightarrow> string \<Rightarrow> submit_outcome \<Rightarrow> processed" where
  "submitted_record c h out = (submit_record c h (so_sim_id out))\<lparr>pc_completed := True, pc_job_id := so_job_id out, pc_state := Some (so_state out)\<rparr>"

lemma submitted_record_simps [simp]:
  "pc_cmd_id (submitted_record c h out) = c" "pc_payload_hash (submitted_record c h out) = Some h" "pc_sim_id (submitted_record c h out) = Some (so_sim_id out)"
  "pc_completed (submitted_record c h out)" "pc_job_id (submitted_record c h out) = so_job_id out" "pc_state (submitted_record c h out) = Some (so_state out)"
  "pc_error (submitted_record c h out) = None" "pc_error_code (submitted_record c h out) = None"
  by (simp_all add: submitted_record_def submit_record_def new_record_def)

definition sample_outcome :: submit_outcome where
  "sample_outcome = \<lparr>so_sim_id = payload_sim_id sample_sim_lib sample_payload, so_state = state_value SimWorkflowFinished, so_job_id = Some 7,
     so_run_dir = path_str (pp_run_dir sample_prepared), so_stdout_path = Some ''/out''\<rparr>"

definition sample_records :: "processed list" where
  "sample_records = [new_record ''c1'', submit_record ''00112233'' (payload_hash sample_sim_lib sample_payload) (payload_sim_id sample_sim_lib sample_payload),
     submitted_record ''00112233'' (payload_hash sample_sim_lib sample_payload) sample_outcome]"

definition sample_executor :: "(json, nat) executor" where
  "sample_executor = \<lparr>xe_generate = (\<lambda>w r f. (None, w)), xe_normalise = (\<lambda>w p. w), xe_workflow = (\<lambda>w r. ((None, ''''), Suc w)),
     xe_step_logs = (\<lambda>w p. ''''), xe_job_id = (\<lambda>w p. Some 7), xe_link = (\<lambda>w p. (True, w)), xe_stdout = (\<lambda>w p. Some ''/out'')\<rparr>"

definition sample_outside :: "(json, nat) outside" where
  "sample_outside = \<lparr>we_lib = sample_sim_lib, we_codec = table_codec sample_records, we_mac = sample_mac, we_lax_float = (\<lambda>v. None),
     we_program_ok = (\<lambda>v. False), we_now = (\<lambda>w. ''t''), we_append = (\<lambda>w. (Written, w)), we_rewrite = (\<lambda>w. (True, w)),
     we_hello = (\<lambda>w path text out. (HelloFinished 7 \<lparr>ji_job_id = 7, ji_state = JCompleted, ji_exit_code = Some 0, ji_reason = None\<rparr> (Some text), Suc w)),
     we_exec = sample_executor, we_job_info = (\<lambda>w j. (Inr \<lparr>ji_job_id = 7, ji_state = JRunning, ji_exit_code = None, ji_reason = None\<rparr>, w)),
     we_control = Some (\<lambda>w p t. (Inr '''', w)), we_result = (\<lambda>w t p. (NoEngine, w)), we_suspect = (\<lambda>w t. None),
     we_has_output = (\<lambda>w d. True), we_build_log = (\<lambda>w d. []), we_file = (\<lambda>w p. None), we_find_stdout = (\<lambda>w d. None)\<rparr>"

definition start_client :: "(json, nat) client" where
  "start_client = (new_client sample_outside ''s'' ''k'' None (Some sample_cluster) ''1'' 1 '''' 0)\<lparr>cs_serving := True\<rparr>"

text \<open>The \<open>n\<close>-th delivery of a command: signed by the server, with an event id of its own.\<close>

definition sent :: "nat \<Rightarrow> string \<Rightarrow> (string \<times> json) list \<Rightarrow> rcp_message" where
  "sent n ty payload = (sign_message sample_mac sample_frepr ''k'' (new_message ''t'' ''s'' 1 KCommand McpServer ty None payload))
     \<lparr>rm_transport_event_id := Some (replicate n CHR ''e'')\<rparr>"

definition hello_sent :: "nat \<Rightarrow> rcp_message" where
  "hello_sent n = sent n hello_command_type [(''cmd_id'', JStr ''c1''), (''message'', JStr ''hi''), (''message_path'', JStr ''/m'')]"

definition submit_sent :: "nat \<Rightarrow> rcp_message" where
  "submit_sent n = sent n (type_value TSubmit) [(''cmd_id'', JStr ''00112233''), (''header'', JObj (payload_counts sample_sim_lib sample_payload)),
     (''payload'', JStr ''{}''), (''params'', JObj (dump_params sample_params))]"

text \<open>The same command without its payload hash.\<close>

definition hashless_sent :: "nat \<Rightarrow> rcp_message" where
  "hashless_sent n = sent n (type_value TSubmit) [(''cmd_id'', JStr ''00112233''), (''header'', JObj []), (''payload'', JStr ''{}'')]"

datatype move = Deliver rcp_message | Start nat | Finish nat | Restart

definition play_move :: "('r, 'w) outside \<Rightarrow> move \<Rightarrow> ('r, 'w) client \<Rightarrow> ('r, 'w) client" where
  "play_move E mv s = (case mv of
     Deliver m \<Rightarrow> snd (deliver E m s)
   | Start i \<Rightarrow> (case start_task E i s of None \<Rightarrow> s | Some t \<Rightarrow> t)
   | Finish i \<Rightarrow> (case finish_task E i s of None \<Rightarrow> s | Some t \<Rightarrow> t)
   | Restart \<Rightarrow> restart E s)"

fun delivered :: "move \<Rightarrow> rcp_message list" where
  "delivered (Deliver m) = [m]"
| "delivered mv = []"

lemma play_served:
  assumes "\<forall>mv \<in> set mvs. set (delivered mv) \<subseteq> M"
  shows "served E M s (fold (play_move E) mvs s)"
  using assms
proof (induction mvs rule: rev_induct)
  case Nil
  then show ?case by (simp add: served_start)
next
  case (snoc mv mvs)
  then have IH: "served E M s (fold (play_move E) mvs s)" by simp
  let ?t = "fold (play_move E) mvs s"
  have "serve_step E M ?t (play_move E mv ?t) \<or> play_move E mv ?t = ?t"
  proof (cases mv)
    case (Deliver m)
    then show ?thesis using snoc.prems by (simp add: play_move_def receives)
  qed (auto simp: play_move_def intro: begins ends restarts split: option.split)
  then show ?case using IH served_step by fastforce
qed

definition two_deliveries :: "move list" where
  "two_deliveries = [Deliver (hello_sent 1), Start 0, Restart, Deliver (hello_sent 2)]"

lemma sample_reliable: "reliable sample_outside {''c1''} {''00112233''}"
  by (simp add: reliable_def sample_outside_def table_codec_safe max_processed_def)

lemma hello_well_sent: "well_sent sample_outside {''c1''} {''00112233''} (hello_sent n)"
proof -
  have "one_line (table_codec sample_records) (new_record ''c1'')" by (rule table_codec_one_line) (simp add: sample_records_def)
  moreover have "hello_command_type \<noteq> type_value TSubmit" by (rule type_values)
  ultimately show ?thesis
    by (simp add: well_sent_def Let_def hello_sent_def sent_def sign_message_def new_message_def payload_str_def sample_outside_def
        get_str_def py_str_def)
qed

section \<open>Execution at most once\<close>

lemma inv_serving: "reliable E H S \<Longrightarrow> inv_of E H S (new_client E sim secret allowed config version n '''' w\<lparr>cs_serving := b\<rparr>)"
  using inv_new [of E H S sim secret allowed config version n w] by (simp add: core_def)

text \<open>
  C26: However often commands are delivered, in whatever order tasks run and wherever the process dies and
  restarts, a command id is executed at most once, for a client that starts on an empty directory whose writes
  succeed, with hello and submit ids kept apart and every submission under a payload hash.
\<close>

theorem commands_run_at_most_once:
  assumes "served E M (new_client E sim secret allowed config version n '''' w\<lparr>cs_serving := b\<rparr>) s"
    and "reliable E H S" "\<forall>m \<in> M. well_sent E H S m" "c \<noteq> ''''"
  shows "count_list (cs_log s) (RanHello c) \<le> 1 \<and> count_list (cs_log s) (RanSubmit c) \<le> 1"
proof -
  have inv: "inv_of E H S s" by (rule inv_served [OF assms(1-3) inv_serving [OF assms(2)]])
  have le: "count_list (cs_log s) e \<le> count (commits (cs_tasks s) (filter is_run (cs_log s))) e" if "is_run e" for e
    using that by (simp add: commits_def mset_filter flip: count_mset)
  have "count (commits (cs_tasks s) (filter is_run (cs_log s))) e \<le> 1" if "e \<in> {RanHello c, RanSubmit c}" for e
  proof (cases "e \<in># commits (cs_tasks s) (filter is_run (cs_log s))")
    case True
    then show ?thesis using inv that assms(4) by (auto simp: core_def once_def)
  qed (simp add: not_in_iff)
  with le [of "RanHello c"] le [of "RanSubmit c"] show ?thesis by (meson insertCI is_run_simps order_trans)
qed


theorem commands_run_at_most_once_witness:
  "served sample_outside {hello_sent 1, hello_sent 2} start_client (fold (play_move sample_outside) two_deliveries start_client) \<and>
   count_list (cs_log (fold (play_move sample_outside) two_deliveries start_client)) (RanHello ''c1'') = 1"
proof -
  let ?s = "fold (play_move sample_outside) two_deliveries start_client"
  have run: "served sample_outside {hello_sent 1, hello_sent 2} start_client ?s"
    by (rule play_served) (simp add: two_deliveries_def)
  have "filter is_run (cs_log ?s) = [RanHello ''c1'']" by code_simp
  then have "RanHello ''c1'' \<in> set (filter is_run (cs_log ?s))" by simp
  then have "count_list (cs_log ?s) (RanHello ''c1'') \<noteq> 0" by (simp add: count_list_0_iff)
  moreover have "count_list (cs_log ?s) (RanHello ''c1'') \<le> 1"
    using commands_run_at_most_once [OF run [unfolded start_client_def] sample_reliable, of "''c1''"] hello_well_sent
    by (simp add: start_client_def)
  ultimately show ?thesis using run by simp
qed


section \<open>Answers from the record\<close>

lemma persisted_found:
  assumes "reliable E H S" "good_store (H \<union> S) (hashed S) (we_codec E) (cs_store s)" "good_entry (H \<union> S) (hashed S) (we_codec E) r" "one_line (we_codec E) r"
  shows "map_of (ps_mem (cs_store (persist E r s))) (pc_cmd_id r) = Some r \<and>
    map_of (load_processed (we_codec E) (ps_file (cs_store (persist E r s)))) (pc_cmd_id r) = Some r"
proof -
  obtain rw where "cs_store (persist E r s) = persist_processed (we_codec E) Written rw r (cs_store s)"
    using core_persist [OF assms(1), of r s] by (auto simp: core_def)
  moreover have "ends_line (ps_file (cs_store s))" using assms(2) by (simp add: good_store_def)
  ultimately show ?thesis using load_append [OF assms(4)] by (simp add: persist_small [OF assms(2,3)])
qed

text \<open>
  C27: A submission that finished is answered from its record ever after: delivered again, at once or after a
  crash and restart, its command is answered with the stored state and job id, and nothing is executed. Here the
  JSON of its record is one line, so that the record can be read back.
\<close>

theorem finished_submit_is_reacked:
  assumes "served E M (new_client E sim secret allowed config version n '''' w\<lparr>cs_serving := b\<rparr>) s" "reliable E H S" "\<forall>m \<in> M. well_sent E H S m"
    and "i < length (cs_tasks s)" "cs_tasks s ! i = SubmitDone c sys h sid (Inr out)" "c \<noteq> ''''"
    and "finish_task E i s = Some t" "one_line (we_codec E) (submitted_record c h out)" "parse_state (so_state out) = Some st"
    and "payload_str E m ''cmd_id'' '''' = c" "get_str (we_lib E) (header_of m) ''payload_hash'' '''' = h"
  shows "\<forall>u \<in> {t, restart E t}. admit_submit E k m u =
    answer E (submit_answer m c (or_else (so_sim_id out) (get_str (we_lib E) (header_of m) ''sim_id'' '''')) st (so_job_id out) None None) u"
proof -
  let ?r = "submitted_record c h out"
  have inv: "inv_of E H S s" by (rule inv_served [OF assms(1-3) inv_serving [OF assms(2)]])
  then have good: "good_store (H \<union> S) (hashed S) (we_codec E) (cs_store s)" by (simp add: core_def)
  have "task_ok H S (cs_tasks s ! i)" using inv assms(4) by (simp add: core_def list_all_length)
  then have ok: "c \<in> S" "h \<noteq> ''''" using assms(5,6) by (simp_all add: task_ok_def)
  then have entry: "good_entry (H \<union> S) (hashed S) (we_codec E) ?r" using good_entry_submit [OF assms(2), of ?r] by (simp add: truthy_def)
  let ?s1 = "s\<lparr>cs_tasks := remove_nth i (cs_tasks s), cs_active_builds := AList.delete sid (cs_active_builds s)\<rparr>"
  have t: "t = start_follower c out sys (persist E ?r ?s1)"
    using assms(4-7) by (simp add: finish_task_def finish_submit_def submitted_record_def Let_def)
  have stores: "cs_store t = cs_store (persist E ?r ?s1)" using core_follower [of c out sys "persist E ?r ?s1"] by (simp add: t core_def)
  have good1: "good_store (H \<union> S) (hashed S) (we_codec E) (cs_store ?s1)" using good by simp
  have rec: "record_of u c = Some ?r" if "u \<in> {t, restart E t}" for u
    using that persisted_found [OF assms(2) good1 entry assms(8)] stores
    by (auto simp: record_of_def restart_def new_client_def)
  have ne: "so_state out \<noteq> ''''" using assms(9) by (auto simp: parse_state_def all_states_def)
  have replay: "submit_replay m ?r c sid' h = Some (submit_answer m c (or_else (so_sim_id out) sid') st (so_job_id out) None None)" for sid'
    using ok(2) assms(9) ne by (simp add: submit_replay_def stored_state_def)
  show ?thesis using rec assms(6,10,11) by (simp add: admit_submit_def Let_def replay)
qed


lemma update_known_length: "map_of d k \<noteq> None \<Longrightarrow> length (AList.update k v d) = length d"
  by (induction d) auto

lemma persist_known_mem:
  assumes "\<And>v. fst (we_append E v) = Written" "record_of s c \<noteq> None" "length (ps_mem (cs_store s)) \<le> max_processed" "pc_cmd_id r = c"
  shows "record_of (persist E r s) c = Some r \<and> length (ps_mem (cs_store (persist E r s))) \<le> max_processed \<and> cs_tasks (persist E r s) = cs_tasks s"
proof -
  obtain w1 where w: "we_append E (cs_world s) = (Written, w1)" using assms(1) [of "cs_world s"] by (cases "we_append E (cs_world s)") simp
  have "length (AList.update c r (ps_mem (cs_store s))) = length (ps_mem (cs_store s))"
    by (rule update_known_length) (use assms(2) in \<open>simp add: record_of_def\<close>)
  then show ?thesis using assms(3,4) w persist_mem [of r "cs_store s"]
    by (auto simp: persist_def record_of_def split: prod.split)
qed

lemma answer_frame [simp]:
  "cs_store (snd (answer E f s)) = cs_store s" "cs_tasks (snd (answer E f s)) = cs_tasks s"
  "cs_store (snd (build_signed E f s)) = cs_store s" "cs_tasks (snd (build_signed E f s)) = cs_tasks s"
  using core_answer [of E f s] core_build_signed [of E f s] by (simp_all add: core_def del: core_answer core_build_signed)

lemma log_frame [simp]: "cs_store (log_effect e s) = cs_store s" "cs_tasks (log_effect e s) = cs_tasks s" "record_of (log_effect e s) = record_of s"
  by (simp_all add: log_effect_def record_of_def fun_eq_iff)

lemma signed_payload_kept: "rm_payload (fst (build_signed E f s)) = rm_payload (f (we_now E (cs_world s)) (cs_sim s) (fst (next_seq (cs_sequences s) (cs_sim s) Simclient)))"
  by (simp add: build_signed_def Let_def split_beta sign_message_def)

text \<open>A command that cannot be prepared is answered as failed, and its record says so.\<close>

lemma failed_admission:
  assumes "\<And>v. fst (we_append E v) = Written" "record_of s c \<noteq> None" "length (ps_mem (cs_store s)) \<le> max_processed" "c \<noteq> ''''"
    and "payload_str E m ''cmd_id'' '''' = c" "map_of (rm_payload m) ''payload'' = Some (JStr raw)" "parse_payload (we_lib E) raw = Inr doc"
    and "h = get_str (we_lib E) (header_of m) ''payload_hash'' ''''" "sid = get_str (we_lib E) (header_of m) ''sim_id'' ''''"
    and "prepare_submit (we_lib E) k doc (header_of m) (map_of (rm_payload m) ''params'') c = Inl e"
    and "submit_replay m (the (record_of s c)) c sid h = None"
  shows "map_of (rm_payload (fst (admit_submit E k m s))) ''state'' = Some (JStr ''simulation.failed'') \<and>
    record_of (snd (admit_submit E k m s)) c = Some (failed_record c h sid e) \<and>
    length (ps_mem (cs_store (snd (admit_submit E k m s)))) \<le> max_processed \<and> cs_tasks (snd (admit_submit E k m s)) = cs_tasks s"
proof -
  let ?s1 = "persist E (submit_record c h sid) s"
  let ?f = "submit_answer m c sid SimFailed None (Some (se_message e)) (Some (error_value (se_code e)))"
  obtain a s2 where b: "build_signed E ?f ?s1 = (a, s2)" by fastforce
  note p1 = persist_known_mem [OF assms(1-3), of "submit_record c h sid"]
  have frame: "cs_store s2 = cs_store ?s1" "cs_tasks s2 = cs_tasks ?s1" using answer_frame(3,4) [of E ?f ?s1] b by simp_all
  have "record_of s2 c \<noteq> None" "length (ps_mem (cs_store s2)) \<le> max_processed" using p1 frame by (simp_all add: record_of_def)
  note p2 = persist_known_mem [OF assms(1) this, of "failed_record c h sid e"]
  have adm: "admit_submit E k m s = (a, log_effect (Sent a) (persist E (failed_record c h sid e) s2))"
    using assms(2,4-7,10,11) b unfolding admit_submit_def prepare_or_reject_def
    by (auto simp: assms(8,9) [symmetric] or_else_def Let_def split: option.splits)
  have "map_of (rm_payload a) ''state'' = Some (JStr ''simulation.failed'')"
    using signed_payload_kept [of E ?f ?s1] b by (simp add: submit_answer_def build_submit_ack_def)
  then show ?thesis using p1 p2 frame unfolding adm by simp
qed

text \<open>
  C28: A resend without a payload hash defeats this. The record is replaced before the resend is rejected for its
  missing hash, and the original command, delivered once more, is then accepted and executed a second time.
\<close>

theorem hashless_resend_forgets:
  assumes "\<And>v. fst (we_append E v) = Written" "record_of s c \<noteq> None" "length (ps_mem (cs_store s)) \<le> max_processed" "c \<noteq> ''''"
    and "payload_str E m0 ''cmd_id'' '''' = c" "map_of (rm_payload m0) ''payload'' = Some (JStr raw)"
    and "parse_payload (we_lib E) raw = Inr doc" "map_of doc ''simulation'' = Some v" "header_of m0 = []"
    and "payload_str E m ''cmd_id'' '''' = c" "map_of (rm_payload m) ''payload'' = Some (JStr raw)"
    and "prepare_submit (we_lib E) k doc (header_of m) (map_of (rm_payload m) ''params'') c = Inr p"
  shows "case admit_submit E k m0 s of (a, s1) \<Rightarrow>
      map_of (rm_payload a) ''state'' = Some (JStr ''simulation.failed'') \<and> cs_tasks s1 = cs_tasks s \<and>
      (\<exists>h sid. cs_tasks (snd (admit_submit E k m s1)) = cs_tasks s @ [SubmitWaiting c p h sid])"
proof -
  have none: "submit_replay m' r c sid h = None" if "h = '''' \<or> pc_payload_hash r = Some ''''" for m' r sid h
    using that by (auto simp: submit_replay_def truthy_def)
  obtain e where e: "prepare_submit (we_lib E) k doc (header_of m0) (map_of (rm_payload m0) ''params'') c = Inl e"
    using assms(8,9) by (simp add: prepare_submit_def check_payload_hash_def get_str_def)
  have h0: "get_str (we_lib E) (header_of m0) ''payload_hash'' '''' = ''''" "get_str (we_lib E) (header_of m0) ''sim_id'' '''' = ''''"
    by (simp_all add: assms(9) get_str_def)
  obtain a s1 where ad: "admit_submit E k m0 s = (a, s1)" by fastforce
  note f = failed_admission [OF assms(1-7) h0 [symmetric] e none [OF disjI1 [OF refl]], unfolded ad fst_conv snd_conv]
  let ?h = "get_str (we_lib E) (header_of m) ''payload_hash'' ''''" and ?sid = "get_str (we_lib E) (header_of m) ''sim_id'' ''''"
  have k: "record_of s1 c \<noteq> None" "length (ps_mem (cs_store s1)) \<le> max_processed" "cs_tasks s1 = cs_tasks s" using f by simp_all
  note p1 = persist_known_mem [OF assms(1) k(1,2), of "submit_record c ?h ?sid"]
  have "submit_replay m (failed_record c '''' '''' e) c ?sid ?h = None" by (rule none) simp
  then have "cs_tasks (snd (admit_submit E k m s1)) = cs_tasks s1 @ [SubmitWaiting c p ?h (payload_sim_id (we_lib E) (pp_payload p))]"
    using f assms(4,7,10-12) p1 unfolding admit_submit_def prepare_or_reject_def
    by (simp add: or_else_def Let_def add_task_def split_beta)
  then show ?thesis using f k(3) by (simp add: ad)
qed


definition executed_client :: "(json, nat) client" where
  "executed_client = start_client\<lparr>cs_store := persist_processed (table_codec sample_records) Written True
     (submitted_record ''00112233'' (payload_hash sample_sim_lib sample_payload) sample_outcome) (cs_store start_client)\<rparr>"

lemma submit_prepares:
  "prepare_submit sample_sim_lib sample_cluster sample_doc (header_of (submit_sent 4)) (map_of (rm_payload (submit_sent 4)) ''params'') ''00112233''
     = Inr sample_prepared"
  using sample_prepares
  by (simp add: submit_sent_def sent_def sign_message_def new_message_def header_of_def)

theorem hashless_resend_forgets_witness:
  "cs_tasks executed_client = [] \<and> record_of executed_client ''00112233'' \<noteq> None \<and>
   (case admit_submit sample_outside sample_cluster (hashless_sent 3) executed_client of (a, s1) \<Rightarrow>
      map_of (rm_payload a) ''state'' = Some (JStr ''simulation.failed'') \<and> cs_tasks s1 = [] \<and>
      (\<exists>h sid. cs_tasks (snd (admit_submit sample_outside sample_cluster (submit_sent 4) s1)) =
         [SubmitWaiting ''00112233'' sample_prepared h sid]))"
proof -
  have s: "cs_tasks executed_client = []" "length (ps_mem (cs_store executed_client)) \<le> max_processed"
    "record_of executed_client ''00112233'' \<noteq> None"
    by (simp_all add: executed_client_def start_client_def new_client_def persist_processed_def max_processed_def Let_def record_of_def
        load_processed_def)
  have doc: "parse_payload sample_sim_lib ''{}'' = Inr sample_doc" "map_of sample_doc ''simulation'' = Some (JObj [(''sim'', JInt 5)])"
    by (simp_all add: parse_payload_def sample_sim_lib_def sample_doc_def)
  show ?thesis
    using hashless_resend_forgets [of sample_outside executed_client "''00112233''" "hashless_sent 3" "''{}''" sample_doc "JObj [(''sim'', JInt 5)]"
        "submit_sent 4" sample_cluster sample_prepared] s doc submit_prepares
    by (simp add: sample_outside_def hashless_sent_def submit_sent_def sent_def sign_message_def new_message_def header_of_def payload_str_def
        get_str_def py_str_def)
qed



lemma sent_verifies: "verify_message sample_mac sample_frepr ''k'' (sent n ty payload)"
  by (simp add: verify_message_def sent_def sign_message_def verify_iff signed_payload_def signed_fields_def new_message_def)

lemma sent_accepted:
  "accepts sample_outside start_client (sent n ty payload) =
     (True, start_client\<lparr>cs_seen := snd (seen (cs_seen start_client) (sent n ty payload))\<rparr>)"
proof -
  have "rm_sim (sent n ty payload) = ''s''" "rm_kind (sent n ty payload) = KCommand" "rm_transport_sender (sent n ty payload) = None"
    by (simp_all add: sent_def sign_message_def new_message_def)
  moreover have "fst (seen (new_dedup k) m) = True" for k m by (simp add: seen_def seen_key_def new_dedup_def Let_def)
  ultimately show ?thesis using sent_verifies
    by (simp add: accepts_def start_client_def new_client_def sample_outside_def sample_sim_lib_def truthy_def split_beta)
qed


lemma settings_kept [simp]:
  "cs_config (snd (answer E f s)) = cs_config s" "cs_build_concurrency (snd (answer E f s)) = cs_build_concurrency s"
  "cs_config (persist E r s) = cs_config s" "cs_build_concurrency (persist E r s) = cs_build_concurrency s" "cs_tasks (persist E r s) = cs_tasks s"
  by (simp_all add: answer_def build_signed_def log_effect_def persist_def Let_def split_beta)

lemma admitted_submit:
  assumes "(case record_of s c of None \<Rightarrow> None | Some r \<Rightarrow> submit_replay m r c (get_str (we_lib E) (header_of m) ''sim_id'' '''')
      (get_str (we_lib E) (header_of m) ''payload_hash'' '''')) = None"
    and "c \<noteq> ''''" "payload_str E m ''cmd_id'' '''' = c" "map_of (rm_payload m) ''payload'' = Some (JStr raw)" "parse_payload (we_lib E) raw = Inr doc"
    and "prepare_submit (we_lib E) k doc (header_of m) (map_of (rm_payload m) ''params'') c = Inr p"
    and "snd (admit_submit E k m s) = t"
  shows "cs_tasks t = cs_tasks s @ [SubmitWaiting c p (get_str (we_lib E) (header_of m) ''payload_hash'' '''') (payload_sim_id (we_lib E) (pp_payload p))] \<and>
    cs_config t = cs_config s \<and> cs_build_concurrency t = cs_build_concurrency s"
  using assms unfolding admit_submit_def prepare_or_reject_def by (auto simp: or_else_def Let_def add_task_def split_beta)

definition submitted_client :: "(json, nat) client" where
  "submitted_client = fold (play_move sample_outside) [Deliver (submit_sent 3), Start 0] start_client"

lemma submit_sent_hash: "get_str sample_sim_lib (header_of (submit_sent n)) ''payload_hash'' '''' = payload_hash sample_sim_lib sample_payload"
  "get_str sample_sim_lib (header_of (submit_sent n)) ''sim_id'' '''' = payload_sim_id sample_sim_lib sample_payload"
  by (simp_all add: submit_sent_def sent_def sign_message_def new_message_def header_of_def payload_counts_def get_str_def py_str_def)

lemma submit_sent_simps:
  "rm_type (submit_sent n) = type_value TSubmit" "map_of (rm_payload (submit_sent n)) ''payload'' = Some (JStr ''{}'')"
  "payload_str sample_outside (submit_sent n) ''cmd_id'' '''' = ''00112233''"
  by (simp_all add: submit_sent_def sent_def sign_message_def new_message_def payload_str_def get_str_def py_str_def)

lemma sample_doc_parses: "parse_payload sample_sim_lib ''{}'' = Inr sample_doc"
  by (simp add: parse_payload_def sample_sim_lib_def sample_doc_def)

lemma submitted_tasks:
  "\<exists>sid. cs_tasks submitted_client = [SubmitDone ''00112233'' ''sbatch'' (payload_hash sample_sim_lib sample_payload) sid (Inr sample_outcome)]"
proof -
  let ?m = "submit_sent 3" and ?c = "''00112233''"
  let ?s0 = "start_client\<lparr>cs_seen := snd (seen (cs_seen start_client) ?m)\<rparr>"
  let ?s = "?s0\<lparr>cs_sequences := observe_seq (cs_sequences ?s0) (rm_sim ?m) (rm_sender_role ?m) (rm_seq ?m)\<rparr>"
  obtain t where t: "snd (admit_submit sample_outside sample_cluster ?m ?s) = t" by blast
  have "record_of ?s ?c = None" by (simp add: record_of_def start_client_def new_client_def load_processed_def)
  then have a: "cs_tasks t = [SubmitWaiting ?c sample_prepared (payload_hash sample_sim_lib sample_payload) (payload_sim_id sample_sim_lib sample_payload)]"
    "cs_config t = Some sample_cluster" "cs_build_concurrency t = 1"
    using admitted_submit [OF _ _ _ _ _ _ t, of ?c "''{}''" sample_doc sample_prepared] submit_prepares submit_sent_simps sample_doc_parses submit_sent_hash [of 3]
    by (simp_all add: sample_outside_def start_client_def new_client_def sample_prepared_def submit_sent_def sent_def sign_message_def new_message_def header_of_def)
  have types: "type_value TSubmit \<noteq> hello_command_type" "type_value TSubmit \<in> set m2_commands"
    by (simp_all add: hello_command_type_def m2_commands_def)
  have "snd (deliver sample_outside ?m start_client) = t"
    using t sent_accepted [of 3 "type_value TSubmit"] types submit_sent_simps(1) [of 3]
    by (simp add: deliver_def submit_sent_def Let_def dispatch_m2_def start_client_def new_client_def)
  moreover have "cs_tasks (emit_all E c sid es u) = cs_tasks u" for E :: "(json, nat) outside" and c sid es u
    using core_emit_all [of E c sid es u] by (simp add: core_def del: core_emit_all)
  ultimately show ?thesis using a
    by (simp add: submitted_client_def play_move_def start_task_def gate_open_def building_def run_submit_def execute_submit_def Let_def
        sample_outside_def sample_executor_def log_effect_def remove_nth_def add_task_def) (simp add: sample_prepared_def sample_outcome_def)
qed

lemma submit_well_sent: "well_sent sample_outside {''c1''} {''00112233''} (submit_sent n)"
proof -
  have "one_line (table_codec sample_records) (submit_record ''00112233'' (payload_hash sample_sim_lib sample_payload) (payload_sim_id sample_sim_lib sample_payload))"
    by (rule table_codec_one_line) (simp add: sample_records_def)
  moreover have "payload_hash sample_sim_lib sample_payload \<noteq> ''''" by code_simp
  moreover have "type_value TSubmit \<noteq> hello_command_type" using type_values by simp
  ultimately show ?thesis using submit_sent_simps [of n] submit_sent_hash [of n]
    by (simp add: well_sent_def Let_def) (simp add: sample_outside_def)
qed

theorem finished_submit_is_reacked_witness:
  "\<exists>t. finish_task sample_outside 0 submitted_client = Some t \<and>
     admit_submit sample_outside sample_cluster (submit_sent 5) (restart sample_outside t) =
       answer sample_outside (submit_answer (submit_sent 5) ''00112233'' (payload_sim_id sample_sim_lib sample_payload) SimWorkflowFinished (Some 7) None None)
         (restart sample_outside t)"
proof -
  obtain sid where tasks: "cs_tasks submitted_client = [SubmitDone ''00112233'' ''sbatch'' (payload_hash sample_sim_lib sample_payload) sid (Inr sample_outcome)]"
    using submitted_tasks by blast
  obtain t where t: "finish_task sample_outside 0 submitted_client = Some t" using tasks by (simp add: finish_task_def)
  have run: "served sample_outside {submit_sent 3} (new_client sample_outside ''s'' ''k'' None (Some sample_cluster) ''1'' 1 '''' 0\<lparr>cs_serving := True\<rparr>) submitted_client"
    unfolding submitted_client_def start_client_def [symmetric] by (rule play_served) simp
  have line: "one_line (we_codec sample_outside) (submitted_record ''00112233'' (payload_hash sample_sim_lib sample_payload) sample_outcome)"
    unfolding sample_outside_def by (simp add: table_codec_one_line sample_records_def)
  have st: "parse_state (so_state sample_outcome) = Some SimWorkflowFinished" by code_simp
  have i: "0 < length (cs_tasks submitted_client)" "cs_tasks submitted_client ! 0 = SubmitDone ''00112233'' ''sbatch'' (payload_hash sample_sim_lib sample_payload) sid (Inr sample_outcome)"
    by (simp_all add: tasks)
  have id: "so_sim_id sample_outcome = payload_sim_id sample_sim_lib sample_payload" "so_job_id sample_outcome = Some 7"
    "payload_sim_id sample_sim_lib sample_payload \<noteq> ''''"
    by (simp add: sample_outcome_def, simp add: sample_outcome_def, code_simp)
  have lib: "we_lib sample_outside = sample_sim_lib" by (simp add: sample_outside_def)
  show ?thesis using t finished_submit_is_reacked [OF run sample_reliable _ i _ t line st, of "submit_sent 5" sample_cluster]
    by (simp add: submit_well_sent submit_sent_simps submit_sent_hash id lib or_else_def)
qed

section \<open>Where execution at most once ends\<close>

text \<open>
  When appending to the file fails, the memory is not updated either and the command runs all the same: a second
  delivery finds no record and leaves a second task.
\<close>

lemma unwritten_hello_runs_twice:
  assumes "\<And>w. fst (we_append E w) = Torn 0" "record_of s c = None" "c \<noteq> ''''" "payload_str E m ''cmd_id'' '''' = c" "payload_str E m' ''cmd_id'' '''' = c"
  shows "cs_tasks (snd (admit_hello E m' (snd (admit_hello E m s)))) = cs_tasks s @ [HelloWaiting m c, HelloWaiting m' c]"
proof -
  have mem: "record_of (persist E r u) = record_of u" for r u
  proof -
    have "fst (we_append E (cs_world u)) = Torn 0" by (rule assms(1))
    then show ?thesis by (cases "we_append E (cs_world u)") (simp add: persist_def persist_processed_def record_of_def fun_eq_iff split_beta)
  qed
  have task: "record_of (add_task t u) = record_of u" for t u by (simp add: add_task_def record_of_def fun_eq_iff)
  with mem have adm: "snd (admit_hello E n u) = add_task (HelloWaiting n c) (persist E (new_record c) u)"
    if "payload_str E n ''cmd_id'' '''' = c" "record_of u c = None" for n u
    using that assms(3) by (simp add: admit_hello_def Let_def)
  have "record_of (snd (admit_hello E m s)) c = None" using assms(2,4) by (simp add: adm task mem)
  then show ?thesis using assms(2,4,5) by (simp add: adm) (simp add: add_task_def)
qed

text \<open>
  A hello job that completed but whose output cannot be read ends its handler with an exception: no ack is sent
  and the record stays pending.
\<close>

lemma unreadable_output_is_silent:
  assumes "i < length (cs_tasks s)" "cs_tasks s ! i = HelloWaiting m c"
    "we_hello E (cs_world s) (payload_str E m ''message_path'' '''') (payload_str E m ''message'' ''Hello World'') (''hello-'' @ c @ ''.out'') =
       (HelloFinished j info None, w)" "ji_state info = JCompleted"
  shows "\<exists>t. start_task E i s = Some t \<and> cs_log t = cs_log s @ [RanHello c] \<and> cs_store t = cs_store s \<and> cs_tasks t = remove_nth i (cs_tasks s)"
  using assms by (simp add: start_task_def run_hello_def execute_hello_def read_outcome_def log_effect_def)



section \<open>The store as a dict that never restarts\<close>

text \<open>The abstract store: a dict of the latest 4096 commands, in memory only.\<close>

definition remember :: "processed \<Rightarrow> (string \<times> processed) list \<Rightarrow> (string \<times> processed) list" where
  "remember r d = (let d' = AList.update (pc_cmd_id r) r d in drop (length d' - max_processed) d')"

text \<open>The code's store: a record is persisted; a restart (\<open>None\<close>) builds the client anew from the file.\<close>

definition store_op :: "codec \<Rightarrow> processed option \<Rightarrow> cmd_store \<Rightarrow> cmd_store" where
  "store_op cd op st = (case op of None \<Rightarrow> reload_store cd st | Some r \<Rightarrow> persist_processed cd Written True r st)"

definition empty_store :: cmd_store where
  "empty_store = \<lparr>ps_mem = [], ps_file = ''''\<rparr>"

lemma empty_durable: "durable_store cd empty_store"
  by (simp add: durable_store_def empty_store_def load_processed_def ends_line_def)

lemma store_op_durable:
  "durable_store cd st \<Longrightarrow> (case op of None \<Rightarrow> True | Some r \<Rightarrow> one_line cd r) \<Longrightarrow> durable_store cd (store_op cd op st)"
  using persist_durable [of cd st] by (cases op) (simp_all add: store_op_def, simp add: reload_store_def durable_store_def)

lemma store_op_mem:
  "durable_store cd st \<Longrightarrow> ps_mem (store_op cd op st) = (case op of None \<Rightarrow> ps_mem st | Some r \<Rightarrow> remember r (ps_mem st))"
  by (cases op) (simp_all add: store_op_def reload_store_def durable_store_def persist_processed_def rewrite_processed_def remember_def Let_def)

text \<open>
  C34: The durable command store refines a dict that never restarts. For every history of records and restarts from
  an empty file, in which each record's JSON text is one line that reads back and no write fails, the dict in
  memory, in its order, is what the records alone leave in a dict bounded to the latest 4096 commands: restarts, the file, its
  repeated lines and its compaction cannot be seen. Reading the file at any time gives that dict.
\<close>

theorem store_refines_dict:
  assumes "list_all (\<lambda>op. case op of None \<Rightarrow> True | Some r \<Rightarrow> one_line cd r) ops"
  shows "ps_mem (fold (store_op cd) ops empty_store) = fold remember (map the (filter (\<lambda>op. op \<noteq> None) ops)) [] \<and>
    load_processed cd (ps_file (fold (store_op cd) ops empty_store)) = fold remember (map the (filter (\<lambda>op. op \<noteq> None) ops)) []"
proof -
  have "durable_store cd st \<Longrightarrow> ps_mem (fold (store_op cd) ops st) = fold remember (map the (filter (\<lambda>op. op \<noteq> None) ops)) (ps_mem st) \<and>
      durable_store cd (fold (store_op cd) ops st)" for st
    using assms
  proof (induction ops arbitrary: st)
    case (Cons op ops)
    then show ?case using store_op_durable [of cd st op] store_op_mem [of cd st op] by (cases op) simp_all
  qed simp
  from this [OF empty_durable] show ?thesis by (simp add: empty_store_def durable_store_def)
qed

theorem store_refines_dict_witness:
  "ps_mem (fold (store_op (table_codec [new_record ''c'', (new_record ''c'')\<lparr>pc_completed := True\<rparr>]))
     [Some (new_record ''c''), None, Some ((new_record ''c'')\<lparr>pc_completed := True\<rparr>), None] empty_store) =
     [(''c'', (new_record ''c'')\<lparr>pc_completed := True\<rparr>)]"
  using store_refines_dict [of "table_codec [new_record ''c'', (new_record ''c'')\<lparr>pc_completed := True\<rparr>]"
      "[Some (new_record ''c''), None, Some ((new_record ''c'')\<lparr>pc_completed := True\<rparr>), None]"]
  by (simp add: table_codec_one_line remember_def max_processed_def new_record_def)

end
