(* ===== verification/SimRequests.thy ===== *)
theory SimRequests
  imports SimServeFacts
begin

text \<open>
  Control and log requests: a control command that was answered is answered again from the cache, one that is
  still waiting is not; and what part of a log file a request returns.
\<close>

section \<open>The cache of control acks\<close>

definition among_last :: "nat \<Rightarrow> 'k \<Rightarrow> ('k \<times> 'v) list \<Rightarrow> bool" where
  "among_last n k d \<longleftrightarrow> k \<in> set (keys (drop (length d - n) d))"

lemma drop_more: "x \<in> set (drop (k - n) xs) \<Longrightarrow> n \<le> m \<Longrightarrow> x \<in> set (drop (k - m) xs)"
  using set_drop_subset_set_drop [of "k - m" "k - n" xs] by (meson diff_le_mono2 subsetD)

lemma among_last_more: "among_last i k d \<Longrightarrow> i \<le> j \<Longrightarrow> among_last j k d"
  by (auto simp: among_last_def intro: drop_more)

lemma among_last_new: "map_of d k = None \<Longrightarrow> among_last 1 k (AList.update k v d)"
  by (simp add: among_last_def update_append map_of_eq_None_iff)

lemma update_keys: "keys (AList.update k v d) = keys d @ (if k \<in> set (keys d) then [] else [k])"
  by (induction d) auto

lemma among_last_update:
  assumes "among_last n k d" shows "among_last (Suc n) k (AList.update k' v d)"
proof -
  have ks: "k \<in> set (drop (length d - n) (keys d))" using assms by (simp add: among_last_def drop_map)
  have len: "length (AList.update k' v d) = length d + (if k' \<in> set (keys d) then 0 else 1)"
    using arg_cong [OF update_keys [of k' v d], of length] by (simp split: if_splits)
  have "k \<in> set (drop (length (AList.update k' v d) - Suc n) (keys (AList.update k' v d)))"
  proof (cases "k' \<in> set (keys d)")
    case True
    then show ?thesis using drop_more [OF ks, of "Suc n"] by (auto simp: len update_keys)
  next
    case False
    then show ?thesis using ks by (auto simp: len update_keys)
  qed
  then show ?thesis by (simp add: among_last_def drop_map)
qed

text \<open>A bounded dict: an update that keeps the newest \<open>n\<close> entries keeps an entry among the last \<open>n\<close>, with its value.\<close>

lemma bounded_update:
  fixes v' :: 'v
  assumes "distinct (keys d)" "map_of d k = Some v" "among_last i k d" "k' \<noteq> k" "i < n"
  defines "d' \<equiv> AList.update k' (v' :: 'v) (d :: ('k \<times> 'v) list)"
  shows "distinct (keys (drop (length d' - n) d')) \<and> map_of (drop (length d' - n) d') k = Some v \<and> among_last (Suc i) k (drop (length d' - n) d')"
proof -
  have dist: "distinct (keys d')" using assms(1) by (simp add: d'_def distinct_update)
  have al: "among_last (Suc i) k d'" unfolding d'_def by (rule among_last_update [OF assms(3)])
  have in_n: "k \<in> set (keys (drop (length d' - n) d'))"
    using among_last_more [OF al, of n] assms(5) by (simp add: among_last_def)
  then obtain u where "(k, u) \<in> set (drop (length d' - n) d')" by auto
  moreover have "map_of d' k = Some v" using assms(2,4) by (simp add: d'_def)
  moreover have d2: "distinct (keys (drop (length d' - n) d'))" using dist by (simp add: drop_map [symmetric])
  ultimately have "map_of (drop (length d' - n) d') k = Some v"
    by (metis Some_eq_map_of_iff dist in_set_dropD option.inject)
  moreover have "drop (length (drop (length d' - n) d') - Suc i) (drop (length d' - n) d') = drop (length d' - Suc i) d'"
  proof -
    have "length d' - n + (length d' - (length d' - n) - Suc i) = length d' - Suc i" using assms(5) by linarith
    then show ?thesis by (simp add: add.commute)
  qed
  ultimately show ?thesis using al d2 by (simp add: among_last_def)
qed

definition control_acks_ok :: "string \<times> string \<times> string \<Rightarrow> rcp_message \<Rightarrow> nat \<Rightarrow> ('r, 'w) client \<Rightarrow> bool" where
  "control_acks_ok key a i s \<longleftrightarrow> distinct (keys (cs_control_acks s)) \<and> map_of (cs_control_acks s) key = Some a \<and> among_last i key (cs_control_acks s)"

lemma answer_acks [simp]: "cs_control_acks (snd (answer E f s)) = cs_control_acks s" "cs_tracked (snd (answer E f s)) = cs_tracked s"
  by (simp_all add: answer_def build_signed_def log_effect_def Let_def split_beta)

lemma send_other_ack:
  assumes "control_acks_ok key a i s" "(payload_str E m ''cmd_id'' '''', sid, op_value p) \<noteq> key" "i < max_processed"
  shows "control_acks_ok key a (Suc i) (snd (send_control_ack E m sid p ok f s))"
proof (cases "payload_str E m ''cmd_id'' '''' = ''''")
  case True
  then show ?thesis using assms(1) by (simp add: send_control_ack_def split_beta Let_def control_acks_ok_def among_last_more [of i key _ "Suc i"])
next
  case False
  then show ?thesis using assms bounded_update [of "cs_control_acks s" key a i "(payload_str E m ''cmd_id'' '''', sid, op_value p)" max_processed]
    by (auto simp: send_control_ack_def split_beta Let_def control_acks_ok_def)
qed

lemma send_control_cached:
  assumes "send_control_ack E m sid p ok f s = (a, s1)" "payload_str E m ''cmd_id'' '''' = c" "c \<noteq> ''''"
    "distinct (keys (cs_control_acks s))" "map_of (cs_control_acks s) (c, sid, op_value p) = None"
  shows "control_acks_ok (c, sid, op_value p) a 1 s1"
proof -
  let ?key = "(c, sid, op_value p)" and ?d = "cs_control_acks s @ [((c, sid, op_value p), a)]"
  let ?n = "length ?d - max_processed"
  have "cs_control_acks s1 = drop ?n ?d"
    using assms by (auto simp: send_control_ack_def Let_def split_beta update_append map_of_eq_None_iff)
  moreover have "drop ?n ?d = drop ?n (cs_control_acks s) @ [(?key, a)]" by (simp add: max_processed_def)
  moreover have k: "?key \<notin> set (keys (drop ?n (cs_control_acks s)))"
    using assms(5) by (auto simp: map_of_eq_None_iff dest: in_set_dropD)
  moreover have "map_of (drop ?n (cs_control_acks s)) ?key = None" using k unfolding map_of_eq_None_iff by simp
  moreover have "distinct (keys (drop ?n (cs_control_acks s)))" using assms(4) by (simp add: drop_map [symmetric])
  ultimately show ?thesis by (simp add: control_acks_ok_def among_last_def map_add_def)
qed

text \<open>A control request that was carried out (or tried) answers through \<open>_send_control_ack\<close>.\<close>

lemma run_control_sends:
  assumes "we_control E = Some ctl" "run_control E m sid p t s = (a, s1)"
  shows "\<exists>ok f u. cs_control_acks u = cs_control_acks s \<and> send_control_ack E m sid p ok f u = (a, s1)"
proof -
  have acks: "cs_control_acks (snd (live_job_state E t s)) = cs_control_acks s"
    by (simp add: live_job_state_def split_beta split: option.split sum.split prod.split)
  have log: "cs_control_acks (log_effect e u) = cs_control_acks u" "cs_control_acks (emit_event E c i ev u) = cs_control_acks u" for e u c i ev
    by (simp_all add: log_effect_def emit_event_def split_beta split: prod.split)
  show ?thesis
  proof (cases "live_gate p t (fst (live_job_state E t s))")
    case (Some f)
    then show ?thesis using assms(2) acks by (force simp: run_control_def split_beta)
  next
    case None
    obtain r w where r: "ctl (cs_world (snd (live_job_state E t s))) p t = (r, w)" by fastforce
    show ?thesis
    proof (cases r)
      case (Inl exc)
      then show ?thesis using assms None r acks log(1)
        by (intro exI [of _ False] exI [of _ "no_control\<lparr>cf_job_id := ts_job_id t, cf_signal := control_signal p,
            cf_error := Some (''control_failed:'' @ exc), cf_code := Some ERunFailed\<rparr>"]
            exI [of _ "log_effect (Controlled p t) (snd (live_job_state E t s)\<lparr>cs_world := w\<rparr>)"]) (simp add: run_control_def split_beta)
    next
      case (Inr reason)
      let ?s2 = "log_effect (Controlled p t) (snd (live_job_state E t s)\<lparr>cs_world := w\<rparr>)"
      let ?s3 = "if p = OpCheckpoint then emit_event E (ts_cmd_id t) (ts_sim_id t) (SimCheckpoint, ts_job_id t, no_fields) ?s2 else ?s2"
      show ?thesis using assms None r acks log Inr
        by (intro exI [of _ True] exI [of _ "no_control\<lparr>cf_job_id := ts_job_id t, cf_signal := control_signal p, cf_reason := Some reason,
            cf_state := (if p = OpCheckpoint then Some (state_value SimCheckpoint) else None)\<rparr>"] exI [of _ ?s3]) (simp add: run_control_def split_beta Let_def)
    qed
  qed
qed

section \<open>Redelivered control commands\<close>

text \<open>
  C29: A control command that was answered is not carried out again: while fewer than 4096 further control acks
  are sent, a redelivery is answered with the very ack of the first delivery, and nothing else happens.
\<close>

theorem answered_control_is_replayed:
  assumes "we_control E = Some ctl" "run_control E m sid p t s = (a, s1)" "payload_str E m ''cmd_id'' '''' = c" "c \<noteq> ''''"
    and "distinct (keys (cs_control_acks s))" "map_of (cs_control_acks s) (c, sid, op_value p) = None"
    and "list_all (\<lambda>(n, i, q, ok, f). (payload_str E n ''cmd_id'' '''', i, op_value q) \<noteq> (c, sid, op_value p)) others"
    and "length others < max_processed" "s2 = fold (\<lambda>(n, i, q, ok, f) u. snd (send_control_ack E n i q ok f u)) others s1"
    and "parse_control_or_reject E m' s2 = (Inr (sid, p), s2)" "payload_str E m' ''cmd_id'' '''' = c"
  shows "admit_control E m' s2 = (Some a, log_effect (Sent a) s2)"
proof -
  let ?step = "\<lambda>(n, i, q, ok, f) u. snd (send_control_ack E n i q ok f u)"
  obtain ok f u where u: "cs_control_acks u = cs_control_acks s" "send_control_ack E m sid p ok f u = (a, s1)"
    using run_control_sends [OF assms(1,2)] by blast
  have cached: "control_acks_ok (c, sid, op_value p) a 1 s1"
    by (rule send_control_cached [OF u(2) assms(3,4)]) (use assms(5,6) u(1) in simp_all)
  have "list_all (\<lambda>(n, i, q, ok, f). (payload_str E n ''cmd_id'' '''', i, op_value q) \<noteq> (c, sid, op_value p)) others \<Longrightarrow>
      control_acks_ok (c, sid, op_value p) a k u \<Longrightarrow> k + length others \<le> max_processed \<Longrightarrow>
      control_acks_ok (c, sid, op_value p) a (k + length others) (fold ?step others u)" for k u
  proof (induction others arbitrary: k u)
    case (Cons x others)
    obtain n i q ok f where x: "x = (n, i, q, ok, f)" by (metis surj_pair)
    have "control_acks_ok (c, sid, op_value p) a (Suc k) (snd (send_control_ack E n i q ok f u))"
      by (rule send_other_ack [OF Cons.prems(2)]) (use Cons.prems x in auto)
    then show ?case using Cons.IH [of "Suc k"] Cons.prems x by simp
  qed simp
  from this [OF assms(7) cached] have "control_acks_ok (c, sid, op_value p) a (1 + length others) s2" using assms(8,9) by simp
  then show ?thesis using assms(4,10,11) by (simp add: admit_control_def control_acks_ok_def Let_def)
qed

definition carried_out :: "simulation_op \<Rightarrow> tracked_sim \<Rightarrow> ('r, 'w) client \<Rightarrow> nat" where
  "carried_out p t s = count_list (cs_log s) (Controlled p t)"

lemma carried_out_simps [simp]:
  "carried_out p t (log_effect e s) = carried_out p t s + (if e = Controlled p t then 1 else 0)"
  "carried_out p t (snd (answer E f s)) = carried_out p t s" "carried_out p t (s\<lparr>cs_world := w\<rparr>) = carried_out p t s"
  "carried_out p t (s\<lparr>cs_control_acks := ca\<rparr>) = carried_out p t s" "carried_out p t (emit_event E c i ev s) = carried_out p t s"
  by (auto simp: carried_out_def log_effect_def answer_def build_signed_def emit_event_def Let_def split_beta split: prod.split)

lemma carried_out_acks [simp]: "carried_out p t (snd (send_control_ack E m sid q ok f s)) = carried_out p t s"
  "carried_out p t (snd (live_job_state E t' s)) = carried_out p t s"
  by (simp_all add: send_control_ack_def live_job_state_def Let_def split_beta split: option.split sum.split prod.split)

lemma run_control_carries_out:
  assumes "we_control E = Some ctl" "live_gate p t (fst (live_job_state E t u)) = None"
  shows "carried_out p t (snd (run_control E m sid p t u)) = Suc (carried_out p t u)"
  using assms by (simp add: run_control_def Let_def split_beta split: sum.split prod.split)

lemma answered_is_some [simp]: "map_prod Some id x \<noteq> (None, y)"
  by (cases x) simp

text \<open>
  C30: One that is still waiting for the scheduler is not in the cache: a redelivery that arrives meanwhile is
  admitted too, and each of the two carries out the operation if the job is in the state it needs.
\<close>

theorem waiting_control_is_repeated:
  assumes "admit_control E m s = (None, s1)" "rm_payload m' = rm_payload m"
    and "we_control E = Some ctl"
  shows "\<exists>sid p t. cs_tasks (snd (admit_control E m' s1)) = cs_tasks s @ [ControlWaiting m sid p t, ControlWaiting m' sid p t] \<and>
    (\<forall>n \<in> {m, m'}. \<forall>u. live_gate p t (fst (live_job_state E t u)) = None \<longrightarrow>
       carried_out p t (snd (run_control E n sid p t u)) = Suc (carried_out p t u))"
proof -
  obtain res s' where pr: "parse_control_or_reject E m s = (res, s')" by fastforce
  then obtain sid p where res: "res = Inr (sid, p)" using assms(1) by (cases res) (auto simp: admit_control_def)
  then have s': "s' = s" using pr by (auto simp: parse_control_or_reject_def Let_def split_beta split: if_splits option.splits)
  obtain t where t: "map_of (cs_tracked s) sid = Some t" "s1 = add_task (ControlWaiting m sid p t) s" "ts_job_id t \<noteq> None"
    "payload_str E m ''cmd_id'' '''' \<noteq> '''' \<longrightarrow> map_of (cs_control_acks s) (payload_str E m ''cmd_id'' '''', sid, op_value p) = None"
    using assms(1) by (auto simp: admit_control_def pr res s' Let_def split_beta split: if_splits option.splits)
  have same: "payload_str E m' = payload_str E m" "control_doc m' = control_doc m"
    using assms(2) by (simp_all add: payload_str_def control_doc_def fun_eq_iff)
  have caps: "cs_capabilities s1 = cs_capabilities s" by (simp add: t add_task_def)
  have "parse_control_or_reject E m' s1 = (Inr (sid, p), s1)"
    using pr unfolding res s' parse_control_or_reject_def same caps by (auto simp: Let_def split_beta split: if_splits option.splits)
  then have "admit_control E m' s1 = (None, add_task (ControlWaiting m' sid p t) s1)"
    using t by (auto simp: admit_control_def same Let_def add_task_def)
  then have "cs_tasks (snd (admit_control E m' s1)) = cs_tasks s @ [ControlWaiting m sid p t, ControlWaiting m' sid p t]"
    by (simp add: t add_task_def)
  then show ?thesis using run_control_carries_out [OF assms(3)] by blast
qed

definition control_sent :: "nat \<Rightarrow> rcp_message" where
  "control_sent n = sent n (type_value TControl) [(''cmd_id'', JStr ''c9''), (''sim_id'', JStr ''0123abcd''), (''op'', JStr ''checkpoint'')]"

definition sample_run :: tracked_sim where
  "sample_run = new_tracked ''0123abcd'' ''c0'' (Some 7) ''/d'' None ''sbatch''"

definition tracking_client :: "(json, nat) client" where
  "tracking_client = start_client\<lparr>cs_tracked := [(''0123abcd'', sample_run)]\<rparr>"

lemma capabilities_kept:
  "cs_capabilities (snd (run_control E m sid p t s)) = cs_capabilities s"
proof -
  have a [simp]: "cs_capabilities (snd (answer E f u)) = cs_capabilities u" "cs_capabilities (log_effect e u) = cs_capabilities u"
    "cs_capabilities (emit_event E c i ev u) = cs_capabilities u" for f u e c i ev
    by (simp_all add: answer_def build_signed_def log_effect_def emit_event_def Let_def split_beta split: prod.split)
  have b [simp]: "cs_capabilities (snd (live_job_state E t u)) = cs_capabilities u" "cs_capabilities (snd (send_control_ack E n i q ok f u)) = cs_capabilities u"
    for u n i q ok f
    by (simp_all add: live_job_state_def send_control_ack_def Let_def split_beta split: option.split sum.split prod.split)
  show ?thesis by (simp add: run_control_def Let_def split_beta split: option.split sum.split prod.split)
qed

lemma control_sent_parses:
  "cs_capabilities u = current_capabilities ''1'' \<Longrightarrow>
     parse_control_or_reject sample_outside (control_sent n) u = (Inr (''0123abcd'', OpCheckpoint), u)"
  by (simp add: parse_control_or_reject_def control_sent_def sent_def sign_message_def new_message_def payload_str_def get_str_def py_str_def
      control_doc_def validate_control_params_def current_supports_ops parse_op_def all_ops_def)

lemma control_sent_cmd: "payload_str E (control_sent n) ''cmd_id'' '''' = ''c9''"
  by (simp add: control_sent_def sent_def sign_message_def new_message_def payload_str_def get_str_def py_str_def)

lemma tracking_client_simps: "cs_capabilities tracking_client = current_capabilities ''1''" "cs_control_acks tracking_client = []"
  "map_of (cs_tracked tracking_client) ''0123abcd'' = Some sample_run" "cs_tasks tracking_client = []"
  by (simp_all add: tracking_client_def start_client_def new_client_def)

theorem answered_control_is_replayed_witness:
  "\<exists>a s1. run_control sample_outside (control_sent 1) ''0123abcd'' OpCheckpoint sample_run tracking_client = (a, s1) \<and>
     admit_control sample_outside (control_sent 2) s1 = (Some a, log_effect (Sent a) s1)"
proof -
  obtain a s1 where run: "run_control sample_outside (control_sent 1) ''0123abcd'' OpCheckpoint sample_run tracking_client = (a, s1)" by fastforce
  have ctl: "we_control sample_outside = Some (\<lambda>w p t. (Inr '''', w))" by (simp add: sample_outside_def)
  have caps: "cs_capabilities s1 = current_capabilities ''1''"
    using capabilities_kept [of sample_outside "control_sent 1" "''0123abcd''" OpCheckpoint sample_run tracking_client] run
    by (simp add: tracking_client_simps)
  show ?thesis
    using answered_control_is_replayed [OF ctl run control_sent_cmd, of "[]" s1 "control_sent 2"] control_sent_parses [OF caps, of 2] run
    by (simp add: tracking_client_simps control_sent_cmd max_processed_def)
qed

theorem waiting_control_is_repeated_witness:
  "\<exists>s1 sid p t. admit_control sample_outside (control_sent 1) tracking_client = (None, s1) \<and>
     cs_tasks (snd (admit_control sample_outside (control_sent 2) s1)) = [ControlWaiting (control_sent 1) sid p t, ControlWaiting (control_sent 2) sid p t]"
proof -
  have ctl: "we_control sample_outside = Some (\<lambda>w p t. (Inr '''', w))" by (simp add: sample_outside_def)
  have adm: "admit_control sample_outside (control_sent 1) tracking_client =
      (None, add_task (ControlWaiting (control_sent 1) ''0123abcd'' OpCheckpoint sample_run) tracking_client)"
    using control_sent_parses [of tracking_client 1]
    by (simp add: admit_control_def tracking_client_simps control_sent_cmd Let_def) (simp add: sample_run_def new_tracked_def)
  have same: "rm_payload (control_sent 2) = rm_payload (control_sent 1)"
    by (simp add: control_sent_def sent_def sign_message_def new_message_def)
  show ?thesis using waiting_control_is_repeated [OF adm same ctl] adm by (auto simp: tracking_client_simps)
qed


section \<open>The tail of a log\<close>

text \<open>Text whose only line breaks are newlines, with lines no longer than the assumed maximum.\<close>

definition plain_log :: "string \<Rightarrow> bool" where
  "plain_log t \<longleftrightarrow> list_all (\<lambda>c. line_break c \<longrightarrow> c = CHR 0x0A) t \<and> list_all (\<lambda>l. length l < assumed_max_line_bytes) (splitlines t)"

lemma splitlines_one: "w \<noteq> [] \<Longrightarrow> \<forall>c \<in> set w. \<not> line_break c \<Longrightarrow> splitlines w = [w]"
  using lines_acc_no_break [of w "[]" "[]"] by (simp add: splitlines_def)

text \<open>A text is cut behind its last newline, or before its first.\<close>

lemma last_line_split:
  obtains a q where "t = a @ q" "ends_line a" "CHR 0x0A \<notin> set q"
proof
  show "t = rev (dropWhile (\<lambda>c. c \<noteq> CHR 0x0A) (rev t)) @ rev (takeWhile (\<lambda>c. c \<noteq> CHR 0x0A) (rev t))"
    by (metis rev_append rev_rev_ident takeWhile_dropWhile_id)
  show "ends_line (rev (dropWhile (\<lambda>c. c \<noteq> CHR 0x0A) (rev t)))"
    using hd_dropWhile [of "\<lambda>c. c \<noteq> CHR 0x0A" "rev t"] by (auto simp: ends_line_def last_rev)
  show "CHR 0x0A \<notin> set (rev (takeWhile (\<lambda>c. c \<noteq> CHR 0x0A) (rev t)))" by (auto dest: set_takeWhileD)
qed

lemma plain_log_no_break: "plain_log t \<Longrightarrow> CHR 0x0A \<notin> set q \<Longrightarrow> set q \<subseteq> set t \<Longrightarrow> \<forall>c \<in> set q. \<not> line_break c"
  by (auto simp: plain_log_def list_all_iff)

lemma plain_log_append: "plain_log (a @ b) \<Longrightarrow> ends_line a \<Longrightarrow> plain_log a \<and> plain_log b"
  by (simp add: plain_log_def splitlines_append)

text \<open>A piece between newlines lies within a line.\<close>

lemma piece_short:
  assumes "plain_log (a @ p @ s)" "CHR 0x0A \<notin> set p" "p \<noteq> []" "s = [] \<or> (\<exists>r. s = CHR 0x0A # r)"
  shows "length p < assumed_max_line_bytes"
proof -
  obtain b q where b: "a = b @ q" "ends_line b" "CHR 0x0A \<notin> set q" by (rule last_line_split)
  have pl: "plain_log (q @ p @ s)" using plain_log_append [of b "q @ p @ s"] assms(1) b by simp
  have nb: "\<forall>c \<in> set (q @ p). \<not> line_break c" by (rule plain_log_no_break [OF pl]) (use b assms(2) in auto)
  have "q @ p \<in> set (splitlines (q @ p @ s))"
    using assms(3,4) nb splitlines_one [of "q @ p"] splitlines_line [of "q @ p"] by auto
  then show ?thesis using pl by (auto simp: plain_log_def list_all_iff)
qed

lemma plain_log_length: "plain_log t \<Longrightarrow> length t \<le> assumed_max_line_bytes * length (splitlines t)"
proof (induction t rule: length_induct)
  case (1 t)
  show ?case
  proof (cases "CHR 0x0A \<in> set t")
    case False
    then show ?thesis
      using splitlines_one [of t] plain_log_no_break [OF 1(2) False] piece_short [of "[]" t "[]"] 1(2) by (cases "t = []") auto
  next
    case True
    then obtain w r where t: "t = w @ CHR 0x0A # r" "CHR 0x0A \<notin> set w" by (meson split_list_first)
    have nb: "\<forall>c \<in> set w. \<not> line_break c" by (rule plain_log_no_break [OF 1(2)]) (use t in auto)
    have pr: "plain_log r" using plain_log_append [of "w @ [CHR 0x0A]" r] 1(2) t by (simp add: ends_line_def)
    have "length w < assumed_max_line_bytes" using piece_short [of "[]" w "CHR 0x0A # r"] 1(2) t by (cases "w = []") (auto simp: assumed_max_line_bytes_def)
    moreover have "length r \<le> assumed_max_line_bytes * length (splitlines r)" using 1(1) pr t by simp
    ultimately show ?thesis by (simp add: t splitlines_line [OF nb])
  qed
qed

lemma last_lines_append: "n \<le> length b \<Longrightarrow> last_lines n (a @ b) = last_lines n b"
  by (simp add: last_lines_def)

text \<open>
  C31: The bounded read of a log's tail is exact: for text broken by newlines only, with lines shorter than 4096
  bytes, and up to 2047 lines, it returns what reading the whole file would, although it reads no more than
  4096 bytes per line and one more.
\<close>

theorem tail_is_exact:
  assumes "plain_log t" "n \<le> 2047"
  shows "fst (read_tail (Some t) n) = last_lines n (splitlines t)"
proof (cases "length t - tail_window n > 0 \<and> n > 0")
  case False
  then show ?thesis by (auto simp: read_tail_def Let_def last_lines_def)
next
  case True
  let ?start = "length t - tail_window n"
  have win: "tail_window n = n * assumed_max_line_bytes + 1"
    using assms(2) True by (simp add: tail_window_def max_log_read_bytes_def assumed_max_line_bytes_def)
  define data where "data = drop ?start t"
  have t: "t = take ?start t @ data" by (simp add: data_def)
  have len: "length data = n * assumed_max_line_bytes + 1" using True win by (simp add: data_def)
  have nl: "CHR 0x0A \<in> set data"
  proof (rule ccontr)
    assume "CHR 0x0A \<notin> set data"
    then have "length data < assumed_max_line_bytes"
      using piece_short [of "take ?start t" data "[]"] assms(1) t len by (cases "data = []") auto
    then show False using len True by (simp add: assumed_max_line_bytes_def)
  qed
  then obtain p r where d: "data = p @ CHR 0x0A # r" "CHR 0x0A \<notin> set p" by (meson split_list_first)
  have r: "tl (dropWhile (\<lambda>c. c \<noteq> CHR 0x0A) data) = r" using d by (simp add: dropWhile_append)
  have whole: "t = (take ?start t @ p @ [CHR 0x0A]) @ r" using t d by simp
  have ends: "ends_line (take ?start t @ p @ [CHR 0x0A])" by (simp add: ends_line_def)
  have "length p < assumed_max_line_bytes"
    using piece_short [of "take ?start t" p "CHR 0x0A # r"] assms(1) t d by (cases "p = []") (auto simp: assumed_max_line_bytes_def)
  then have "(n - 1) * assumed_max_line_bytes < length r"
    using len d True by (cases n) (auto simp: assumed_max_line_bytes_def)
  moreover have "plain_log r" using plain_log_append [of "take ?start t @ p @ [CHR 0x0A]" r] assms(1) whole ends by metis
  ultimately have "(n - 1) * assumed_max_line_bytes < assumed_max_line_bytes * length (splitlines r)"
    using plain_log_length [of r] less_le_trans by blast
  then have "n \<le> length (splitlines r)" by (simp add: assumed_max_line_bytes_def)
  then have "last_lines n (splitlines t) = last_lines n (splitlines r)"
    using splitlines_append [OF ends, of r] whole last_lines_append by metis
  then show ?thesis using True nl r by (simp add: read_tail_def Let_def data_def [symmetric])
qed

lemma splitlines_newlines: "splitlines (replicate k CHR 0x0A @ s) = replicate k [] @ splitlines s"
  by (induction k) (simp_all add: splitlines_line [of "[]", simplified])

theorem tail_is_exact_witness:
  "fst (read_tail (Some (replicate 5000 CHR 0x0A @ ''last'')) 1) = [''last'']"
proof -
  let ?t = "replicate 5000 CHR 0x0A @ ''last''"
  have l: "splitlines ''last'' = [''last'']" by code_simp
  have "list_all (\<lambda>c. line_break c \<longrightarrow> c = CHR 0x0A) ''last''" by code_simp
  then have "plain_log ?t" unfolding plain_log_def splitlines_newlines l
    by (simp add: list_all_iff assumed_max_line_bytes_def)
  then show ?thesis using tail_is_exact [of ?t 1] unfolding splitlines_newlines l by (simp add: last_lines_def)
qed

end
