(* ===== verification/AnalysisProgram.thy ===== *)
theory AnalysisProgram
  imports SimResults "HOL-Library.While_Combinator"
begin

text \<open>
  \<open>analysis_program.py\<close>: the expression trees a result request may carry in place of code. A closed set of
  node kinds, read from JSON with unknown fields refused, and the limits on the whole program.
\<close>

section \<open>Nodes\<close>

datatype binary_op = BinAdd | BinSub | BinMul | BinDiv | BinPow

fun binary_value :: "binary_op \<Rightarrow> string" where
  "binary_value BinAdd = ''add''"
| "binary_value BinSub = ''sub''"
| "binary_value BinMul = ''mul''"
| "binary_value BinDiv = ''div''"
| "binary_value BinPow = ''pow''"

datatype unary_op = UnNeg | UnAbs | UnSqrt | UnLog | UnExp | UnSin | UnCos | UnTanh | UnSign

fun unary_value :: "unary_op \<Rightarrow> string" where
  "unary_value UnNeg = ''neg''"
| "unary_value UnAbs = ''abs''"
| "unary_value UnSqrt = ''sqrt''"
| "unary_value UnLog = ''log''"
| "unary_value UnExp = ''exp''"
| "unary_value UnSin = ''sin''"
| "unary_value UnCos = ''cos''"
| "unary_value UnTanh = ''tanh''"
| "unary_value UnSign = ''sign''"

datatype reduce_op =
    RedSum | RedMean | RedStd | RedMin | RedMax | RedMedian | RedArgmax | RedArgmin | RedQuantile | RedHistogram | RedFftPeak | RedFftFreq

fun reduce_value :: "reduce_op \<Rightarrow> string" where
  "reduce_value RedSum = ''sum''"
| "reduce_value RedMean = ''mean''"
| "reduce_value RedStd = ''std''"
| "reduce_value RedMin = ''min''"
| "reduce_value RedMax = ''max''"
| "reduce_value RedMedian = ''median''"
| "reduce_value RedArgmax = ''argmax''"
| "reduce_value RedArgmin = ''argmin''"
| "reduce_value RedQuantile = ''quantile''"
| "reduce_value RedHistogram = ''histogram''"
| "reduce_value RedFftPeak = ''fft_peak''"
| "reduce_value RedFftFreq = ''fft_freq''"

definition binary_ops :: "binary_op list" where
  "binary_ops = [BinAdd, BinSub, BinMul, BinDiv, BinPow]"

definition unary_ops :: "unary_op list" where
  "unary_ops = [UnNeg, UnAbs, UnSqrt, UnLog, UnExp, UnSin, UnCos, UnTanh, UnSign]"

definition reduce_ops :: "reduce_op list" where
  "reduce_ops = [RedSum, RedMean, RedStd, RedMin, RedMax, RedMedian, RedArgmax, RedArgmin, RedQuantile, RedHistogram, RedFftPeak, RedFftFreq]"

text \<open>A \<open>Literal\<close> field: the constructor whose text it is.\<close>

definition literal_field :: "('a \<Rightarrow> string) \<Rightarrow> 'a list \<Rightarrow> json \<Rightarrow> 'a option" where
  "literal_field f xs v = (case v of JStr s \<Rightarrow> map_of (map (\<lambda>x. (f x, x)) xs) s | _ \<Rightarrow> None)"

lemma literal_round_trip: "distinct (map f xs) \<Longrightarrow> x \<in> set xs \<Longrightarrow> literal_field f xs (JStr (f x)) = Some x"
  by (simp add: literal_field_def comp_def image_iff)

record var_ref =
  vr_name :: string
  vr_record :: "string option"
  vr_component :: "string option"
  vr_iteration :: "json option"

datatype expr =
    Const pyfloat
  | Var var_ref
  | BinOp binary_op expr expr
  | UnOp unary_op expr
  | Reduce reduce_op expr "pyfloat option" "int option"

definition max_nodes :: nat where
  "max_nodes = 256"

definition max_depth :: nat where
  "max_depth = 32"

definition max_selectors :: nat where
  "max_selectors = 8"

definition max_exponent :: int where
  "max_exponent = 12"

definition max_bins :: int where
  "max_bins = 4096"

definition max_points_out :: nat where
  "max_points_out = 4096"

section \<open>Field validators\<close>

text \<open>\<open>str.isalnum\<close> on the characters up to 255.\<close>

definition py_isalnum :: "char \<Rightarrow> bool" where
  "py_isalnum c = (alnum c \<or> (let n = char_nat c in n \<in> {170, 178, 179, 181, 185, 186, 188, 189, 190} \<or>
     (192 \<le> n \<and> n \<noteq> 215 \<and> n \<noteq> 247)))"

definition name_safe :: "string \<Rightarrow> bool" where
  "name_safe s = (s \<noteq> '''' \<and> list_all (\<lambda>c. py_isalnum c \<or> c = CHR ''.'' \<or> c = CHR ''_'' \<or> c = CHR ''-'') s)"

definition q_range :: "pyfloat \<Rightarrow> bool" where
  "q_range q = (fle (Fin 0) q \<and> fle q (Fin 1))"

definition bins_range :: "int \<Rightarrow> bool" where
  "bins_range b = (1 \<le> b \<and> b \<le> max_bins)"

definition var_ref_ok :: "var_ref \<Rightarrow> bool" where
  "var_ref_ok r = (name_safe (vr_name r) \<and> opt_all name_safe (vr_record r) \<and> opt_all name_safe (vr_component r))"

definition only_fields :: "string list \<Rightarrow> (string \<times> json) list \<Rightarrow> bool" where
  "only_fields names kvs = list_all (\<lambda>k. k \<in> set names) (keys kvs)"

text \<open>Reading one \<open>VarRef\<close>; as a selector it may leave \<open>kind\<close> out, as a node of the union it may not.\<close>

definition validate_var_ref :: "sim_lib \<Rightarrow> (string \<times> json) list \<Rightarrow> var_ref option" where
  "validate_var_ref L kvs =
     (if \<not> only_fields [''kind'', ''name'', ''record'', ''component'', ''iteration''] kvs \<or>
         defaulted kvs ''kind'' str_field ''var'' \<noteq> Some ''var'' then None
      else case (required kvs ''name'' str_field, defaulted kvs ''record'' opt_str_field None, defaulted kvs ''component'' opt_str_field None,
                 defaulted kvs ''iteration'' (opt_field (iteration_field L)) None) of
        (Some n, Some re, Some co, Some it) \<Rightarrow>
          (let r = \<lparr>vr_name = n, vr_record = re, vr_component = co, vr_iteration = it\<rparr> in if var_ref_ok r then Some r else None)
      | _ \<Rightarrow> None)"

section \<open>Reading an expression\<close>

definition sub_json :: "(string \<times> json) list \<Rightarrow> string \<Rightarrow> json" where
  "sub_json kvs k = (case map_of kvs k of None \<Rightarrow> JNull | Some v \<Rightarrow> v)"

lemma sub_json_size [termination_simp]: "size (sub_json kvs k) < Suc (size_list (\<lambda>x. Suc (size (snd x))) kvs)"
proof (cases "map_of kvs k")
  case (Some v)
  then have "size v \<le> size_list (\<lambda>x. Suc (size (snd x))) kvs"
    using size_list_estimation' [OF map_of_SomeD, of kvs k v "size v" "\<lambda>x. Suc (size (snd x))"] by simp
  then show ?thesis using Some by (simp add: sub_json_def)
qed (simp add: sub_json_def)

fun parse_expr :: "sim_lib \<Rightarrow> (json \<Rightarrow> pyfloat option) \<Rightarrow> json \<Rightarrow> expr option" where
  "parse_expr L lax_float (JObj kvs) =
     (if map_of kvs ''kind'' = Some (JStr ''const'') then
        (if only_fields [''kind'', ''value''] kvs
         then (case required kvs ''value'' lax_float of None \<Rightarrow> None | Some x \<Rightarrow> if is_fin x then Some (Const x) else None) else None)
      else if map_of kvs ''kind'' = Some (JStr ''var'') then map_option Var (validate_var_ref L kvs)
      else if map_of kvs ''kind'' = Some (JStr ''binop'') then
        (if only_fields [''kind'', ''op'', ''left'', ''right''] kvs
         then (case (required kvs ''op'' (literal_field binary_value binary_ops), parse_expr L lax_float (sub_json kvs ''left''),
                     parse_expr L lax_float (sub_json kvs ''right'')) of
            (Some p, Some a, Some b) \<Rightarrow> Some (BinOp p a b) | _ \<Rightarrow> None) else None)
      else if map_of kvs ''kind'' = Some (JStr ''unop'') then
        (if only_fields [''kind'', ''op'', ''operand''] kvs
         then (case (required kvs ''op'' (literal_field unary_value unary_ops), parse_expr L lax_float (sub_json kvs ''operand'')) of
            (Some p, Some a) \<Rightarrow> Some (UnOp p a) | _ \<Rightarrow> None) else None)
      else if map_of kvs ''kind'' = Some (JStr ''reduce'') then
        (if only_fields [''kind'', ''op'', ''operand'', ''q'', ''bins''] kvs
         then (case (required kvs ''op'' (literal_field reduce_value reduce_ops), parse_expr L lax_float (sub_json kvs ''operand''),
                     defaulted kvs ''q'' (opt_field lax_float) None, defaulted kvs ''bins'' (opt_field (sl_lax_int L)) None) of
            (Some p, Some a, Some q, Some b) \<Rightarrow> if opt_all q_range q \<and> opt_all bins_range b then Some (Reduce p a q b) else None
          | _ \<Rightarrow> None) else None)
      else None)"
| "parse_expr L lax_float v = None"

section \<open>The whole program\<close>

record program =
  an_output :: expr
  an_selectors :: "var_ref list"
  an_points :: "expr option"

definition node_exponent :: "expr \<Rightarrow> int" where
  "node_exponent e = (case e of BinOp BinPow a (Const (Fin q)) \<Rightarrow> \<lfloor>\<bar>q\<bar>\<rfloor> | _ \<Rightarrow> 0)"

text \<open>\<open>_measure\<close>: node count, greatest depth, greatest literal exponent.\<close>

fun measure_expr :: "expr \<Rightarrow> nat \<Rightarrow> nat \<times> nat \<times> int" where
  "measure_expr (BinOp p a b) d =
     (case measure_expr a (Suc d) of (n1, d1, x1) \<Rightarrow> case measure_expr b (Suc d) of (n2, d2, x2) \<Rightarrow>
        (1 + n1 + n2, max (max d d1) d2, max (max (node_exponent (BinOp p a b)) x1) x2))"
| "measure_expr (UnOp p a) d = (case measure_expr a (Suc d) of (n1, d1, x1) \<Rightarrow> (1 + n1, max d d1, max 0 x1))"
| "measure_expr (Reduce p a q b) d = (case measure_expr a (Suc d) of (n1, d1, x1) \<Rightarrow> (1 + n1, max d d1, max 0 x1))"
| "measure_expr e d = (1, d, 0)"

text \<open>
  \<open>_iter_var_refs\<close>: a loop over a stack, kept as the code keeps it. The child pushed last is popped first, so the
  references come out as \<open>var_refs\<close> lists them.
\<close>

fun children :: "expr \<Rightarrow> expr list" where
  "children (BinOp p a b) = [a, b]"
| "children (UnOp p a) = [a]"
| "children (Reduce p a q b) = [a]"
| "children e = []"

definition stack_step :: "expr list \<times> var_ref list \<Rightarrow> expr list \<times> var_ref list" where
  "stack_step s = (case s of (stack, refs) \<Rightarrow>
     (butlast stack @ children (last stack), refs @ (case last stack of Var r \<Rightarrow> [r] | _ \<Rightarrow> [])))"

definition iter_var_refs :: "expr \<Rightarrow> var_ref list option" where
  "iter_var_refs e = map_option snd (while_option (\<lambda>s. fst s \<noteq> []) stack_step ([e], []))"

fun var_refs :: "expr \<Rightarrow> var_ref list" where
  "var_refs (Const x) = []"
| "var_refs (Var r) = [r]"
| "var_refs (BinOp p a b) = var_refs b @ var_refs a"
| "var_refs (UnOp p a) = var_refs a"
| "var_refs (Reduce p a q b) = var_refs a"

definition ref_attrs :: "var_ref \<Rightarrow> string option \<times> string option \<times> json option" where
  "ref_attrs r = (vr_record r, vr_component r, vr_iteration r)"

definition expressions :: "program \<Rightarrow> expr list" where
  "expressions p = an_output p # (case an_points p of None \<Rightarrow> [] | Some e \<Rightarrow> [e])"

definition declared_by_name :: "program \<Rightarrow> (string \<times> var_ref) list" where
  "declared_by_name p = dict_of (map (\<lambda>r. (vr_name r, r)) (an_selectors p))"

definition differ :: "'a option \<Rightarrow> 'a option \<Rightarrow> bool" where
  "differ x y = (x \<noteq> None \<and> y \<noteq> None \<and> x \<noteq> y)"

definition declared_conflict :: "(string \<times> var_ref) list \<Rightarrow> var_ref \<Rightarrow> bool" where
  "declared_conflict declared r = (case map_of declared (vr_name r) of
     None \<Rightarrow> False
   | Some s \<Rightarrow> differ (vr_record r) (vr_record s) \<or> differ (vr_component r) (vr_component s) \<or> differ (vr_iteration r) (vr_iteration s))"

text \<open>The scan over all references, with the dict of those seen; true when one is rejected.\<close>

fun attribute_conflict :: "(string \<times> var_ref) list \<Rightarrow> (string \<times> var_ref) list \<Rightarrow> var_ref list \<Rightarrow> bool" where
  "attribute_conflict declared sofar [] = False"
| "attribute_conflict declared sofar (r # rs) =
     (declared_conflict declared r \<or>
      (case map_of sofar (vr_name r) of
         None \<Rightarrow> attribute_conflict declared (AList.update (vr_name r) r sofar) rs
       | Some prev \<Rightarrow> ref_attrs prev \<noteq> ref_attrs r \<or> attribute_conflict declared sofar rs))"

fun limits_ok :: "nat \<Rightarrow> expr list \<Rightarrow> bool" where
  "limits_ok n [] = True"
| "limits_ok n (e # es) = (case measure_expr e 1 of (k, d, x) \<Rightarrow>
     n + k \<le> max_nodes \<and> d \<le> max_depth \<and> x \<le> max_exponent \<and> limits_ok (n + k) es)"

definition selector_cap :: "var_ref list \<Rightarrow> bool" where
  "selector_cap rs = (length rs \<le> max_selectors \<and> distinct (map vr_name rs))"

definition program_ok :: "program \<Rightarrow> bool" where
  "program_ok p = (selector_cap (an_selectors p) \<and> limits_ok 0 (expressions p) \<and>
     \<not> attribute_conflict (declared_by_name p) [] (concat (map var_refs (expressions p))))"

definition selectors_field :: "sim_lib \<Rightarrow> json \<Rightarrow> var_ref list option" where
  "selectors_field L v = (case v of JList vs \<Rightarrow> all_some (map (\<lambda>v. case v of JObj kvs \<Rightarrow> validate_var_ref L kvs | _ \<Rightarrow> None) vs) | _ \<Rightarrow> None)"

definition validate_program :: "sim_lib \<Rightarrow> (json \<Rightarrow> pyfloat option) \<Rightarrow> json \<Rightarrow> program option" where
  "validate_program L lax_float v = (case v of
     JObj kvs \<Rightarrow>
       (if \<not> only_fields [''output'', ''selectors'', ''points''] kvs then None
        else case (required kvs ''output'' (parse_expr L lax_float), defaulted kvs ''selectors'' (selectors_field L) [],
                   defaulted kvs ''points'' (opt_field (parse_expr L lax_float)) None) of
          (Some e, Some rs, Some pts) \<Rightarrow>
            (let p = \<lparr>an_output = e, an_selectors = rs, an_points = pts\<rparr> in if program_ok p then Some p else None)
        | _ \<Rightarrow> None)
   | _ \<Rightarrow> None)"


section \<open>What the limits give\<close>

fun expr_size :: "expr \<Rightarrow> nat" where
  "expr_size (BinOp p a b) = 1 + expr_size a + expr_size b"
| "expr_size (UnOp p a) = 1 + expr_size a"
| "expr_size (Reduce p a q b) = 1 + expr_size a"
| "expr_size e = 1"

lemma measure_size: "fst (measure_expr e d) = expr_size e"
  by (induction e arbitrary: d) (auto split: prod.split, metis fst_conv, metis fst_conv, metis fst_conv)

lemma limits_total: "limits_ok n es \<Longrightarrow> n + sum_list (map expr_size es) \<le> max_nodes \<or> es = []"
proof (induction es arbitrary: n)
  case (Cons e es)
  obtain k d x where m: "measure_expr e 1 = (k, d, x)" by (metis surj_pair)
  then have "k = expr_size e" using measure_size [of e 1] by simp
  then show ?case using Cons.prems Cons.IH [of "n + k"] m by auto
qed simp

text \<open>References to one name agree, which is why an evaluator may resolve a name once.\<close>

lemma no_conflict_cons:
  assumes "\<not> attribute_conflict declared sofar (r # rs)"
  obtains sofar' prev where "\<not> attribute_conflict declared sofar' rs" "map_of sofar' (vr_name r) = Some prev" "ref_attrs prev = ref_attrs r"
    "\<And>k s. map_of sofar k = Some s \<Longrightarrow> map_of sofar' k = Some s"
proof (cases "map_of sofar (vr_name r)")
  case None
  show thesis
    by (rule that [of "AList.update (vr_name r) r sofar" r]) (use assms None in \<open>auto split: if_splits\<close>)
next
  case (Some prev)
  then show thesis using assms that [of sofar prev] by auto
qed

lemma no_conflict_seen:
  "\<not> attribute_conflict declared sofar rs \<Longrightarrow> map_of sofar (vr_name r) = Some s \<Longrightarrow> r \<in> set rs \<Longrightarrow> ref_attrs r = ref_attrs s"
proof (induction rs arbitrary: sofar)
  case (Cons r' rs)
  obtain sofar' prev where s: "\<not> attribute_conflict declared sofar' rs" "map_of sofar' (vr_name r') = Some prev" "ref_attrs prev = ref_attrs r'"
    "\<And>k s. map_of sofar k = Some s \<Longrightarrow> map_of sofar' k = Some s" by (rule no_conflict_cons [OF Cons.prems(1)]) blast
  show ?case
  proof (cases "r = r'")
    case True
    then show ?thesis using s(2,3) s(4) [OF Cons.prems(2)] by simp
  next
    case False
    then show ?thesis using Cons.IH [OF s(1) s(4) [OF Cons.prems(2)]] Cons.prems(3) by simp
  qed
qed simp

lemma no_conflict_agree:
  "\<not> attribute_conflict declared sofar rs \<Longrightarrow> r \<in> set rs \<Longrightarrow> s \<in> set rs \<Longrightarrow> vr_name r = vr_name s \<Longrightarrow> ref_attrs r = ref_attrs s"
proof (induction rs arbitrary: sofar)
  case (Cons r' rs)
  obtain sofar' prev where s: "\<not> attribute_conflict declared sofar' rs" "map_of sofar' (vr_name r') = Some prev" "ref_attrs prev = ref_attrs r'"
    by (rule no_conflict_cons [OF Cons.prems(1)]) blast
  have same: "ref_attrs t = ref_attrs r'" if "t \<in> set rs" "vr_name t = vr_name r'" for t
    using no_conflict_seen [OF s(1), of t prev] that s(2,3) by simp
  show ?case
  proof (cases "r = r' \<or> s = r'")
    case True
    then show ?thesis using same [of r] same [of s] Cons.prems(2-4) by auto
  next
    case False
    then show ?thesis using Cons.IH [OF s(1)] Cons.prems(2-4) by simp
  qed
qed simp

lemma var_refs_parsed: "parse_expr L lf v = Some e \<Longrightarrow> \<forall>r \<in> set (var_refs e). var_ref_ok r"
proof (induction L lf v arbitrary: e rule: parse_expr.induct)
  case (1 L lf kvs)
  have var: "validate_var_ref L kvs = Some r \<Longrightarrow> var_ref_ok r" for r
    by (auto simp: validate_var_ref_def Let_def split: if_splits option.splits)
  show ?case using "1.prems" "1.IH" var by (auto split: if_splits option.splits)
qed auto


section \<open>The stack loop\<close>

lemma children_refs: "concat (map var_refs (rev (children e))) = (case e of Var r \<Rightarrow> [] | _ \<Rightarrow> var_refs e)"
  by (cases e) simp_all

definition stack_size :: "expr list \<times> var_ref list \<Rightarrow> nat" where
  "stack_size s = sum_list (map expr_size (fst s))"

lemma stack_step_shrinks: "fst s \<noteq> [] \<Longrightarrow> Suc (stack_size (stack_step s)) = stack_size s"
proof -
  obtain stack refs where s: "s = (stack, refs)" by (cases s)
  assume "fst s \<noteq> []"
  then obtain st e where stack: "stack = st @ [e]" using s by (metis fst_conv rev_exhaust)
  show ?thesis by (cases e) (simp_all add: s stack stack_size_def stack_step_def)
qed

lemma stack_size_0 [simp]: "stack_size s = 0 \<longleftrightarrow> fst s = []"
proof -
  have "expr_size e \<noteq> 0" for e by (cases e) simp_all
  then show ?thesis by (cases "fst s") (auto simp: stack_size_def)
qed

definition refs_left :: "expr list \<times> var_ref list \<Rightarrow> var_ref list" where
  "refs_left s = snd s @ concat (map var_refs (rev (fst s)))"

lemma stack_step_keeps: "fst s \<noteq> [] \<Longrightarrow> refs_left (stack_step s) = refs_left s"
proof -
  obtain stack refs where s: "s = (stack, refs)" by (cases s)
  assume "fst s \<noteq> []"
  then obtain st e where stack: "stack = st @ [e]" using s by (metis fst_conv rev_exhaust)
  show ?thesis using children_refs [of e] by (cases e) (simp_all add: s stack refs_left_def stack_step_def)
qed

lemma stack_rounds:
  "stack_size s = n \<Longrightarrow> (stack_step ^^ n) s = ([], refs_left s) \<and> (\<forall>j < n. fst ((stack_step ^^ j) s) \<noteq> [])"
proof (induction n arbitrary: s)
  case 0
  then show ?case by (cases s) (simp add: refs_left_def)
next
  case (Suc n)
  then have ne: "fst s \<noteq> []" using stack_size_0 [of s] by auto
  then have IH: "(stack_step ^^ n) (stack_step s) = ([], refs_left s) \<and> (\<forall>j < n. fst ((stack_step ^^ j) (stack_step s)) \<noteq> [])"
    using Suc.IH [of "stack_step s"] Suc.prems stack_step_shrinks [OF ne] stack_step_keeps [OF ne] by simp
  have "fst ((stack_step ^^ j) s) \<noteq> []" if "j < Suc n" for j
    using that ne IH by (cases j) (simp_all add: funpow_swap1)
  then show ?case using IH by (simp add: funpow_swap1)
qed

lemma iter_var_refs_spec: "iter_var_refs e = Some (var_refs e)"
proof -
  let ?run = "while_option (\<lambda>s. fst s \<noteq> []) stack_step ([e], [])"
  have "\<exists>t. True \<and> ?run = Some t"
    using measure_while_option_Some [of "\<lambda>_. True" "\<lambda>s. fst s \<noteq> []" stack_step stack_size "([e], [])"]
      stack_step_shrinks by (metis lessI)
  then obtain t where t: "?run = Some t" by blast
  have "refs_left t = var_refs e"
    by (rule while_option_rule [where P = "\<lambda>s. refs_left s = var_refs e", OF _ t]) (simp add: stack_step_keeps, simp add: refs_left_def)
  moreover have "fst t = []" using while_option_stop [OF t] by simp
  ultimately show ?thesis by (simp add: iter_var_refs_def t refs_left_def)
qed

text \<open>The code's checks walk the stack: what they see is \<open>var_refs\<close>.\<close>

lemma validated_program_ok: "validate_program L lf v = Some p \<Longrightarrow> program_ok p"
  by (auto simp: validate_program_def Let_def split: json.splits if_splits option.splits)

lemma validated_size:
  assumes "validate_program L lf v = Some p" "e \<in> set (expressions p)"
  shows "expr_size e \<le> max_nodes"
proof -
  have "limits_ok 0 (expressions p)" using validated_program_ok [OF assms(1)] by (simp add: program_ok_def)
  then have "sum_list (map expr_size (expressions p)) \<le> max_nodes" using limits_total [of 0 "expressions p"] assms(2) by auto
  then show ?thesis using member_le_sum_list [of "expr_size e" "map expr_size (expressions p)"] assms(2) by simp
qed

lemma validated_refs_agree:
  assumes "validate_program L lf v = Some p" "e \<in> set (expressions p)" "r \<in> set (var_refs e)" "s \<in> set (var_refs e)" "vr_name r = vr_name s"
  shows "ref_attrs r = ref_attrs s"
proof -
  have "\<not> attribute_conflict (declared_by_name p) [] (concat (map var_refs (expressions p)))"
    using validated_program_ok [OF assms(1)] by (simp add: program_ok_def)
  then show ?thesis by (rule no_conflict_agree) (use assms in auto)
qed

end
