(* ===== verification/AnalysisEval.thy ===== *)
theory AnalysisEval
  imports AnalysisProgram SimSubmit
begin

text \<open>
  \<open>analysis_eval.py\<close>: the evaluator of an analysis program. A value is a scalar or a list of floats; the
  numeric kernels of the math library are parameters, the arithmetic of floats is not.
\<close>

section \<open>Values, errors and kernels\<close>

datatype an_value = Scalar pyfloat | Array "pyfloat list"

text \<open>
  Why an operation raised: operands of different lengths, or the text of a numeric exception. \<open>ProgramError\<close> in
  its several forms, and an exception that the evaluator lets through.
\<close>

datatype reason = LengthMismatch nat nat | Numeric string

datatype eval_error =
    Unresolved string string
  | NoData string
  | PowNotScalar
  | ZeroToNegative
  | BinaryFailed binary_op reason
  | UnaryFailed unary_op string
  | EmptyReduction reduce_op
  | TooManyPoints nat
  | Uncaught string

text \<open>
  The kernels, each with the text of its exception: the unary functions of \<open>math\<close>, float \<open>**\<close> (a complex result
  raises too, when it is converted), the text of a division by zero, \<open>fsum\<close>, \<open>pstdev\<close>, \<open>sorted\<close> of a list with a
  NaN, one DFT bin, and the conversion of a float to \<open>int\<close> that is not finite.
\<close>

record kernels =
  kn_unary :: "unary_op \<Rightarrow> pyfloat \<Rightarrow> string + pyfloat"
  kn_pow :: "pyfloat \<Rightarrow> pyfloat \<Rightarrow> string + pyfloat"
  kn_div_zero :: string
  kn_fsum :: "pyfloat list \<Rightarrow> string + pyfloat"
  kn_pstdev :: "pyfloat list \<Rightarrow> string + pyfloat"
  kn_sort_nan :: "pyfloat list \<Rightarrow> pyfloat list"
  kn_dft_bin :: "pyfloat list \<Rightarrow> nat \<Rightarrow> string + pyfloat"
  kn_int_error :: string

fun map_res :: "('a \<Rightarrow> 'e + 'b) \<Rightarrow> 'a list \<Rightarrow> 'e + 'b list" where
  "map_res f [] = Inr []"
| "map_res f (x # xs) = bind_res (f x) (\<lambda>y. bind_res (map_res f xs) (\<lambda>ys. Inr (y # ys)))"

lemma map_res_Inr: "map_res f xs = Inr ys \<Longrightarrow> length ys = length xs \<and> list_all2 (\<lambda>x y. f x = Inr y) xs ys"
  by (induction xs arbitrary: ys) (auto simp: bind_res_Inr_iff)

lemma map_res_total: "(\<And>x. x \<in> set xs \<Longrightarrow> f x = Inr (g x)) \<Longrightarrow> map_res f xs = Inr (map g xs)"
  by (induction xs) auto

section \<open>Elementwise operations\<close>

definition binary_fn :: "kernels \<Rightarrow> binary_op \<Rightarrow> pyfloat \<Rightarrow> pyfloat \<Rightarrow> reason + pyfloat" where
  "binary_fn K p x y = (case p of
     BinAdd \<Rightarrow> Inr (fadd x y)
   | BinSub \<Rightarrow> Inr (fsub x y)
   | BinMul \<Rightarrow> Inr (fmul x y)
   | BinDiv \<Rightarrow> (case fdiv x y of None \<Rightarrow> Inl (Numeric (kn_div_zero K)) | Some z \<Rightarrow> Inr z)
   | BinPow \<Rightarrow> (case kn_pow K x y of Inl e \<Rightarrow> Inl (Numeric e) | Inr z \<Rightarrow> Inr z))"

definition combine :: "kernels \<Rightarrow> binary_op \<Rightarrow> an_value \<Rightarrow> an_value \<Rightarrow> reason + an_value" where
  "combine K p a b = (case (a, b) of
     (Array xs, Array ys) \<Rightarrow>
       (if length xs \<noteq> length ys then Inl (LengthMismatch (length xs) (length ys))
        else bind_res (map_res (\<lambda>(x, y). binary_fn K p x y) (zip xs ys)) (\<lambda>zs. Inr (Array zs)))
   | (Array xs, Scalar y) \<Rightarrow> bind_res (map_res (\<lambda>x. binary_fn K p x y) xs) (\<lambda>zs. Inr (Array zs))
   | (Scalar x, Array ys) \<Rightarrow> bind_res (map_res (\<lambda>y. binary_fn K p x y) ys) (\<lambda>zs. Inr (Array zs))
   | (Scalar x, Scalar y) \<Rightarrow> bind_res (binary_fn K p x y) (\<lambda>z. Inr (Scalar z)))"

definition tiny :: pyfloat where
  "tiny = rnd (1 / 10 ^ 300)"

definition binary_value_of :: "kernels \<Rightarrow> binary_op \<Rightarrow> an_value \<Rightarrow> an_value \<Rightarrow> eval_error + an_value" where
  "binary_value_of K p a b =
     (if p = BinPow \<and> (case b of Scalar y \<Rightarrow> False | Array ys \<Rightarrow> True) then Inl PowNotScalar
      else if p = BinPow \<and> (case (a, b) of (Scalar x, Scalar y) \<Rightarrow> isclose x (Fin 0) tiny \<and> flt y (Fin 0) | _ \<Rightarrow> False) then Inl ZeroToNegative
      else (case combine K p a b of Inl r \<Rightarrow> Inl (BinaryFailed p r) | Inr v \<Rightarrow> Inr v))"

definition sign_of :: "pyfloat \<Rightarrow> pyfloat" where
  "sign_of x = Fin (of_int ((if flt (Fin 0) x then 1 else 0) - (if flt x (Fin 0) then 1 else 0)))"

definition unary_fn :: "kernels \<Rightarrow> unary_op \<Rightarrow> pyfloat \<Rightarrow> string + pyfloat" where
  "unary_fn K p x = (case p of UnNeg \<Rightarrow> Inr (fneg x) | UnAbs \<Rightarrow> Inr (fabs x) | UnSign \<Rightarrow> Inr (sign_of x) | _ \<Rightarrow> kn_unary K p x)"

definition unary_value_of :: "kernels \<Rightarrow> unary_op \<Rightarrow> an_value \<Rightarrow> eval_error + an_value" where
  "unary_value_of K p v = (case v of
     Array xs \<Rightarrow> (case map_res (unary_fn K p) xs of Inl e \<Rightarrow> Inl (UnaryFailed p e) | Inr ys \<Rightarrow> Inr (Array ys))
   | Scalar x \<Rightarrow> (case unary_fn K p x of Inl e \<Rightarrow> Inl (UnaryFailed p e) | Inr y \<Rightarrow> Inr (Scalar y)))"

section \<open>Reductions\<close>

text \<open>\<open>min\<close> and \<open>max\<close> of Python: a later element wins only if it compares smaller (greater).\<close>

definition min_of :: "pyfloat list \<Rightarrow> pyfloat" where
  "min_of xs = fold (\<lambda>x m. if flt x m then x else m) (tl xs) (hd xs)"

definition max_of :: "pyfloat list \<Rightarrow> pyfloat" where
  "max_of xs = fold (\<lambda>x m. if flt m x then x else m) (tl xs) (hd xs)"

definition best_index :: "(pyfloat \<Rightarrow> pyfloat \<Rightarrow> bool) \<Rightarrow> pyfloat list \<Rightarrow> nat" where
  "best_index better xs = fold (\<lambda>i m. if better (xs ! i) (xs ! m) then i else m) [1 ..< length xs] 0"

fun insert_sorted :: "pyfloat \<Rightarrow> pyfloat list \<Rightarrow> pyfloat list" where
  "insert_sorted x [] = [x]"
| "insert_sorted x (y # ys) = (if flt y x then y # insert_sorted x ys else x # y # ys)"

definition py_sorted :: "kernels \<Rightarrow> pyfloat list \<Rightarrow> pyfloat list" where
  "py_sorted K xs = (if NaN \<in> set xs then kn_sort_nan K xs else foldr insert_sorted xs [])"

definition median_of :: "kernels \<Rightarrow> pyfloat list \<Rightarrow> pyfloat" where
  "median_of K xs = (let d = py_sorted K xs; n = length d; i = n div 2 in
     if odd n then d ! i else (case fdiv (fadd (d ! (i - 1)) (d ! i)) (Fin 2) of Some y \<Rightarrow> y | None \<Rightarrow> NaN))"

text \<open>
  \<open>_quantile\<close>. The position \<open>q (n - 1)\<close> is finite and at least zero.
\<close>

definition quantile :: "kernels \<Rightarrow> pyfloat list \<Rightarrow> pyfloat \<Rightarrow> pyfloat" where
  "quantile K xs q =
     (let d = py_sorted K xs in
      if length d = 1 then d ! 0
      else (case fmul q (Fin (of_nat (length d - 1))) of
          Fin pos \<Rightarrow>
            (let lo = nat \<lfloor>pos\<rfloor>; hi = nat \<lceil>pos\<rceil> in
             if lo = hi then d ! lo
             else (let w = rnd (pos - of_nat lo) in fadd (fmul (d ! lo) (fsub (Fin 1) w)) (fmul (d ! hi) w)))
        | _ \<Rightarrow> NaN))"

text \<open>
  \<open>_histogram\<close>, its counts. The index of a value that is not a finite number of widths from the lower end raises,
  and so does a width that underflows to zero.
\<close>

definition trunc_float :: "kernels \<Rightarrow> pyfloat \<Rightarrow> string + int" where
  "trunc_float K x = (case x of Fin q \<Rightarrow> Inr (if q < 0 then \<lceil>q\<rceil> else \<lfloor>q\<rfloor>) | _ \<Rightarrow> Inl (kn_int_error K))"

definition bin_of :: "kernels \<Rightarrow> pyfloat \<Rightarrow> pyfloat \<Rightarrow> nat \<Rightarrow> pyfloat \<Rightarrow> string + nat" where
  "bin_of K low width bins x = (case fdiv (fsub x low) width of
     None \<Rightarrow> Inl (kn_div_zero K)
   | Some r \<Rightarrow> bind_res (trunc_float K r) (\<lambda>i. Inr (nat (min (max i 0) (int bins - 1)))))"

definition count_bin :: "nat \<Rightarrow> pyfloat list \<Rightarrow> pyfloat list" where
  "count_bin i counts = counts[i := fadd (counts ! i) (Fin 1)]"

definition histogram :: "kernels \<Rightarrow> pyfloat list \<Rightarrow> nat \<Rightarrow> string + pyfloat list" where
  "histogram K xs bins =
     (let low = min_of xs; h = max_of xs; high = (if feq h low then fadd low (Fin 1) else h) in
      case fdiv (fsub high low) (Fin (of_nat bins)) of
        None \<Rightarrow> Inl (kn_div_zero K)
      | Some width \<Rightarrow> bind_res (map_res (bin_of K low width bins) xs) (\<lambda>ix. Inr (fold count_bin ix (replicate bins (Fin 0)))))"

definition dft :: "kernels \<Rightarrow> pyfloat list \<Rightarrow> bool \<Rightarrow> string + pyfloat list" where
  "dft K xs frequencies = (let half = length xs div 2 + 1 in
     if frequencies then Inr (map (\<lambda>i. Fin (of_nat i)) [0 ..< half]) else map_res (kn_dft_bin K xs) [0 ..< half])"

text \<open>A kernel's exception in a reduction is not caught.\<close>

definition uncaught :: "string + 'a \<Rightarrow> eval_error + 'a" where
  "uncaught r = (case r of Inl e \<Rightarrow> Inl (Uncaught e) | Inr x \<Rightarrow> Inr x)"

definition reduce_list :: "kernels \<Rightarrow> reduce_op \<Rightarrow> pyfloat option \<Rightarrow> int option \<Rightarrow> pyfloat list \<Rightarrow> eval_error + an_value" where
  "reduce_list K p q bins xs = (case p of
     RedSum \<Rightarrow> map_sum id Scalar (uncaught (kn_fsum K xs))
   | RedMean \<Rightarrow> map_sum id Scalar (uncaught (bind_res (kn_fsum K xs) (\<lambda>t. case fdiv t (Fin (of_nat (length xs))) of
        Some y \<Rightarrow> Inr y | None \<Rightarrow> Inl (kn_div_zero K))))
   | RedMin \<Rightarrow> Inr (Scalar (min_of xs))
   | RedMax \<Rightarrow> Inr (Scalar (max_of xs))
   | RedMedian \<Rightarrow> Inr (Scalar (median_of K xs))
   | RedArgmax \<Rightarrow> Inr (Scalar (Fin (of_nat (best_index (\<lambda>a b. flt b a) xs))))
   | RedArgmin \<Rightarrow> Inr (Scalar (Fin (of_nat (best_index flt xs))))
   | RedStd \<Rightarrow> (if length xs > 1 then map_sum id Scalar (uncaught (kn_pstdev K xs)) else Inr (Scalar (Fin 0)))
   | RedQuantile \<Rightarrow> Inr (Scalar (quantile K xs (case q of None \<Rightarrow> Fin (1 / 2) | Some x \<Rightarrow> x)))
   | RedHistogram \<Rightarrow> map_sum id Array (uncaught (histogram K xs (case bins of None \<Rightarrow> 32 | Some b \<Rightarrow> if b = 0 then 32 else nat b)))
   | RedFftPeak \<Rightarrow> map_sum id Array (uncaught (dft K xs False))
   | RedFftFreq \<Rightarrow> map_sum id Array (uncaught (dft K xs True)))"

definition elements :: "an_value \<Rightarrow> pyfloat list" where
  "elements v = (case v of Array xs \<Rightarrow> xs | Scalar x \<Rightarrow> [x])"

definition reduce_value_of :: "kernels \<Rightarrow> reduce_op \<Rightarrow> pyfloat option \<Rightarrow> int option \<Rightarrow> an_value \<Rightarrow> eval_error + an_value" where
  "reduce_value_of K p q bins v = (if elements v = [] then Inl (EmptyReduction p) else reduce_list K p q bins (elements v))"

section \<open>Evaluation\<close>

fun eval_expr :: "kernels \<Rightarrow> (string \<times> an_value) list \<Rightarrow> expr \<Rightarrow> eval_error + an_value" where
  "eval_expr K data (Const x) = Inr (Scalar x)"
| "eval_expr K data (Var r) = (case map_of data (vr_name r) of None \<Rightarrow> Inl (NoData (vr_name r)) | Some v \<Rightarrow> Inr v)"
| "eval_expr K data (BinOp p a b) =
     bind_res (eval_expr K data a) (\<lambda>x. bind_res (eval_expr K data b) (\<lambda>y. binary_value_of K p x y))"
| "eval_expr K data (UnOp p a) = bind_res (eval_expr K data a) (unary_value_of K p)"
| "eval_expr K data (Reduce p a q bins) = bind_res (eval_expr K data a) (reduce_value_of K p q bins)"

text \<open>\<open>_selector_refs\<close> keeps the first reference of a name; \<open>_merge_ref\<close> completes it from the declared selector.\<close>

definition selector_refs :: "expr \<Rightarrow> (string \<times> var_ref) list" where
  "selector_refs e = fold (\<lambda>r d. if has_key (vr_name r) d then d else AList.update (vr_name r) r d) (var_refs e) []"

definition or_declared :: "'a option \<Rightarrow> 'a option \<Rightarrow> 'a option" where
  "or_declared x y = (case x of None \<Rightarrow> y | Some a \<Rightarrow> Some a)"

definition merge_ref :: "var_ref \<Rightarrow> var_ref option \<Rightarrow> var_ref" where
  "merge_ref r declared = (case declared of
     None \<Rightarrow> r
   | Some s \<Rightarrow> \<lparr>vr_name = vr_name r, vr_record = or_declared (vr_record r) (vr_record s),
       vr_component = or_declared (vr_component r) (vr_component s), vr_iteration = or_declared (vr_iteration r) (vr_iteration s)\<rparr>)"

text \<open>What the reader answers: the values, a \<open>ProgramError\<close> of its own, or another exception.\<close>

datatype resolved = Values "pyfloat list" | Refused eval_error | Raised string

definition resolve_one :: "(var_ref \<Rightarrow> resolved) \<Rightarrow> (string \<times> var_ref) list \<Rightarrow> string \<times> var_ref \<Rightarrow> eval_error + string \<times> an_value" where
  "resolve_one resolve declared nr = (case nr of (name, r) \<Rightarrow>
     (case resolve (merge_ref r (map_of declared name)) of
        Values xs \<Rightarrow> Inr (name, Array xs)
      | Refused e \<Rightarrow> Inl e
      | Raised exc \<Rightarrow> Inl (Unresolved name exc)))"

definition resolve_data :: "program \<Rightarrow> expr \<Rightarrow> (var_ref \<Rightarrow> resolved) \<Rightarrow> eval_error + (string \<times> an_value) list" where
  "resolve_data prog e resolve = map_res (resolve_one resolve (declared_by_name prog)) (selector_refs e)"

record payload =
  ap_result :: an_value
  ap_n_points :: nat
  ap_is_array :: bool
  ap_points :: "an_value option"

definition n_points :: "an_value \<Rightarrow> nat" where
  "n_points v = (case v of Array xs \<Rightarrow> length xs | Scalar x \<Rightarrow> 1)"

definition is_array :: "an_value \<Rightarrow> bool" where
  "is_array v = (case v of Array xs \<Rightarrow> True | Scalar x \<Rightarrow> False)"

definition eval_with :: "kernels \<Rightarrow> program \<Rightarrow> (var_ref \<Rightarrow> resolved) \<Rightarrow> expr \<Rightarrow> eval_error + an_value" where
  "eval_with K prog resolve e = bind_res (resolve_data prog e resolve) (\<lambda>data. eval_expr K data e)"

definition evaluate :: "kernels \<Rightarrow> program \<Rightarrow> (var_ref \<Rightarrow> resolved) \<Rightarrow> eval_error + payload" where
  "evaluate K prog resolve =
     bind_res (eval_with K prog resolve (an_output prog)) (\<lambda>result.
     bind_res (case an_points prog of None \<Rightarrow> Inr None | Some e \<Rightarrow> map_sum id Some (eval_with K prog resolve e)) (\<lambda>points.
     if is_array result \<and> n_points result > max_points_out then Inl (TooManyPoints (n_points result))
     else Inr \<lparr>ap_result = result, ap_n_points = n_points result, ap_is_array = is_array result, ap_points = points\<rparr>))"

text \<open>\<open>run_program\<close>: the data is already there.\<close>

definition run_program :: "kernels \<Rightarrow> program \<Rightarrow> (string \<times> an_value) list \<Rightarrow> eval_error + payload" where
  "run_program K prog data = evaluate K prog (\<lambda>r. case map_of data (vr_name r) of
     None \<Rightarrow> Refused (NoData (vr_name r)) | Some (Array xs) \<Rightarrow> Values xs | Some (Scalar x) \<Rightarrow> Values [x])"

section \<open>Shapes\<close>

text \<open>
  A type system for programs: the shape of an expression, given the lengths of its selectors. \<open>None\<close>: operands
  of different lengths, an array as exponent, a reduction of nothing.
\<close>

datatype shape = SScalar | SArray nat

definition shape_of_value :: "an_value \<Rightarrow> shape" where
  "shape_of_value v = (case v of Scalar x \<Rightarrow> SScalar | Array xs \<Rightarrow> SArray (length xs))"

definition shape_points :: "shape \<Rightarrow> nat" where
  "shape_points s = (case s of SScalar \<Rightarrow> 1 | SArray n \<Rightarrow> n)"

fun combined_shape :: "shape \<Rightarrow> shape \<Rightarrow> shape option" where
  "combined_shape SScalar SScalar = Some SScalar"
| "combined_shape (SArray n) SScalar = Some (SArray n)"
| "combined_shape SScalar (SArray n) = Some (SArray n)"
| "combined_shape (SArray n) (SArray m) = (if n = m then Some (SArray n) else None)"

definition binary_shape :: "binary_op \<Rightarrow> shape \<Rightarrow> shape \<Rightarrow> shape option" where
  "binary_shape p a b = (if p = BinPow \<and> b \<noteq> SScalar then None else combined_shape a b)"

definition reduced_shape :: "reduce_op \<Rightarrow> int option \<Rightarrow> nat \<Rightarrow> shape" where
  "reduced_shape p bins n = (case p of
     RedHistogram \<Rightarrow> SArray (case bins of None \<Rightarrow> 32 | Some b \<Rightarrow> if b = 0 then 32 else nat b)
   | RedFftPeak \<Rightarrow> SArray (n div 2 + 1)
   | RedFftFreq \<Rightarrow> SArray (n div 2 + 1)
   | _ \<Rightarrow> SScalar)"

fun shape_of :: "(string \<times> shape) list \<Rightarrow> expr \<Rightarrow> shape option" where
  "shape_of G (Const x) = Some SScalar"
| "shape_of G (Var r) = map_of G (vr_name r)"
| "shape_of G (BinOp p a b) = (case (shape_of G a, shape_of G b) of (Some x, Some y) \<Rightarrow> binary_shape p x y | _ \<Rightarrow> None)"
| "shape_of G (UnOp p a) = shape_of G a"
| "shape_of G (Reduce p a q bins) = (case shape_of G a of
     None \<Rightarrow> None | Some x \<Rightarrow> if shape_points x = 0 then None else Some (reduced_shape p bins (shape_points x)))"

text \<open>Errors that come from the numbers and not from the shapes.\<close>

fun numeric_error :: "eval_error \<Rightarrow> bool" where
  "numeric_error ZeroToNegative = True"
| "numeric_error (BinaryFailed p (Numeric t)) = True"
| "numeric_error (UnaryFailed p t) = True"
| "numeric_error (Uncaught t) = True"
| "numeric_error e = False"

text \<open>Errors that the shapes foretell.\<close>

fun shape_error :: "eval_error \<Rightarrow> bool" where
  "shape_error PowNotScalar = True"
| "shape_error (BinaryFailed p (LengthMismatch n m)) = True"
| "shape_error (EmptyReduction p) = True"
| "shape_error e = False"

text \<open>
  A step of evaluation agrees with the shape it should have: the result has it, or the numbers failed, or there is
  none and the error says so. The data has an entry for every name.
\<close>

definition agrees :: "shape option \<Rightarrow> eval_error + an_value \<Rightarrow> bool" where
  "agrees s r = (case r of Inr v \<Rightarrow> s = Some (shape_of_value v) | Inl e \<Rightarrow> s = None \<and> shape_error e \<or> numeric_error e)"

lemma binary_fn_numeric: "binary_fn K p x y = Inl r \<Longrightarrow> \<exists>t. r = Numeric t"
  by (auto simp: binary_fn_def split: binary_op.splits option.splits sum.splits)

lemma map_res_Inl: "map_res f xs = Inl e \<Longrightarrow> \<exists>x \<in> set xs. f x = Inl e"
proof (induction xs)
  case (Cons x xs)
  show ?case
  proof (cases "f x")
    case (Inr y)
    then show ?thesis using Cons by (cases "map_res f xs") auto
  qed (use Cons.prems in auto)
qed simp

lemma combine_agrees:
  "case combine K p a b of Inr v \<Rightarrow> combined_shape (shape_of_value a) (shape_of_value b) = Some (shape_of_value v)
   | Inl r \<Rightarrow> combined_shape (shape_of_value a) (shape_of_value b) = None \<and> (\<exists>n m. r = LengthMismatch n m) \<or> (\<exists>t. r = Numeric t)"
proof -
  have elem: "map_res f xs = Inl r \<Longrightarrow> (\<And>x. f x = Inl r \<Longrightarrow> \<exists>t. r = Numeric t) \<Longrightarrow> \<exists>t. r = Numeric t"
    for f :: "'x \<Rightarrow> reason + pyfloat" and xs r
    using map_res_Inl by metis
  show ?thesis
  proof (cases a)
    case (Scalar x)
    note a = Scalar
    show ?thesis
    proof (cases b)
      case (Scalar y)
      then show ?thesis using binary_fn_numeric [of K p x y]
        by (cases "binary_fn K p x y") (auto simp: a combine_def shape_of_value_def)
    next
      case (Array ys)
      show ?thesis
        by (cases "map_res (\<lambda>y. binary_fn K p x y) ys")
          (auto simp: a Array combine_def shape_of_value_def dest: map_res_Inr elem binary_fn_numeric)
    qed
  next
    case (Array xs)
    note a = Array
    show ?thesis
    proof (cases b)
      case (Scalar y)
      show ?thesis
        by (cases "map_res (\<lambda>x. binary_fn K p x y) xs")
          (auto simp: a Scalar combine_def shape_of_value_def dest: map_res_Inr elem binary_fn_numeric)
    next
      case (Array ys)
      show ?thesis
        by (cases "map_res (\<lambda>(x, y). binary_fn K p x y) (zip xs ys)")
          (auto simp: a Array combine_def shape_of_value_def dest: map_res_Inr elem binary_fn_numeric)
    qed
  qed
qed

lemma shape_of_value_simps [simp]: "shape_of_value (Scalar x) = SScalar" "shape_of_value (Array xs) = SArray (length xs)"
  by (simp_all add: shape_of_value_def)

lemma binary_agrees: "agrees (binary_shape p (shape_of_value a) (shape_of_value b)) (binary_value_of K p a b)"
proof -
  have "p = BinPow \<Longrightarrow> combine K p a b = Inl (LengthMismatch n m) \<Longrightarrow> \<exists>ys. b = Array ys" for n m
    using combine_agrees [of a b K p] by (cases a; cases b) auto
  then show ?thesis using combine_agrees [of a b K p]
    by (cases "combine K p a b"; cases b; cases a) (auto simp: agrees_def binary_value_of_def binary_shape_def split: if_splits)
qed

lemma unary_agrees: "agrees (Some (shape_of_value v)) (unary_value_of K p v)"
  by (cases v) (auto simp: agrees_def unary_value_of_def dest: map_res_Inr split: sum.splits)

lemma fold_count_length [simp]: "length (fold count_bin ix counts) = length counts"
  by (induction ix arbitrary: counts) (simp_all add: count_bin_def)

lemma histogram_length: "histogram K xs n = Inr cs \<Longrightarrow> length cs = n"
  by (auto simp: histogram_def Let_def bind_res_Inr_iff split: option.splits)

lemma dft_length: "dft K xs fr = Inr ms \<Longrightarrow> length ms = length xs div 2 + 1"
  by (auto simp: dft_def Let_def dest: map_res_Inr split: if_splits)

lemma uncaught_agrees: "(\<And>x. r = Inr x \<Longrightarrow> s = shape_of_value (f x)) \<Longrightarrow> agrees (Some s) (map_sum id f (uncaught r))"
  by (cases r) (simp_all add: agrees_def uncaught_def)

lemma reduce_list_agrees: "agrees (Some (reduced_shape p bins (length xs))) (reduce_list K p q bins xs)"
proof -
  have one: "agrees (Some SScalar) (map_sum id Scalar (uncaught r))" for r by (rule uncaught_agrees) simp
  have hist: "agrees (Some (SArray n)) (map_sum id Array (uncaught (histogram K xs n)))" for n
    by (rule uncaught_agrees) (simp add: histogram_length)
  have fft: "agrees (Some (SArray (length xs div 2 + 1))) (map_sum id Array (uncaught (dft K xs fr)))" for fr
    by (rule uncaught_agrees) (simp add: dft_length)
  have val: "agrees (Some SScalar) (Inr (Scalar x))" for x by (simp add: agrees_def)
  show ?thesis
    by (cases p) (simp_all add: reduce_list_def reduced_shape_def one val hist fft [simplified])
qed

lemma elements_points: "length (elements v) = shape_points (shape_of_value v)"
  by (cases v) (simp_all add: elements_def shape_points_def)

lemma eval_agrees:
  "vr_name ` set (var_refs e) \<subseteq> set (keys data) \<Longrightarrow>
   agrees (shape_of (map (\<lambda>(k, v). (k, shape_of_value v)) data) e) (eval_expr K data e)" (is "_ \<Longrightarrow> agrees (shape_of ?G e) _")
proof (induction e)
  case (Var r)
  then obtain v where "map_of data (vr_name r) = Some v" using map_of_eq_None_iff [of data "vr_name r"] by fastforce
  then show ?case by (simp add: agrees_def map_of_map)
next
  case (BinOp p a b)
  then have a: "agrees (shape_of ?G a) (eval_expr K data a)" and b: "agrees (shape_of ?G b) (eval_expr K data b)" by auto
  show ?case
  proof (cases "\<exists>x y. eval_expr K data a = Inr x \<and> eval_expr K data b = Inr y")
    case True
    then obtain x y where "eval_expr K data a = Inr x" "eval_expr K data b = Inr y" by blast
    then show ?thesis using a b binary_agrees [of p x y K] by (simp add: agrees_def)
  next
    case False
    then show ?thesis using a b
      by (cases "eval_expr K data a"; cases "eval_expr K data b") (auto simp: agrees_def split: option.splits)
  qed
next
  case (UnOp p a)
  then show ?case using unary_agrees [of _ K p]
    by (cases "eval_expr K data a") (auto simp: agrees_def)
next
  case (Reduce p a q bins)
  show ?case
  proof (cases "eval_expr K data a")
    case (Inl err)
    then show ?thesis using Reduce by (auto simp: agrees_def split: option.splits)
  next
    case (Inr v)
    then have s: "shape_of (map (\<lambda>(k, v). (k, shape_of_value v)) data) a = Some (shape_of_value v)" using Reduce by (simp add: agrees_def)
    show ?thesis
    proof (cases "elements v = []")
      case True
      then show ?thesis using elements_points [of v] by (simp add: Inr s reduce_value_of_def agrees_def)
    next
      case False
      then show ?thesis using reduce_list_agrees [of p bins "elements v" K q] elements_points [of v]
        by (auto simp: Inr s reduce_value_of_def)
    qed
  qed
qed (simp add: agrees_def)

section \<open>Programs\<close>

text \<open>Every bin count is in range.\<close>

fun bins_ok :: "expr \<Rightarrow> bool" where
  "bins_ok (BinOp p a b) = (bins_ok a \<and> bins_ok b)"
| "bins_ok (UnOp p a) = bins_ok a"
| "bins_ok (Reduce p a q b) = (bins_ok a \<and> opt_all bins_range b)"
| "bins_ok e = True"

lemma bins_parsed: "parse_expr L lf v = Some e \<Longrightarrow> bins_ok e"
proof (induction L lf v arbitrary: e rule: parse_expr.induct)
  case (1 L lf kvs)
  then show ?case by (auto split: if_splits option.splits)
qed auto

lemma validated_bins: "validate_program L lf v = Some prog \<Longrightarrow> bins_ok (an_output prog)"
  by (auto simp: validate_program_def required_def Let_def dest: bins_parsed split: json.splits if_splits option.splits)

lemma shape_bound:
  assumes "\<And>k s. map_of G k = Some s \<Longrightarrow> shape_points s \<le> max_points_out"
  shows "bins_ok e \<Longrightarrow> shape_of G e = Some s \<Longrightarrow> shape_points s \<le> max_points_out"
proof (induction e arbitrary: s)
  case (Var r)
  then show ?case using assms by simp
next
  case (BinOp p a b)
  have "combined_shape x y = Some s \<Longrightarrow> shape_points x \<le> max_points_out \<Longrightarrow> shape_points y \<le> max_points_out \<Longrightarrow>
      shape_points s \<le> max_points_out" for x y
    by (cases "(x, y)" rule: combined_shape.cases) (auto split: if_splits)
  then show ?case using BinOp by (auto simp: binary_shape_def split: option.splits if_splits)
next
  case (Reduce p a q b)
  have "shape_points (reduced_shape p b n) \<le> max_points_out" if "n \<le> max_points_out" for n
    using that Reduce.prems(1)
    by (cases p) (auto simp: reduced_shape_def shape_points_def max_points_out_def bins_range_def max_bins_def opt_all_def split: option.splits)
  then show ?case using Reduce by (auto split: option.splits if_splits)
qed (simp_all add: shape_points_def max_points_out_def)

lemma selector_refs_keys: "set (keys (selector_refs e)) = vr_name ` set (var_refs e)"
proof -
  have "set (keys (fold (\<lambda>r d. if has_key (vr_name r) d then d else AList.update (vr_name r) r d) rs d)) = set (keys d) \<union> vr_name ` set rs" for rs d
    by (induction rs arbitrary: d) (auto simp: has_key_iff dom_update)
  from this [of "var_refs e" "[]"] show ?thesis by (simp add: selector_refs_def)
qed

lemma selector_refs_from:
  assumes "map_of (selector_refs e) k = Some r" shows "r \<in> set (var_refs e) \<and> vr_name r = k"
proof -
  have "map_of (fold (\<lambda>r d. if has_key (vr_name r) d then d else AList.update (vr_name r) r d) rs d) k = Some r \<Longrightarrow>
      map_of d k = Some r \<or> r \<in> set rs \<and> vr_name r = k" for rs d
    by (induction rs arbitrary: d) (force split: if_splits)+
  from this [of "var_refs e" "[]"] show ?thesis using assms by (simp add: selector_refs_def)
qed

text \<open>What a reader answers for the selectors of an expression, as shapes.\<close>

definition selector_shapes :: "program \<Rightarrow> (var_ref \<Rightarrow> resolved) \<Rightarrow> expr \<Rightarrow> (string \<times> shape) list" where
  "selector_shapes prog resolve e = map (\<lambda>(name, r). (name,
     case resolve (merge_ref r (map_of (declared_by_name prog) name)) of Values xs \<Rightarrow> SArray (length xs) | _ \<Rightarrow> SArray 0)) (selector_refs e)"

lemma resolve_one_Inr:
  "resolve_one resolve declared nr = Inr kv \<Longrightarrow> \<exists>xs. kv = (fst nr, Array xs) \<and> resolve (merge_ref (snd nr) (map_of declared (fst nr))) = Values xs"
  by (auto simp: resolve_one_def split: prod.splits resolved.splits)

lemma resolve_data_shapes:
  assumes "resolve_data prog e resolve = Inr data"
  shows "map (\<lambda>(k, v). (k, shape_of_value v)) data = selector_shapes prog resolve e" "set (keys data) = vr_name ` set (var_refs e)"
proof -
  have l: "list_all2 (\<lambda>nr kv. resolve_one resolve (declared_by_name prog) nr = Inr kv) (selector_refs e) data"
    using map_res_Inr assms unfolding resolve_data_def by blast
  show "map (\<lambda>(k, v). (k, shape_of_value v)) data = selector_shapes prog resolve e" unfolding selector_shapes_def
    using l by induction (auto dest!: resolve_one_Inr)
  have "keys data = keys (selector_refs e)" using l by induction (auto dest!: resolve_one_Inr)
  then show "set (keys data) = vr_name ` set (var_refs e)" by (metis selector_refs_keys)
qed

lemma resolve_data_errors:
  "resolve_data prog e resolve = Inl err \<Longrightarrow> (\<exists>r. resolve r = Refused err) \<or> (\<exists>n t. err = Unresolved n t)"
  unfolding resolve_data_def by (drule map_res_Inl) (auto simp: resolve_one_def split: resolved.splits)

lemma eval_with_agrees:
  "case eval_with K prog resolve e of
     Inr v \<Rightarrow> shape_of (selector_shapes prog resolve e) e = Some (shape_of_value v)
   | Inl err \<Rightarrow> (\<exists>r. resolve r = Refused err) \<or> (\<exists>n t. err = Unresolved n t) \<or> numeric_error err \<or>
       shape_error err \<and> shape_of (selector_shapes prog resolve e) e = None"
proof (cases "resolve_data prog e resolve")
  case (Inl err)
  then show ?thesis using resolve_data_errors by (auto simp: eval_with_def)
next
  case (Inr data)
  then show ?thesis using eval_agrees [of e data K] resolve_data_shapes [OF Inr]
    by (cases "eval_expr K data e") (auto simp: eval_with_def agrees_def)
qed


section \<open>A concrete program\<close>

definition sample_lax_float :: "json \<Rightarrow> pyfloat option" where
  "sample_lax_float v = (case v of JInt i \<Rightarrow> Some (Fin (of_int i)) | JFloat x \<Rightarrow> Some x | _ \<Rightarrow> None)"

definition sample_kernels :: kernels where
  "sample_kernels = \<lparr>kn_unary = (\<lambda>p x. Inl ''math domain error''), kn_pow = (\<lambda>x y. Inl ''result too large''), kn_div_zero = ''division by zero'',
     kn_fsum = (\<lambda>xs. Inl ''overflow''), kn_pstdev = (\<lambda>xs. Inr (Fin 0)), kn_sort_nan = (\<lambda>xs. xs), kn_dft_bin = (\<lambda>xs i. Inr (Fin 0)),
     kn_int_error = ''cannot convert float infinity to integer''\<rparr>"

text \<open>The histogram of a field added to itself, and the field as points.\<close>

definition sample_field :: json where
  "sample_field = JObj [(''kind'', JStr ''var''), (''name'', JStr ''E'')]"

definition sample_program :: json where
  "sample_program = JObj [(''output'', JObj [(''kind'', JStr ''reduce''), (''op'', JStr ''histogram''), (''operand'',
       JObj [(''kind'', JStr ''binop''), (''op'', JStr ''add''), (''left'', sample_field), (''right'', sample_field)]), (''bins'', JInt 2)]),
     (''points'', sample_field)]"

definition sample_reader :: "var_ref \<Rightarrow> resolved" where
  "sample_reader r = Values [Fin 0, Fin 1, Fin 2]"

definition sample_ref :: var_ref where
  "sample_ref = \<lparr>vr_name = ''E'', vr_record = None, vr_component = None, vr_iteration = None\<rparr>"

definition sample_parsed :: program where
  "sample_parsed = \<lparr>an_output = Reduce RedHistogram (BinOp BinAdd (Var sample_ref) (Var sample_ref)) None (Some 2), an_selectors = [],
     an_points = Some (Var sample_ref)\<rparr>"

lemma sample_validates: "validate_program sample_sim_lib sample_lax_float sample_program = Some sample_parsed"
proof -
  have "name_safe ''E''" by code_simp
  then have "validate_program sample_sim_lib sample_lax_float sample_program =
      (if program_ok sample_parsed then Some sample_parsed else None)"
    by (simp add: validate_program_def sample_program_def sample_field_def only_fields_def required_def defaulted_def opt_field_def
        literal_field_def reduce_ops_def binary_ops_def sub_json_def validate_var_ref_def var_ref_ok_def opt_all_def sample_lib_laws str_field_def bins_range_def max_bins_def sample_ref_def sample_parsed_def Let_def)
  moreover have "program_ok sample_parsed" by code_simp
  ultimately show ?thesis by simp
qed

lemma sample_evaluates:
  "evaluate sample_kernels sample_parsed sample_reader = Inr \<lparr>ap_result = Array [Fin 1, Fin 2], ap_n_points = 2, ap_is_array = True,
     ap_points = Some (Array [Fin 0, Fin 1, Fin 2])\<rparr>"
  by (simp add: evaluate_def eval_with_def resolve_data_def sample_parsed_def selector_refs_def has_key_def resolve_one_def sample_reader_def
      binary_value_of_def combine_def binary_fn_def reduce_value_of_def elements_def reduce_list_def histogram_def min_of_def max_of_def
      bin_of_def trunc_float_def count_bin_def uncaught_def is_array_def n_points_def max_points_out_def sample_ref_def fsub_def feq_def Let_def numeral_2_eq_2)

section \<open>Properties\<close>

text \<open>
  C32: Analysis programs are typed by shapes. Take a program that \<open>AnalysisProgram\<close> validation accepted and a
  reader that answers at most 4096 values per selector. If evaluation returns, the result has the shape computed from
  the tree and the lengths of the selectors alone, the reported number of points is that shape's, the points of a
  parallel expression have their shape too, and the result is within the output cap. If it fails, then the reader failed, or the numbers
  did, or an error of shapes is reported and one of the two expressions has no shape; in particular
  the cap on the output and a missing selector are never the reason.
\<close>

theorem program_shapes_sound:
  assumes "validate_program L lf v = Some prog" "\<And>r xs. resolve r = Values xs \<Longrightarrow> length xs \<le> max_points_out"
  shows "case evaluate K prog resolve of
      Inr pay \<Rightarrow> shape_of (selector_shapes prog resolve (an_output prog)) (an_output prog) = Some (shape_of_value (ap_result pay)) \<and>
        ap_n_points pay = shape_points (shape_of_value (ap_result pay)) \<and> ap_n_points pay \<le> max_points_out \<and>
        map_option shape_of_value (ap_points pay) = Option.bind (an_points prog) (\<lambda>e. shape_of (selector_shapes prog resolve e) e)
    | Inl err \<Rightarrow> (\<exists>r. resolve r = Refused err) \<or> (\<exists>n t. err = Unresolved n t) \<or> numeric_error err \<or>
        shape_error err \<and> (\<exists>e \<in> set (expressions prog). shape_of (selector_shapes prog resolve e) e = None)"
proof -
  let ?out = "eval_with K prog resolve (an_output prog)"
  have small: "map_of (selector_shapes prog resolve e) k = Some s \<Longrightarrow> shape_points s \<le> max_points_out" for e k s
    using assms(2) by (auto simp: selector_shapes_def shape_points_def dest!: map_of_SomeD split: resolved.splits)
  have cap: "n_points r \<le> max_points_out \<and> n_points r = shape_points (shape_of_value r)" if "?out = Inr r" for r
  proof -
    have "shape_of (selector_shapes prog resolve (an_output prog)) (an_output prog) = Some (shape_of_value r)"
      using eval_with_agrees [where K = K and prog = prog and resolve = resolve and e = "an_output prog"] that by simp
    then have "shape_points (shape_of_value r) \<le> max_points_out"
      by (rule shape_bound [rotated 2]) (use small validated_bins [OF assms(1)] in blast)+
    then show ?thesis by (cases r) (simp_all add: shape_points_def n_points_def)
  qed
  show ?thesis
  proof (cases ?out)
    case (Inl err)
    then show ?thesis using eval_with_agrees [where K = K and prog = prog and resolve = resolve and e = "an_output prog"] by (auto simp: evaluate_def expressions_def)
  next
    case (Inr r)
    note out = Inr
    show ?thesis
    proof (cases "an_points prog")
      case None
      then show ?thesis using eval_with_agrees [where K = K and prog = prog and resolve = resolve and e = "an_output prog"] cap [OF Inr] Inr by (simp add: evaluate_def)
    next
      case (Some e)
      then show ?thesis using eval_with_agrees [where K = K and prog = prog and resolve = resolve and e = "an_output prog"] eval_with_agrees [where K = K and prog = prog and resolve = resolve and e = e] cap [OF Inr] Inr
        by (cases "eval_with K prog resolve e") (auto simp: evaluate_def expressions_def)
    qed
  qed
qed

theorem program_shapes_sound_witness:
  "validate_program sample_sim_lib sample_lax_float sample_program = Some sample_parsed \<and>
   evaluate sample_kernels sample_parsed sample_reader = Inr \<lparr>ap_result = Array [Fin 1, Fin 2], ap_n_points = 2, ap_is_array = True,
     ap_points = Some (Array [Fin 0, Fin 1, Fin 2])\<rparr> \<and>
   shape_of (selector_shapes sample_parsed sample_reader (an_output sample_parsed)) (an_output sample_parsed) = Some (SArray 2)"
  using program_shapes_sound [OF sample_validates, of sample_reader, where K = sample_kernels] sample_validates sample_evaluates
  by (simp add: sample_reader_def max_points_out_def)

text \<open>
  C33: The walk that collects the references of an expression is a loop over a stack. For every expression of a
  validated program it ends, after at most 256 rounds and with the stack empty for the first time; what it has collected are the
  references of the tree. The dict that keeps only the first reference of each name then loses nothing: every
  reference of the expression is in it with the same record, component and iteration.
\<close>

theorem reference_walk_terminates:
  assumes "validate_program L lf v = Some prog" "e \<in> set (expressions prog)"
  shows "(\<exists>k \<le> max_nodes. (stack_step ^^ k) ([e], []) = ([], var_refs e) \<and> (\<forall>j < k. fst ((stack_step ^^ j) ([e], [])) \<noteq> [])) \<and>
    iter_var_refs e = Some (var_refs e) \<and>
    (\<forall>r \<in> set (var_refs e). \<exists>s. map_of (selector_refs e) (vr_name r) = Some s \<and> ref_attrs s = ref_attrs r)"
proof -
  have rounds: "(stack_step ^^ expr_size e) ([e], []) = ([], var_refs e) \<and> (\<forall>j < expr_size e. fst ((stack_step ^^ j) ([e], [])) \<noteq> [])"
    using stack_rounds [of "([e], [])" "expr_size e"] by (simp add: stack_size_def refs_left_def)
  have "\<exists>s. map_of (selector_refs e) (vr_name r) = Some s \<and> ref_attrs s = ref_attrs r" if r: "r \<in> set (var_refs e)" for r
  proof -
    obtain s where s: "map_of (selector_refs e) (vr_name r) = Some s" using selector_refs_keys [of e] r map_of_eq_None_iff [of "selector_refs e"] by fastforce
    then have "s \<in> set (var_refs e)" "vr_name s = vr_name r" using selector_refs_from [OF s] by simp_all
    then show ?thesis using s validated_refs_agree [OF assms _ r] by blast
  qed
  then show ?thesis using rounds validated_size [OF assms] iter_var_refs_spec by blast
qed

theorem reference_walk_terminates_witness:
  "validate_program sample_sim_lib sample_lax_float sample_program = Some sample_parsed \<and>
   iter_var_refs (an_output sample_parsed) = Some [sample_ref, sample_ref] \<and> selector_refs (an_output sample_parsed) = [(''E'', sample_ref)]"
  using reference_walk_terminates [OF sample_validates, of "an_output sample_parsed"] sample_validates
  by (simp add: expressions_def) (simp add: sample_parsed_def selector_refs_def has_key_def sample_ref_def)

end
