(* ===== verification/SimServer.thy ===== *)
theory SimServer
  imports SimSubmit Slurm
begin

text \<open>
  \<open>server/simulation.py\<close>: the server side of a submission. The registry of simulations, projected from the
  acks and events the cluster client sends; the bounded event log and its condensed view; and the futures of the
  requests that wait for an answer.
\<close>

section \<open>Records\<close>

definition terminal_states :: "string list" where
  "terminal_states = map state_value [SimResultsReady, SimFailed, SimJobFailed, SimCancelled]"

definition running_or_later :: "string list" where
  "running_or_later = map state_value [SimJobRunning, SimStepFinished, SimCheckpoint, SimJobFinished, SimResultsReady, SimFailed, SimJobFailed, SimCancelled]"

definition record_fields :: "string list" where
  "record_fields = [''job_id'', ''slurm_state'', ''slurm_reason'', ''step'', ''percent'', ''walltime'', ''avg_per_step'', ''eta_s'', ''exit_code'',
     ''core_hours'', ''gpu_hours'', ''run_dir'', ''error'', ''error_code'', ''failure_summary'', ''stage'', ''suspect'']"

definition failure_fields :: "string list" where
  "failure_fields = [''error'', ''error_code'', ''failure_summary'', ''stage'']"

text \<open>
  A record. The attributes named in \<open>record_fields\<close> are assigned as they come in the payload, without validation, so
  they are kept as a dict of JSON values; one that is missing is \<open>None\<close>.
\<close>

record sim_record =
  sr_sim_id :: string
  sr_cmd_id :: string
  sr_state :: string
  sr_values :: "(string \<times> json) list"
  sr_last_type :: "string option"
  sr_last_ts :: "string option"
  sr_active :: bool

definition fresh_record :: "string \<Rightarrow> string \<Rightarrow> sim_record" where
  "fresh_record sim_id cmd_id = \<lparr>sr_sim_id = sim_id, sr_cmd_id = cmd_id, sr_state = '''', sr_values = [], sr_last_type = None,
     sr_last_ts = None, sr_active = True\<rparr>"

definition set_values :: "string list \<Rightarrow> (string \<times> json) list \<Rightarrow> (string \<times> json) list \<Rightarrow> (string \<times> json) list" where
  "set_values names payload vals = fold (\<lambda>k d. case map_of payload k of
     None \<Rightarrow> d | Some v \<Rightarrow> if v = JNull then d else AList.update k v d) names vals"

definition value_of :: "sim_record \<Rightarrow> string \<Rightarrow> json option" where
  "value_of r k = map_of (sr_values r) k"

definition text_value :: "sim_record \<Rightarrow> string \<Rightarrow> string option" where
  "text_value r k = (case value_of r k of Some (JStr s) \<Rightarrow> Some s | _ \<Rightarrow> None)"

definition slurm_blocked :: "sim_record \<Rightarrow> bool" where
  "slurm_blocked r = is_permanent_reason (text_value r ''slurm_reason'')"

section \<open>The service\<close>

text \<open>
  A future is \<open>None\<close> until its result is set. \<open>sv_ready_calls\<close> lists the command ids handed to the hook
  \<open>on_run_ready\<close>, if one is set.
\<close>

record server =
  sv_sim :: string
  sv_secret :: string
  sv_sequences :: sequence_state
  sv_pending :: "(string \<times> rcp_message option) list"
  sv_pending_pull :: "(string \<times> rcp_message option) list"
  sv_pending_kind :: "(string \<times> string) list"
  sv_event_log :: "rcp_message list"
  sv_event_log_max :: nat
  sv_registry :: "(string \<times> sim_record) list"
  sv_run_hook :: bool
  sv_ready_calls :: "string list"
  sv_capabilities :: "capabilities option"
  sv_history_complete :: bool
  sv_client_timeout :: "pyfloat option"

definition new_server :: "string \<Rightarrow> string \<Rightarrow> nat \<Rightarrow> pyfloat option \<Rightarrow> server" where
  "new_server sim secret log_max budget = \<lparr>sv_sim = sim, sv_secret = secret, sv_sequences = [], sv_pending = [], sv_pending_pull = [],
     sv_pending_kind = [], sv_event_log = [], sv_event_log_max = log_max, sv_registry = [], sv_run_hook = False, sv_ready_calls = [],
     sv_capabilities = None, sv_history_complete = True, sv_client_timeout = budget\<rparr>"

definition set_history_complete :: "bool \<Rightarrow> server \<Rightarrow> server" where
  "set_history_complete b s = s\<lparr>sv_history_complete := b\<rparr>"

definition unknown_error :: "server \<Rightarrow> string" where
  "unknown_error s = (if sv_history_complete s then ''unknown_sim'' else ''unknown_after_restart'')"

definition set_client_capabilities :: "capabilities option \<Rightarrow> server \<Rightarrow> server" where
  "set_client_capabilities c s = s\<lparr>sv_capabilities := c\<rparr>"

definition capability_mismatch :: "server \<Rightarrow> requested_op \<Rightarrow> simulation_type option \<Rightarrow> string option" where
  "capability_mismatch s op ty = (case sv_capabilities s of
     None \<Rightarrow> None
   | Some c \<Rightarrow>
       (let tv = (case ty of None \<Rightarrow> '''' | Some t \<Rightarrow> type_value t) in
        case unsupported c op tv of
          None \<Rightarrow> None
        | Some missing \<Rightarrow>
            if tv \<noteq> '''' \<and> missing = tv then Some (client_capability_mismatch c '''' tv)
            else Some (client_capability_mismatch c
              (case op of NoOp \<Rightarrow> missing | AResultOp p \<Rightarrow> result_op_value p | AControlOp p \<Rightarrow> op_value p) '''')))"

section \<open>Projecting messages\<close>

text \<open>\<open>_record_for\<close>: the record of the latest run. A new command id starts a run unless its message is older.\<close>

definition record_for :: "string \<Rightarrow> string \<Rightarrow> string \<Rightarrow> server \<Rightarrow> sim_record \<times> server" where
  "record_for sim_id cmd_id ts s =
     (let new = (fresh_record sim_id cmd_id, s\<lparr>sv_registry := AList.update sim_id (fresh_record sim_id cmd_id) (sv_registry s)\<rparr>) in
      case map_of (sv_registry s) sim_id of
        None \<Rightarrow> new
      | Some r \<Rightarrow> if cmd_id \<noteq> '''' \<and> cmd_id \<noteq> sr_cmd_id r \<and> (case sr_last_ts r of None \<Rightarrow> True | Some t \<Rightarrow> t \<le> ts) then new else (r, s))"

definition is_terminal :: "string \<Rightarrow> bool" where
  "is_terminal st = (st \<in> set terminal_states)"

definition event_record :: "string \<Rightarrow> rcp_message \<Rightarrow> sim_record \<Rightarrow> sim_record" where
  "event_record st m r =
     (let vals = set_values record_fields (rm_payload m) (sr_values r);
          vals = (if st \<noteq> state_value SimResultsReady then AList.delete ''suspect'' vals else vals);
          vals = (if st \<in> set running_or_later then AList.delete ''slurm_reason'' vals else vals)
      in r\<lparr>sr_values := vals, sr_state := st, sr_last_type := (if st \<noteq> '''' then Some st else sr_last_type r), sr_last_ts := Some (rm_ts m),
           sr_active := \<not> is_terminal st\<rparr>)"

definition project_event :: "sim_lib \<Rightarrow> rcp_message \<Rightarrow> server \<Rightarrow> server" where
  "project_event L m s =
     (let sim_id = get_str L (rm_payload m) ''sim_id'' ''''; st = get_str L (rm_payload m) ''state'' ''''; cmd_id = get_str L (rm_payload m) ''cmd_id'' ''''
      in if sim_id = '''' then s
         else (case record_for sim_id cmd_id (rm_ts m) s of (r, s1) \<Rightarrow>
           if cmd_id \<noteq> '''' \<and> cmd_id \<noteq> sr_cmd_id r then s1
           else if is_terminal (sr_state r) then s1
           else s1\<lparr>sv_registry := AList.update sim_id (event_record st m r) (sv_registry s1),
                  sv_ready_calls := sv_ready_calls s1 @ (if st = state_value SimResultsReady \<and> sv_run_hook s1 then [cmd_id] else [])\<rparr>))"

definition outcome_unknown_ack :: "(string \<times> json) list \<Rightarrow> bool" where
  "outcome_unknown_ack payload = (map_of payload ''error_code'' = Some (JStr (error_value EOutcomeUnknown)) \<or>
     (case map_of payload ''error'' of Some (JStr e) \<Rightarrow> starts_with ''already_submitted:outcome_unknown'' e | _ \<Rightarrow> False))"

definition first_ts :: "rcp_message \<Rightarrow> sim_record \<Rightarrow> sim_record" where
  "first_ts m r = (if sr_last_ts r = None then r\<lparr>sr_last_ts := Some (rm_ts m)\<rparr> else r)"

definition ack_record :: "string \<Rightarrow> rcp_message \<Rightarrow> sim_record \<Rightarrow> sim_record" where
  "ack_record st m r =
     (if outcome_unknown_ack (rm_payload m) then first_ts m r
      else (let r1 = (if st \<noteq> '''' \<and> sr_state r = '''' then r\<lparr>sr_state := st, sr_last_type := Some st, sr_active := \<not> is_terminal st\<rparr> else r);
                vals = set_values (''job_id'' # failure_fields) (rm_payload m) (sr_values r1)
            in first_ts m (r1\<lparr>sr_values := vals\<rparr>)))"

definition project_ack :: "sim_lib \<Rightarrow> rcp_message \<Rightarrow> server \<Rightarrow> server" where
  "project_ack L m s =
     (let sim_id = get_str L (rm_payload m) ''sim_id'' ''''; st = get_str L (rm_payload m) ''state'' ''''; cmd_id = get_str L (rm_payload m) ''cmd_id'' ''''
      in if sim_id = '''' then s
         else (case record_for sim_id cmd_id (rm_ts m) s of (r, s1) \<Rightarrow>
           if cmd_id \<noteq> '''' \<and> cmd_id \<noteq> sr_cmd_id r then s1
           else s1\<lparr>sv_registry := AList.update sim_id (ack_record st m r) (sv_registry s1)\<rparr>))"

section \<open>The event log\<close>

fun drop_first :: "('a \<Rightarrow> bool) \<Rightarrow> nat \<Rightarrow> 'a list \<Rightarrow> 'a list" where
  "drop_first p n [] = []"
| "drop_first p n (x # xs) = (if p x then (if n > 0 then drop_first p (n - 1) xs else x # xs) else x # drop_first p n xs)"

definition same_sim :: "sim_lib \<Rightarrow> string \<Rightarrow> rcp_message \<Rightarrow> bool" where
  "same_sim L sim_id m = (get_str L (rm_payload m) ''sim_id'' '''' = sim_id)"

definition append_event_log :: "sim_lib \<Rightarrow> rcp_message \<Rightarrow> server \<Rightarrow> server" where
  "append_event_log L m s =
     (let elog = sv_event_log s @ [m]; p = same_sim L (get_str L (rm_payload m) ''sim_id'' ''''); n = length (filter p elog)
      in s\<lparr>sv_event_log := drop_first p (n - sv_event_log_max s) elog\<rparr>)"

text \<open>\<open>condense_events\<close>: \<open>wanted\<close> is the set of states to keep, none when the caller named none.\<close>

definition max_event_page :: int where
  "max_event_page = 200"

definition event_entry :: "rcp_message \<Rightarrow> (string \<times> json) list" where
  "event_entry m = fold (\<lambda>(k, v) d. AList.update k v d) (rm_payload m) [(''ts'', JStr (rm_ts m))]"

definition listed :: "sim_lib \<Rightarrow> string \<Rightarrow> string option \<Rightarrow> string list option \<Rightarrow> rcp_message \<Rightarrow> bool" where
  "listed L sim_id since types m = (rm_kind m = KEvent \<and> rm_type m = type_value TEvent \<and> same_sim L sim_id m \<and>
     (case since of None \<Rightarrow> True | Some t \<Rightarrow> t \<le> rm_ts m) \<and>
     (case types of None \<Rightarrow> True | Some ts \<Rightarrow> ts = [] \<or> get_str L (rm_payload m) ''state'' '''' \<in> set ts))"

definition condense_one :: "sim_lib \<Rightarrow> rcp_message \<Rightarrow> (string \<times> json) list list \<Rightarrow> (string \<times> json) list list" where
  "condense_one L m acc =
     (if acc \<noteq> [] \<and> map_of (last acc) ''state'' = Some (JStr (get_str L (rm_payload m) ''state'' ''''))
      then butlast acc @ [event_entry m] else acc @ [event_entry m])"

definition condense_events :: "sim_lib \<Rightarrow> rcp_message list \<Rightarrow> string \<Rightarrow> string option \<Rightarrow> string list option \<Rightarrow> int \<Rightarrow> (string \<times> json) list list" where
  "condense_events L elog sim_id since types limit =
     (let capped = nat (min limit max_event_page);
          condensed = fold (condense_one L) (filter (listed L sim_id since types) elog) []
      in if capped = 0 then [] else drop (length condensed - capped) condensed)"

section \<open>Inbound messages\<close>

definition pull_ack_for :: "string \<Rightarrow> string option" where
  "pull_ack_for ty = map_of [(type_value TStatus, type_value TStatusAck), (type_value TLogs, type_value TLogsAck),
     (type_value TControl, type_value TControlAck), (type_value TResult, type_value TResultAck)] ty"

definition pull_acks :: "string list" where
  "pull_acks = map type_value [TStatusAck, TLogsAck, TControlAck, TResultAck]"

text \<open>\<open>future.set_result\<close> unless there is no such future or it is done.\<close>

definition resolve_future :: "string \<Rightarrow> rcp_message \<Rightarrow> (string \<times> rcp_message option) list \<Rightarrow> (string \<times> rcp_message option) list" where
  "resolve_future c m d = (case map_of d c of Some None \<Rightarrow> AList.update c (Some m) d | _ \<Rightarrow> d)"

definition resolve_pull :: "string \<Rightarrow> rcp_message \<Rightarrow> server \<Rightarrow> server" where
  "resolve_pull c m s =
     (if Option.bind (map_of (sv_pending_kind s) c) pull_ack_for = Some (rm_type m)
      then s\<lparr>sv_pending_pull := resolve_future c m (sv_pending_pull s)\<rparr> else s)"

definition from_client :: "(string \<Rightarrow> string \<Rightarrow> string) \<Rightarrow> sim_lib \<Rightarrow> server \<Rightarrow> rcp_message \<Rightarrow> bool" where
  "from_client mac L s m = (verify_message mac (sl_frepr L) (sv_secret s) m \<and> rm_sim m = sv_sim s \<and> rm_sender_role m = Simclient)"

definition on_message :: "(string \<Rightarrow> string \<Rightarrow> string) \<Rightarrow> sim_lib \<Rightarrow> rcp_message \<Rightarrow> server \<Rightarrow> server" where
  "on_message mac L m s =
     (let cmd_id = get_str L (rm_payload m) ''cmd_id'' '''' in
      if \<not> from_client mac L s m then s
      else if rm_kind m = KEvent \<and> rm_type m = type_value TEvent then project_event L m (append_event_log L m s)
      else if rm_kind m = KAck \<and> rm_type m \<in> set pull_acks then resolve_pull cmd_id m s
      else if rm_kind m = KAck \<and> rm_type m = type_value TSubmitAck
        then (let s1 = project_ack L m s in s1\<lparr>sv_pending := resolve_future cmd_id m (sv_pending s1)\<rparr>)
      else s)"

definition ingest_backfill :: "(string \<Rightarrow> string \<Rightarrow> string) \<Rightarrow> sim_lib \<Rightarrow> rcp_message list \<Rightarrow> server \<Rightarrow> server" where
  "ingest_backfill mac L ms s = fold (on_message mac L) ms s"

definition registry_list :: "bool \<Rightarrow> server \<Rightarrow> sim_record list" where
  "registry_list active_only s = (let rs = map snd (sv_registry s) in if active_only then filter sr_active rs else rs)"


section \<open>What a message changes\<close>

lemma drop_first_filter: "filter p (drop_first p n xs) = drop n (filter p xs)"
  by (induction p n xs rule: drop_first.induct) (auto simp: drop_Cons' split: if_splits)

lemma drop_first_other: "(\<And>x. p x \<Longrightarrow> \<not> q x) \<Longrightarrow> filter q (drop_first p n xs) = filter q xs"
  by (induction p n xs rule: drop_first.induct) auto

text \<open>The parts of the state a projection leaves alone.\<close>

definition same_frame :: "server \<Rightarrow> server \<Rightarrow> bool" where
  "same_frame s t \<longleftrightarrow> sv_sim t = sv_sim s \<and> sv_secret t = sv_secret s \<and> sv_sequences t = sv_sequences s \<and> sv_event_log_max t = sv_event_log_max s \<and>
     sv_pending_kind t = sv_pending_kind s \<and> sv_client_timeout t = sv_client_timeout s"

lemma same_frame_trans: "same_frame s t \<Longrightarrow> same_frame t u \<Longrightarrow> same_frame s u"
  by (simp add: same_frame_def)

lemma record_for_frame: "record_for sid c t s = (r, s') \<Longrightarrow> same_frame s s' \<and> sv_pending s' = sv_pending s \<and>
    sv_pending_pull s' = sv_pending_pull s \<and> sv_event_log s' = sv_event_log s"
  by (auto simp: record_for_def same_frame_def Let_def split: option.splits if_splits)

definition same_rest :: "server \<Rightarrow> server \<Rightarrow> bool" where
  "same_rest s t \<longleftrightarrow> same_frame s t \<and> sv_pending t = sv_pending s \<and> sv_pending_pull t = sv_pending_pull s \<and> sv_event_log t = sv_event_log s"

lemma same_rest_registry: "same_rest s t \<Longrightarrow> same_rest s (t\<lparr>sv_registry := reg\<rparr>)" "same_rest s t \<Longrightarrow> same_rest s (t\<lparr>sv_ready_calls := cs\<rparr>)"
  by (simp_all add: same_rest_def same_frame_def)

lemma record_for_rest: "same_rest s (snd (record_for sid c t s))"
  using record_for_frame [of sid c t s] by (cases "record_for sid c t s") (auto simp: same_rest_def)

lemma same_rest_refl: "same_rest s s"
  by (simp add: same_rest_def same_frame_def)

lemma project_event_rest: "same_rest s (project_event L m s)"
proof -
  let ?p = "\<lambda>k. get_str L (rm_payload m) k ''''"
  obtain r s1 where r: "record_for (?p ''sim_id'') (?p ''cmd_id'') (rm_ts m) s = (r, s1)" by force
  have "same_rest s s1" using record_for_rest [of s "?p ''sim_id''" "?p ''cmd_id''" "rm_ts m"] by (simp add: r)
  then have "same_rest s (s1\<lparr>sv_registry := reg, sv_ready_calls := cs\<rparr>)" for reg cs by (simp add: same_rest_def same_frame_def)
  then show ?thesis using \<open>same_rest s s1\<close> same_rest_refl [of s] by (simp add: project_event_def r Let_def)
qed

lemma project_ack_rest: "same_rest s (project_ack L m s)"
proof -
  let ?p = "\<lambda>k. get_str L (rm_payload m) k ''''"
  obtain r s1 where r: "record_for (?p ''sim_id'') (?p ''cmd_id'') (rm_ts m) s = (r, s1)" by force
  have "same_rest s s1" using record_for_rest [of s "?p ''sim_id''" "?p ''cmd_id''" "rm_ts m"] by (simp add: r)
  then show ?thesis using same_rest_refl [of s] same_rest_registry(1) [of s s1] by (simp add: project_ack_def r Let_def)
qed

lemma project_frame:
  "same_frame s (project_event L m s)" "sv_pending (project_event L m s) = sv_pending s"
  "sv_pending_pull (project_event L m s) = sv_pending_pull s" "sv_event_log (project_event L m s) = sv_event_log s"
  "same_frame s (project_ack L m s)" "sv_pending (project_ack L m s) = sv_pending s"
  "sv_pending_pull (project_ack L m s) = sv_pending_pull s" "sv_event_log (project_ack L m s) = sv_event_log s"
  using project_event_rest [of s L m] project_ack_rest [of s L m] by (simp_all add: same_rest_def)

lemma append_log_frame:
  "same_frame s (append_event_log L m s)" "sv_pending (append_event_log L m s) = sv_pending s"
  "sv_pending_pull (append_event_log L m s) = sv_pending_pull s" "sv_registry (append_event_log L m s) = sv_registry s"
  by (simp_all add: append_event_log_def same_frame_def Let_def)

lemma on_message_frame: "same_frame s (on_message mac L m s)"
proof -
  have "same_frame s (project_event L m (append_event_log L m s))" by (rule same_frame_trans [OF append_log_frame(1) project_frame(1)])
  moreover have "same_frame s t \<Longrightarrow> same_frame s (t\<lparr>sv_pending := f\<rparr>)" "same_frame s t \<Longrightarrow> same_frame s (t\<lparr>sv_pending_pull := f\<rparr>)" "same_frame s s" for t f
    by (simp_all add: same_frame_def)
  ultimately show ?thesis using project_frame(5) by (simp add: on_message_def resolve_pull_def Let_def)
qed

lemma from_client_frame: "same_frame s t \<Longrightarrow> from_client mac L t m = from_client mac L s m"
  by (simp add: same_frame_def from_client_def)

text \<open>An accepted lifecycle event.\<close>

definition accepted_event :: "(string \<Rightarrow> string \<Rightarrow> string) \<Rightarrow> sim_lib \<Rightarrow> server \<Rightarrow> rcp_message \<Rightarrow> bool" where
  "accepted_event mac L s m = (from_client mac L s m \<and> rm_kind m = KEvent \<and> rm_type m = type_value TEvent)"

section \<open>The event log keeps the latest of each simulation\<close>

lemma log_of_message:
  "sv_event_log (on_message mac L m s) = (if accepted_event mac L s m then sv_event_log (append_event_log L m s) else sv_event_log s)"
  by (simp add: on_message_def accepted_event_def resolve_pull_def project_frame Let_def)

lemma append_log_of:
  "filter (same_sim L sid) (sv_event_log (append_event_log L m s)) =
     (if same_sim L sid m
      then (let xs = filter (same_sim L sid) (sv_event_log s) @ [m] in drop (length xs - sv_event_log_max s) xs)
      else filter (same_sim L sid) (sv_event_log s))"
proof (cases "same_sim L sid m")
  case True
  then have "sid = get_str L (rm_payload m) ''sim_id'' ''''" by (simp add: same_sim_def)
  then show ?thesis using True by (simp add: append_event_log_def Let_def drop_first_filter)
next
  case False
  then show ?thesis
    by (simp add: append_event_log_def Let_def) (subst drop_first_other; auto simp: same_sim_def)
qed

lemma drop_keep: "drop (length (drop (length xs - n) xs @ [x]) - n) (drop (length xs - n) xs @ [x]) = drop (length (xs @ [x]) - n) (xs @ [x])"
  by (cases "length xs < n") (auto simp: Suc_diff_le)

lemma event_log_step:
  assumes "filter (same_sim L sid) (sv_event_log s) = drop (length xs - sv_event_log_max s) xs"
  shows "filter (same_sim L sid) (sv_event_log (on_message mac L m s)) =
    (let ys = xs @ (if accepted_event mac L s m \<and> same_sim L sid m then [m] else []) in drop (length ys - sv_event_log_max s) ys)"
  using assms drop_keep [of xs "sv_event_log_max s" m] by (simp add: log_of_message append_log_of Let_def)

lemma event_log_fold:
  assumes "filter (same_sim L sid) (sv_event_log s) = drop (length xs - sv_event_log_max s) xs"
  shows "filter (same_sim L sid) (sv_event_log (ingest_backfill mac L ms s)) =
    (let ys = xs @ filter (\<lambda>m. accepted_event mac L s m \<and> same_sim L sid m) ms in drop (length ys - sv_event_log_max s) ys)"
  using assms
proof (induction ms arbitrary: xs s)
  case (Cons m ms)
  let ?ys = "xs @ (if accepted_event mac L s m \<and> same_sim L sid m then [m] else [])"
  have fr: "same_frame s (on_message mac L m s)" by (rule on_message_frame)
  then have mx: "sv_event_log_max (on_message mac L m s) = sv_event_log_max s"
    and ev: "accepted_event mac L (on_message mac L m s) = accepted_event mac L s"
    by (simp_all add: same_frame_def accepted_event_def fun_eq_iff from_client_def)
  have "filter (same_sim L sid) (sv_event_log (on_message mac L m s)) = drop (length ?ys - sv_event_log_max (on_message mac L m s)) ?ys"
    using event_log_step [OF Cons.prems, of mac m] by (simp only: mx Let_def)
  note IH = Cons.IH [OF this]
  have split: "xs @ filter (\<lambda>m. accepted_event mac L s m \<and> same_sim L sid m) (m # ms) = ?ys @ filter (\<lambda>m. accepted_event mac L s m \<and> same_sim L sid m) ms"
    by simp
  have "ingest_backfill mac L (m # ms) s = ingest_backfill mac L ms (on_message mac L m s)" by (simp add: ingest_backfill_def)
  then show ?case using IH by (simp only: split mx ev Let_def)
qed (simp add: ingest_backfill_def)


section \<open>A finished run stays finished\<close>

lemma registry_other:
  assumes "\<not> same_sim L sid m" shows "map_of (sv_registry (on_message mac L m s)) sid = map_of (sv_registry s) sid"
proof -
  have rec: "record_for k c t u = (r, u') \<Longrightarrow> k \<noteq> sid \<Longrightarrow> map_of (sv_registry u') sid = map_of (sv_registry u) sid" for k c t u r u'
    by (auto simp: record_for_def Let_def split: option.splits if_splits)
  have k: "get_str L (rm_payload m) ''sim_id'' '''' \<noteq> sid" using assms by (simp add: same_sim_def)
  have "map_of (sv_registry (project_event L m u)) sid = map_of (sv_registry u) sid"
    "map_of (sv_registry (project_ack L m u)) sid = map_of (sv_registry u) sid" for u
    using rec [of "get_str L (rm_payload m) ''sim_id'' ''''" _ _ u] k by (auto simp: project_event_def project_ack_def Let_def split: prod.split)
  then show ?thesis by (simp add: on_message_def resolve_pull_def append_log_frame Let_def)
qed

text \<open>A message that does not start a newer run of a simulation: it names no run, the same run, or is older.\<close>

definition no_new_run :: "sim_lib \<Rightarrow> string \<Rightarrow> string \<Rightarrow> string \<Rightarrow> rcp_message \<Rightarrow> bool" where
  "no_new_run L sid c t m \<longleftrightarrow> (same_sim L sid m \<longrightarrow> get_str L (rm_payload m) ''cmd_id'' '''' \<in> {'''', c} \<or> rm_ts m < t)"

text \<open>What stays of a record that is terminal.\<close>

definition same_end :: "sim_record \<Rightarrow> sim_record \<Rightarrow> bool" where
  "same_end r q \<longleftrightarrow> sr_sim_id q = sr_sim_id r \<and> sr_cmd_id q = sr_cmd_id r \<and> sr_state q = sr_state r \<and> sr_last_type q = sr_last_type r \<and>
     sr_last_ts q = sr_last_ts r \<and> sr_active q = sr_active r"

lemma same_end_refl [simp]: "same_end r r"
  by (simp add: same_end_def)

lemma ack_keeps_end: "is_terminal (sr_state r) \<Longrightarrow> sr_last_ts r = Some t \<Longrightarrow> same_end r (ack_record st m r)"
  by (auto simp: ack_record_def first_ts_def same_end_def is_terminal_def terminal_states_def Let_def)

lemma record_for_kept:
  assumes "map_of (sv_registry s) sid = Some r" "sr_last_ts r = Some t" "c \<in> {'''', sr_cmd_id r} \<or> ts < t"
  shows "record_for sid c ts s = (r, s)"
  using assms by (auto simp: record_for_def Let_def)

lemma terminal_step:
  assumes "map_of (sv_registry s) sid = Some r" "is_terminal (sr_state r)" "sr_last_ts r = Some t" "no_new_run L sid (sr_cmd_id r) t m" "sid \<noteq> ''''"
  shows "\<exists>q. map_of (sv_registry (on_message mac L m s)) sid = Some q \<and> same_end r q"
proof (cases "same_sim L sid m")
  case False
  then show ?thesis using registry_other assms(1) by fastforce
next
  case True
  let ?c = "get_str L (rm_payload m) ''cmd_id'' ''''"
  have sid: "get_str L (rm_payload m) ''sim_id'' '''' = sid" using True by (simp add: same_sim_def)
  have rf: "record_for sid ?c (rm_ts m) u = (r, u)" if "map_of (sv_registry u) sid = Some r" for u
    using record_for_kept [OF that assms(3)] assms(4) True by (simp add: no_new_run_def)
  have ev: "map_of (sv_registry (project_event L m u)) sid = Some r" if "map_of (sv_registry u) sid = Some r" for u
    using rf [OF that] that assms(2,5) by (simp add: project_event_def sid Let_def)
  have ack: "\<exists>q. map_of (sv_registry (project_ack L m u)) sid = Some q \<and> same_end r q" if "map_of (sv_registry u) sid = Some r" for u
    using rf [OF that] that ack_keeps_end [OF assms(2,3)] assms(5) by (simp add: project_ack_def sid Let_def)
  show ?thesis using ev [of "append_event_log L m s"] ack [OF assms(1)] assms(1)
    by (auto simp: on_message_def resolve_pull_def append_log_frame Let_def)
qed

lemma terminal_fold:
  assumes "map_of (sv_registry s) sid = Some r" "is_terminal (sr_state r)" "sr_last_ts r = Some t" "sid \<noteq> ''''"
    "list_all (no_new_run L sid (sr_cmd_id r) t) ms"
  shows "\<exists>q. map_of (sv_registry (ingest_backfill mac L ms s)) sid = Some q \<and> same_end r q"
  using assms
proof (induction ms arbitrary: s r)
  case (Cons m ms)
  obtain q where q: "map_of (sv_registry (on_message mac L m s)) sid = Some q" "same_end r q"
    using terminal_step [OF Cons.prems(1-3) _ Cons.prems(4), of L m mac] Cons.prems(5) by auto
  then have "\<exists>p. map_of (sv_registry (ingest_backfill mac L ms (on_message mac L m s))) sid = Some p \<and> same_end q p"
    by (intro Cons.IH) (use Cons.prems q(2) in \<open>simp_all add: same_end_def\<close>)
  then show ?case using q(2) by (auto simp: ingest_backfill_def same_end_def)
qed (simp add: ingest_backfill_def)

text \<open>
  The guard is by time stamp, not by the order of submission: an event of an older run that is emitted after the
  newer run's last event replaces its record, also a finished one.
\<close>

lemma live_old_run_takes_over:
  assumes "from_client mac L s m" "rm_kind m = KEvent" "rm_type m = type_value TEvent" "get_str L (rm_payload m) ''sim_id'' '''' = sid"
    "sid \<noteq> ''''" "get_str L (rm_payload m) ''cmd_id'' '''' = old" "old \<noteq> ''''" "get_str L (rm_payload m) ''state'' '''' = state_value SimStepFinished"
    "map_of (sv_registry s) sid = Some r" "sr_last_ts r = Some t" "sr_cmd_id r \<noteq> old" "t \<le> rm_ts m"
  shows "\<exists>q. map_of (sv_registry (on_message mac L m s)) sid = Some q \<and> sr_cmd_id q = old \<and> sr_active q"
proof -
  let ?s = "append_event_log L m s"
  have "record_for sid old (rm_ts m) ?s = (fresh_record sid old, ?s\<lparr>sv_registry := AList.update sid (fresh_record sid old) (sv_registry ?s)\<rparr>)"
    using assms(7,9-12) by (simp add: record_for_def Let_def append_log_frame)
  moreover have "\<not> is_terminal (state_value SimStepFinished)" "\<not> is_terminal ''''" by (simp_all add: is_terminal_def terminal_states_def)
  ultimately show ?thesis using assms(1-8)
    by (simp add: on_message_def project_event_def event_record_def fresh_record_def Let_def)
qed


lemma terminal_event_recorded:
  assumes "accepted_event mac L s m" "get_str L (rm_payload m) ''sim_id'' '''' = sid" "sid \<noteq> ''''"
    "get_str L (rm_payload m) ''cmd_id'' '''' = sr_cmd_id r" "get_str L (rm_payload m) ''state'' '''' = st"
    "map_of (sv_registry s) sid = Some r" "\<not> is_terminal (sr_state r)" "is_terminal st"
  shows "\<exists>q. map_of (sv_registry (on_message mac L m s)) sid = Some q \<and> sr_cmd_id q = sr_cmd_id r \<and> sr_state q = st \<and>
    sr_last_ts q = Some (rm_ts m) \<and> \<not> sr_active q"
proof -
  let ?s = "append_event_log L m s"
  have "record_for sid (sr_cmd_id r) (rm_ts m) ?s = (r, ?s)" using assms(6) by (simp add: record_for_def Let_def append_log_frame)
  then show ?thesis using assms
    by (simp add: on_message_def project_event_def event_record_def accepted_event_def Let_def)
qed


section \<open>A concrete service\<close>

definition sample_server :: server where
  "sample_server = new_server ''sim'' ''key'' 2 None"

definition sample_event :: "string \<Rightarrow> string \<Rightarrow> simulation_state \<Rightarrow> rcp_message" where
  "sample_event ts c st = sign_message sample_mac (sl_frepr sample_sim_lib) ''key'' (build_submit_event ts ''sim'' 1 c ''0123abcd'' st (Some 7) no_fields)"

lemma signed_verifies: "verify_message mac frepr k (sign_message mac frepr k m)"
  by (simp add: verify_message_def sign_message_def verify_iff signed_payload_def signed_fields_def)

lemma sample_event_parts:
  "rm_payload (sample_event ts c st) = [(''cmd_id'', JStr c), (''sim_id'', JStr ''0123abcd''), (''state'', JStr (state_value st)), (''job_id'', JInt 7)]"
  "rm_ts (sample_event ts c st) = ts" "rm_kind (sample_event ts c st) = KEvent" "rm_type (sample_event ts c st) = type_value TEvent"
  "rm_sim (sample_event ts c st) = ''sim''" "rm_sender_role (sample_event ts c st) = Simclient"
  by (simp_all add: sample_event_def build_submit_event_def sign_message_def no_fields_def some_entry_def some_text_def opt_int_def truthy_def
      signal_from_exit_code_def) (simp add: new_message_def)+

lemma sample_event_accepted: "sv_sim s = ''sim'' \<Longrightarrow> sv_secret s = ''key'' \<Longrightarrow> accepted_event sample_mac sample_sim_lib s (sample_event ts c st)"
  using signed_verifies [of sample_mac "sl_frepr sample_sim_lib" "''key''"]
  by (simp add: accepted_event_def from_client_def sample_event_parts) (simp add: sample_event_def)

lemma sample_server_parts [simp]: "sv_sim sample_server = ''sim''" "sv_secret sample_server = ''key''" "sv_event_log_max sample_server = 2"
  "sv_event_log sample_server = []" "sv_registry sample_server = []"
  by (simp_all add: sample_server_def new_server_def)

section \<open>Properties\<close>

text \<open>
  C38: A finished run stays finished. Once the registry holds a terminal state for a simulation, no sequence of
  messages changes the recorded run, its state, its last event and its inactivity, as long as every message about that
  simulation either belongs to the same run (or names none) or is older than the record: late progress
  events, redelivered acks, replays of the room and messages about other simulations included.
\<close>

theorem terminal_run_is_final:
  assumes "map_of (sv_registry s) sid = Some r" "is_terminal (sr_state r)" "sr_last_ts r = Some t" "sid \<noteq> ''''"
    "list_all (no_new_run L sid (sr_cmd_id r) t) ms"
  shows "\<exists>q. map_of (sv_registry (ingest_backfill mac L ms s)) sid = Some q \<and> sr_cmd_id q = sr_cmd_id r \<and> sr_state q = sr_state r \<and>
    sr_last_ts q = sr_last_ts r \<and> sr_last_type q = sr_last_type r \<and> sr_active q = sr_active r"
  using terminal_fold [OF assms, of mac] by (auto simp: same_end_def)

theorem terminal_run_is_final_witness:
  "\<exists>q. map_of (sv_registry (ingest_backfill sample_mac sample_sim_lib [sample_event ''3'' ''c1'' SimStepFinished, sample_event ''0'' ''c0'' SimJobRunning]
     (on_message sample_mac sample_sim_lib (sample_event ''2'' ''c1'' SimResultsReady) sample_server))) ''0123abcd'' = Some q \<and>
     sr_state q = ''results.ready'' \<and> sr_cmd_id q = ''c1''"
proof -
  let ?s = "on_message sample_mac sample_sim_lib (sample_event ''2'' ''c1'' SimResultsReady) sample_server"
  have "from_client sample_mac sample_sim_lib sample_server (sample_event ''2'' ''c1'' SimResultsReady)"
    using sample_event_accepted [of sample_server] by (simp add: accepted_event_def)
  then obtain r where r: "map_of (sv_registry ?s) ''0123abcd'' = Some r" "sr_state r = ''results.ready''" "sr_cmd_id r = ''c1''" "sr_last_ts r = Some ''2''"
    by (simp add: on_message_def project_event_def record_for_def sample_event_parts event_record_def fresh_record_def append_log_frame
        is_terminal_def terminal_states_def Let_def)
  have "no_new_run sample_sim_lib ''0123abcd'' ''c1'' ''2'' (sample_event ''3'' ''c1'' SimStepFinished)"
    "no_new_run sample_sim_lib ''0123abcd'' ''c1'' ''2'' (sample_event ''0'' ''c0'' SimJobRunning)"
    by (simp_all add: no_new_run_def sample_event_parts)
  moreover have "is_terminal (sr_state r)" by (simp add: r(2) is_terminal_def terminal_states_def)
  ultimately show ?thesis
    using terminal_run_is_final [OF r(1) _ r(4), of sample_sim_lib "[sample_event ''3'' ''c1'' SimStepFinished, sample_event ''0'' ''c0'' SimJobRunning]" sample_mac] r(2,3)
    by auto
qed

text \<open>
  C39: The event log keeps, for every simulation, exactly the latest accepted events about it, as many as the cap
  allows and in the order of arrival: a busy simulation never evicts another one's history, and nothing that was
  not signed by the client of this simulation gets in.
\<close>

theorem event_log_keeps_latest:
  "filter (same_sim L sid) (sv_event_log (ingest_backfill mac L ms (new_server sim secret n budget))) =
   (let xs = filter (\<lambda>m. accepted_event mac L (new_server sim secret n budget) m \<and> same_sim L sid m) ms in drop (length xs - n) xs)"
proof -
  have "sv_event_log (new_server sim secret n budget) = []" "sv_event_log_max (new_server sim secret n budget) = n" by (simp_all add: new_server_def)
  then show ?thesis using event_log_fold [of L sid "new_server sim secret n budget" "[]" mac ms] by (simp add: Let_def)
qed

end
