(* ===== verification/SimWait.thy ===== *)
theory SimWait
  imports SimServer
begin

text \<open>
  \<open>wait_for_state\<close> of \<open>server/simulation.py\<close>: the bounded wait for a state. The loop wakes up a number of times; what
  it sees each time (the service, and the clock at its two readings) is an observation.
\<close>

section \<open>What may be asked\<close>

text \<open>The least timeout is the binary64 value of the literal \<open>0.1\<close>.\<close>

definition min_wait_timeout :: pyfloat where
  "min_wait_timeout = Fin (3602879701896397 / 2 ^ 55)"

definition max_wait_timeout :: pyfloat where
  "max_wait_timeout = Fin 3600"

definition default_wait_timeout :: pyfloat where
  "default_wait_timeout = Fin 1800"

definition wait_client_timeout_skew :: pyfloat where
  "wait_client_timeout_skew = Fin 5"

datatype wait_error = UnknownTarget string | BadTimeout pyfloat | UnknownSimulation string | ExceedsClientTimeout pyfloat pyfloat pyfloat

fun wait_targets :: "string list \<Rightarrow> wait_error + string list" where
  "wait_targets [] = Inr []"
| "wait_targets (n # ns) =
     (if n = ''terminal'' then map_sum id (\<lambda>ts. terminal_states @ ts) (wait_targets ns)
      else if n \<notin> set (map state_value all_states) then Inl (UnknownTarget n)
      else map_sum id (\<lambda>ts. n # ts) (wait_targets ns))"

definition resolve_wait_targets :: "string list option \<Rightarrow> wait_error + (string list \<times> bool)" where
  "resolve_wait_targets names = (case names of
     None \<Rightarrow> Inr (terminal_states, True)
   | Some ns \<Rightarrow>
       if ns = [] \<or> ns = [''terminal''] then Inr (terminal_states, True)
       else bind_res (wait_targets ns) (\<lambda>ts. Inr (ts, set ts \<subseteq> set terminal_states)))"

definition validate_timeout :: "pyfloat \<Rightarrow> wait_error + pyfloat" where
  "validate_timeout t = (if fle min_wait_timeout t \<and> fle t max_wait_timeout then Inr t else Inl (BadTimeout t))"

definition check_client_budget :: "pyfloat \<Rightarrow> pyfloat option \<Rightarrow> wait_error + unit" where
  "check_client_budget t budget = (case budget of
     None \<Rightarrow> Inr ()
   | Some b \<Rightarrow> (let limit = fsub b wait_client_timeout_skew in if flt limit t then Inl (ExceedsClientTimeout t b limit) else Inr ()))"

section \<open>What is answered\<close>

text \<open>
  \<open>_record_phase\<close>. A record's own phase is never empty, so the branches after the first are not reached.
\<close>

definition has_job :: "sim_record \<Rightarrow> bool" where
  "has_job r = (value_of r ''job_id'' \<noteq> None)"

definition own_phase :: "sim_record \<Rightarrow> string" where
  "own_phase r = simulation_phase (sr_state r) (if has_job r then Some 0 else None)"

definition record_phase :: "sim_record \<Rightarrow> string option" where
  "record_phase r =
     (if own_phase r \<noteq> '''' then Some (own_phase r)
      else if is_terminal (sr_state r) then None
      else if \<not> has_job r then Some ''building''
      else if sr_state r = state_value SimJobRunning \<or> text_value r ''slurm_state'' = Some ''RUNNING'' then Some ''running''
      else if sr_state r = state_value SimJobFinished then Some ''finalizing''
      else Some ''queued'')"

definition or_null :: "json option \<Rightarrow> json" where
  "or_null v = (case v of None \<Rightarrow> JNull | Some x \<Rightarrow> x)"

definition int_value :: "sim_record \<Rightarrow> string \<Rightarrow> int option" where
  "int_value r k = (case value_of r k of Some (JInt i) \<Rightarrow> Some i | Some (JBool b) \<Rightarrow> Some (if b then 1 else 0) | _ \<Rightarrow> None)"

text \<open>An exit code that is not an integer is read as none; the client sends integers.\<close>

definition record_status :: "sim_record \<Rightarrow> (string \<times> json) list" where
  "record_status r = [(''state'', JStr (sr_state r)), (''job_id'', or_null (value_of r ''job_id'')), (''slurm_state'', or_null (value_of r ''slurm_state'')),
     (''slurm_reason'', or_null (value_of r ''slurm_reason'')), (''slurm_blocked'', JBool (slurm_blocked r)), (''step'', or_null (value_of r ''step'')),
     (''percent'', or_null (value_of r ''percent'')), (''eta_s'', or_null (value_of r ''eta_s'')), (''error'', or_null (value_of r ''error'')),
     (''error_code'', or_null (value_of r ''error_code'')), (''failure_summary'', or_null (value_of r ''failure_summary'')),
     (''exit_signal'', opt_str (signal_from_exit_code (int_value r ''exit_code''))), (''active'', JBool (sr_active r))] @
     some_entry ''phase'' JStr (record_phase r)"

definition timeout_wait_note :: "sim_record \<Rightarrow> bool \<Rightarrow> string" where
  "timeout_wait_note r terminal_only =
     (if \<not> terminal_only then ''the requested state was not reached before the deadline; call again to keep waiting''
      else ''last-known state '' @ py_repr (sr_state r) @ ''; the run is not terminal yet, call wait_for_simulation again to keep waiting'')"

definition wait_note :: "sim_record option \<Rightarrow> bool \<Rightarrow> bool \<Rightarrow> bool \<Rightarrow> string option" where
  "wait_note rec matched timed_out terminal_only =
     (if \<not> timed_out then
        (case rec of
           Some r \<Rightarrow> if \<not> matched \<and> is_terminal (sr_state r)
             then Some (''the run reached terminal state '' @ py_repr (sr_state r) @
               '', which is not one of the requested targets; no further state transition is expected'') else None
         | None \<Rightarrow> None)
      else (case rec of
           None \<Rightarrow> Some ''unsupported: the simulation is not in the registry''
         | Some r \<Rightarrow>
             if \<not> has_job r then Some ''still in the build/queue phase (no scheduler job id yet; a PIConGPU compile can take 15-20 min); call wait_for_simulation again to keep waiting''
             else if slurm_blocked r then Some (''the scheduler reports '' @ py_repr (case text_value r ''slurm_reason'' of None \<Rightarrow> '''' | Some t \<Rightarrow> t) @
               '' for this job, a permanent limit on the current request; it cannot start as submitted, so change the allocation (e.g. fewer nodes/GPUs) and resubmit rather than waiting again'')
             else Some (timeout_wait_note r terminal_only)))"

record wait_outcome =
  wo_state :: string
  wo_matched :: bool
  wo_timed_out :: bool
  wo_waited :: pyfloat
  wo_targets :: "string list"
  wo_events :: "(string \<times> json) list list"
  wo_status :: "(string \<times> json) list"
  wo_note :: "string option"

section \<open>The loop\<close>

record observation =
  ob_server :: server
  ob_now :: pyfloat
  ob_end :: pyfloat

text \<open>What a call waits for, fixed when it starts; \<open>wa_round\<close> is \<open>round\<close> to three digits.\<close>

record waiting =
  wa_sim_id :: string
  wa_targets :: "string list"
  wa_terminal_only :: bool
  wa_started :: pyfloat
  wa_deadline :: pyfloat
  wa_round :: "pyfloat \<Rightarrow> pyfloat"

definition outcome_of :: "sim_lib \<Rightarrow> waiting \<Rightarrow> observation \<Rightarrow> string \<Rightarrow> bool \<Rightarrow> bool \<Rightarrow> wait_outcome" where
  "outcome_of L w ob st matched timed_out =
     (let rec = map_of (sv_registry (ob_server ob)) (wa_sim_id w) in
      \<lparr>wo_state = st, wo_matched = matched, wo_timed_out = timed_out, wo_waited = wa_round w (fsub (ob_end ob) (wa_started w)),
       wo_targets = sort (remdups (wa_targets w)),
       wo_events = condense_events L (sv_event_log (ob_server ob)) (wa_sim_id w) None None max_event_page,
       wo_status = (case rec of None \<Rightarrow> [] | Some r \<Rightarrow> record_status r), wo_note = wait_note rec matched timed_out (wa_terminal_only w)\<rparr>)"

definition look :: "sim_lib \<Rightarrow> waiting \<Rightarrow> observation \<Rightarrow> wait_outcome option" where
  "look L w ob =
     (let rec = map_of (sv_registry (ob_server ob)) (wa_sim_id w); remaining = fsub (wa_deadline w) (ob_now ob);
          st = (case rec of None \<Rightarrow> '''' | Some r \<Rightarrow> sr_state r) in
      if rec \<noteq> None \<and> st \<in> set (wa_targets w) then Some (outcome_of L w ob st True False)
      else if rec \<noteq> None \<and> is_terminal st then Some (outcome_of L w ob st False False)
      else if fle remaining (Fin 0) then Some (outcome_of L w ob st False True)
      else None)"

fun wait_loop :: "sim_lib \<Rightarrow> waiting \<Rightarrow> observation list \<Rightarrow> wait_outcome option" where
  "wait_loop L w [] = None"
| "wait_loop L w (ob # os) = (case look L w ob of None \<Rightarrow> wait_loop L w os | Some r \<Rightarrow> Some r)"

text \<open>The checks, in the order of the code; then the loop. \<open>None\<close>: it is still waiting after the observations given.\<close>

definition start_wait :: "server \<Rightarrow> string \<Rightarrow> string list option \<Rightarrow> pyfloat \<Rightarrow> pyfloat \<Rightarrow> (pyfloat \<Rightarrow> pyfloat) \<Rightarrow> wait_error + waiting" where
  "start_wait s sim_id names timeout started rd =
     bind_res (resolve_wait_targets names) (\<lambda>(ts, only).
     bind_res (validate_timeout timeout) (\<lambda>t.
     if map_of (sv_registry s) sim_id = None then Inl (UnknownSimulation sim_id)
     else bind_res (check_client_budget t (sv_client_timeout s)) (\<lambda>_.
       Inr \<lparr>wa_sim_id = sim_id, wa_targets = ts, wa_terminal_only = only, wa_started = started, wa_deadline = fadd started t, wa_round = rd\<rparr>)))"

definition wait_for_state :: "sim_lib \<Rightarrow> server \<Rightarrow> string \<Rightarrow> string list option \<Rightarrow> pyfloat \<Rightarrow> pyfloat \<Rightarrow> (pyfloat \<Rightarrow> pyfloat) \<Rightarrow>
    observation list \<Rightarrow> wait_error + wait_outcome option" where
  "wait_for_state L s sim_id names timeout started rd os =
     bind_res (start_wait s sim_id names timeout started rd) (\<lambda>w. Inr (wait_loop L w os))"

section \<open>Facts\<close>

text \<open>A record's own phase is what is reported; the fallback of the wait is never used.\<close>

lemma phase_never_empty: "simulation_phase st j \<noteq> ''''"
proof -
  have "phase_value ph \<noteq> ''''" for ph by (cases ph) simp_all
  then show ?thesis by (simp add: simulation_phase_def split: option.split)
qed

lemma record_phase_canonical: "record_phase r = Some (own_phase r)"
  using phase_never_empty by (simp add: record_phase_def own_phase_def)

lemma wait_loop_skips: "list_all (\<lambda>ob. look L w ob = None) os \<Longrightarrow> wait_loop L w (os @ ps) = wait_loop L w ps"
  by (induction os) simp_all

lemma wait_targets_known: "wait_targets ns = Inr ts \<Longrightarrow> set ts \<subseteq> set (map state_value all_states)"
proof (induction ns arbitrary: ts)
  case (Cons n ns)
  have "set terminal_states \<subseteq> set (map state_value all_states)" by (simp add: terminal_states_def all_states_def)
  then show ?case using Cons by (cases "wait_targets ns") (auto split: if_splits)
qed simp

lemma resolved_default: "resolve_wait_targets None = Inr (terminal_states, True)"
  by (simp add: resolve_wait_targets_def)

lemma look_matched: "look L w ob = Some r \<Longrightarrow> wo_matched r \<longleftrightarrow> wo_state r \<in> set (wa_targets w) \<and> map_of (sv_registry (ob_server ob)) (wa_sim_id w) \<noteq> None"
  by (auto simp: look_def outcome_of_def Let_def split: if_splits option.splits)

text \<open>The loop ends at the first observation at or after the deadline, if not before.\<close>

lemma wait_deadline: "ob \<in> set os \<Longrightarrow> fle (fsub (wa_deadline w) (ob_now ob)) (Fin 0) \<Longrightarrow> wait_loop L w os \<noteq> None"
proof (induction os)
  case (Cons p os)
  have "look L w ob \<noteq> None" using Cons.prems(2) by (simp add: look_def Let_def)
  then show ?case using Cons by (cases "look L w p") auto
qed simp


section \<open>Properties\<close>

text \<open>
  C40: A wait for the end returns it. When the terminal event of the awaited run arrives, the wait of a caller that
  named no states returns at its next wake-up, whatever else has arrived by then except a newer run of
  the same simulation: the outcome is matched and not timed out, carries that state and an inactive status, and needs no note.
  The wake-ups before it are those that saw neither the end nor the deadline.
\<close>

theorem terminal_event_ends_wait:
  assumes "start_wait s0 sid None timeout started rd = Inr w" "list_all (\<lambda>ob. look L w ob = None) obs"
    and "accepted_event mac L s m" "get_str L (rm_payload m) ''sim_id'' '''' = sid" "sid \<noteq> ''''"
    and "map_of (sv_registry s) sid = Some r" "\<not> is_terminal (sr_state r)"
    and "get_str L (rm_payload m) ''cmd_id'' '''' = sr_cmd_id r" "get_str L (rm_payload m) ''state'' '''' = st" "is_terminal st"
    and "list_all (no_new_run L sid (sr_cmd_id r) (rm_ts m)) ms" "ob_server ob = ingest_backfill mac L ms (on_message mac L m s)"
  shows "\<exists>out. wait_for_state L s0 sid None timeout started rd (obs @ ob # rest) = Inr (Some out) \<and> wo_matched out \<and> \<not> wo_timed_out out \<and>
    wo_state out = st \<and> map_of (wo_status out) ''state'' = Some (JStr st) \<and> map_of (wo_status out) ''active'' = Some (JBool False) \<and>
    wo_note out = None"
proof -
  obtain q where q: "map_of (sv_registry (on_message mac L m s)) sid = Some q" "sr_cmd_id q = sr_cmd_id r" "sr_state q = st"
    "sr_last_ts q = Some (rm_ts m)" "\<not> sr_active q"
    using terminal_event_recorded [OF assms(3,4,5,8,9,6,7,10)] by blast
  obtain p where p: "map_of (sv_registry (ob_server ob)) sid = Some p" "sr_state p = st" "\<not> sr_active p"
    using terminal_fold [OF q(1) _ q(4) assms(5), of L ms mac] assms(10-12) q(2,3,5) by (auto simp: same_end_def)
  have w: "wa_sim_id w = sid" "wa_targets w = terminal_states"
    using assms(1) by (auto simp: start_wait_def resolved_default bind_res_Inr_iff validate_timeout_def check_client_budget_def Let_def
        split: if_splits option.splits)
  have st: "st \<in> set terminal_states" using assms(10) by (simp add: is_terminal_def)
  have "look L w ob = Some (outcome_of L w ob st True False)" using p st by (simp add: look_def w Let_def)
  then have "wait_for_state L s0 sid None timeout started rd (obs @ ob # rest) = Inr (Some (outcome_of L w ob st True False))"
    using wait_loop_skips [OF assms(2)] by (simp add: wait_for_state_def assms(1))
  then show ?thesis using p by (simp add: outcome_of_def w record_status_def wait_note_def)
qed

definition sample_observation :: "server \<Rightarrow> observation" where
  "sample_observation s = \<lparr>ob_server = s, ob_now = Fin 1, ob_end = Fin 1\<rparr>"

definition running_server :: server where
  "running_server = on_message sample_mac sample_sim_lib (sample_event ''1'' ''c1'' SimJobRunning) sample_server"

lemma running_server_parts:
  "\<exists>r. map_of (sv_registry running_server) ''0123abcd'' = Some r \<and> sr_state r = state_value SimJobRunning \<and> sr_cmd_id r = ''c1''"
  "sv_sim running_server = ''sim''" "sv_secret running_server = ''key''" "sv_client_timeout running_server = None"
proof -
  have "from_client sample_mac sample_sim_lib sample_server (sample_event ''1'' ''c1'' SimJobRunning)"
    using sample_event_accepted [of sample_server] by (simp add: accepted_event_def)
  then show "\<exists>r. map_of (sv_registry running_server) ''0123abcd'' = Some r \<and> sr_state r = state_value SimJobRunning \<and> sr_cmd_id r = ''c1''"
    by (simp add: running_server_def on_message_def project_event_def record_for_def sample_event_parts event_record_def fresh_record_def append_log_frame
        is_terminal_def terminal_states_def Let_def)
  show "sv_sim running_server = ''sim''" "sv_secret running_server = ''key''" "sv_client_timeout running_server = None"
    using on_message_frame [of sample_server sample_mac sample_sim_lib] by (simp_all add: running_server_def same_frame_def) (simp add: sample_server_def new_server_def)
qed

theorem terminal_event_ends_wait_witness:
  "\<exists>out. wait_for_state sample_sim_lib running_server ''0123abcd'' None (Fin 60) (Fin 0) id
     [sample_observation running_server,
      sample_observation (ingest_backfill sample_mac sample_sim_lib [sample_event ''3'' ''c1'' SimStepFinished]
        (on_message sample_mac sample_sim_lib (sample_event ''2'' ''c1'' SimFailed) running_server))] = Inr (Some out) \<and>
     wo_matched out \<and> wo_state out = ''simulation.failed''"
proof -
  obtain r where r: "map_of (sv_registry running_server) ''0123abcd'' = Some r" "sr_state r = state_value SimJobRunning" "sr_cmd_id r = ''c1''"
    using running_server_parts(1) by blast
  let ?w = "\<lparr>wa_sim_id = ''0123abcd'', wa_targets = terminal_states, wa_terminal_only = True, wa_started = Fin 0, wa_deadline = Fin 60, wa_round = id\<rparr>"
  have "fle min_wait_timeout (Fin 60)" "fle (Fin 60) max_wait_timeout"
    by (simp_all add: fle_def min_wait_timeout_def max_wait_timeout_def)
  then have start: "start_wait running_server ''0123abcd'' None (Fin 60) (Fin 0) id = Inr ?w"
    using r by (simp add: start_wait_def resolved_default validate_timeout_def check_client_budget_def running_server_parts(4))
  have l: "look sample_sim_lib ?w (sample_observation running_server) = None"
    using r by (simp add: look_def sample_observation_def terminal_states_def is_terminal_def fsub_def fle_def feq_def)
  have "no_new_run sample_sim_lib ''0123abcd'' ''c1'' ''2'' (sample_event ''3'' ''c1'' SimStepFinished)"
    by (simp add: no_new_run_def sample_event_parts)
  then show ?thesis
    using terminal_event_ends_wait [OF start, of sample_sim_lib "[sample_observation running_server]" sample_mac running_server "sample_event ''2'' ''c1'' SimFailed"
        r "''simulation.failed''" "[sample_event ''3'' ''c1'' SimStepFinished]" "sample_observation (ingest_backfill sample_mac sample_sim_lib [sample_event ''3'' ''c1'' SimStepFinished]
        (on_message sample_mac sample_sim_lib (sample_event ''2'' ''c1'' SimFailed) running_server))" "[]"] r l
      sample_event_accepted [OF running_server_parts(2,3)]
    by (auto simp: sample_event_parts is_terminal_def terminal_states_def sample_observation_def)
qed

end
