(* ===== verification/SimAsk.thy ===== *)
theory SimAsk
  imports SimServer SimResults
begin

text \<open>
  The requests of \<open>server/simulation.py\<close>. Each is split where the code awaits the answer: opening registers a
  future and yields the signed command to send, closing reads the future when it is done or the wait timed out.
  Between the two any messages may arrive and any other request may be opened or closed.
\<close>

section \<open>Pulls\<close>

text \<open>A request is refused with an answer of its own, raises, or is sent.\<close>

datatype asked = Refused "(string \<times> json) list" | Raises string | Asks rcp_message server

definition open_pull :: "(string \<Rightarrow> string \<Rightarrow> string) \<Rightarrow> sim_lib \<Rightarrow> string \<Rightarrow> (int \<Rightarrow> string + rcp_message) \<Rightarrow> server \<Rightarrow> asked" where
  "open_pull mac L cmd_id build s = (case next_seq (sv_sequences s) (sv_sim s) McpServer of (n, sq) \<Rightarrow>
     (case build n of
        Inl e \<Rightarrow> Raises e
      | Inr m \<Rightarrow> Asks (sign_message mac (sl_frepr L) (sv_secret s) m)
          (s\<lparr>sv_sequences := sq, sv_pending_pull := AList.update cmd_id None (sv_pending_pull s),
             sv_pending_kind := AList.update cmd_id (rm_type m) (sv_pending_kind s)\<rparr>)))"

definition close_pull :: "string \<Rightarrow> string \<Rightarrow> server \<Rightarrow> (string \<times> json) list \<times> server" where
  "close_pull sim_id cmd_id s =
     ((case map_of (sv_pending_pull s) cmd_id of
         Some (Some a) \<Rightarrow> rm_payload a
       | _ \<Rightarrow> [(''sim_id'', JStr sim_id), (''error'', JStr ''timeout'')]),
      s\<lparr>sv_pending_pull := AList.delete cmd_id (sv_pending_pull s), sv_pending_kind := AList.delete cmd_id (sv_pending_kind s)\<rparr>)"

definition capability_error :: "server \<Rightarrow> string \<Rightarrow> string \<Rightarrow> requested_op \<Rightarrow> simulation_type \<Rightarrow> (string \<times> json) list option" where
  "capability_error s sim_id opv op ty = (case capability_mismatch s op (Some ty) of
     None \<Rightarrow> None
   | Some e \<Rightarrow> Some [(''sim_id'', JStr sim_id), (''op'', JStr opv), (''error'', JStr e), (''error_code'', JStr ''unsupported_by_client'')])"

definition ask :: "(string \<Rightarrow> string \<Rightarrow> string) \<Rightarrow> sim_lib \<Rightarrow> string \<Rightarrow> string \<Rightarrow> string \<Rightarrow> requested_op \<Rightarrow> simulation_type \<Rightarrow>
    (int \<Rightarrow> string + rcp_message) \<Rightarrow> server \<Rightarrow> asked" where
  "ask mac L cmd_id sim_id opv op ty build s = (case capability_error s sim_id opv op ty of
     Some d \<Rightarrow> Refused d | None \<Rightarrow> open_pull mac L cmd_id build s)"

definition fetch_status :: "(string \<Rightarrow> string \<Rightarrow> string) \<Rightarrow> sim_lib \<Rightarrow> string \<Rightarrow> string \<Rightarrow> string \<Rightarrow> server \<Rightarrow> asked" where
  "fetch_status mac L now fresh sim_id s = ask mac L fresh sim_id '''' NoOp TStatus
     (\<lambda>n. Inr (build_status_command now fresh (sv_sim s) n sim_id (Some fresh) None)) s"

definition fetch_logs :: "(string \<Rightarrow> string \<Rightarrow> string) \<Rightarrow> sim_lib \<Rightarrow> string \<Rightarrow> string \<Rightarrow> string \<Rightarrow> string \<Rightarrow> int \<Rightarrow> server \<Rightarrow> asked" where
  "fetch_logs mac L now fresh sim_id stream n_tail s =
     (if stream \<notin> set log_streams
      then Raises (''unknown log stream '' @ py_repr stream @ ''; expected one of ('' @ join_str '', '' (map py_repr log_streams) @ '')'')
      else ask mac L fresh sim_id '''' NoOp TLogs
        (\<lambda>n. build_logs_command now fresh (sv_sim s) n sim_id stream n_tail (Some fresh) None) s)"

definition fetch_control :: "(string \<Rightarrow> string \<Rightarrow> string) \<Rightarrow> sim_lib \<Rightarrow> string \<Rightarrow> string \<Rightarrow> string \<Rightarrow> simulation_op \<Rightarrow> server \<Rightarrow> asked" where
  "fetch_control mac L now fresh sim_id op s = ask mac L fresh sim_id (op_value op) (AControlOp op) TControl
     (\<lambda>n. Inr (build_control_command now fresh (sv_sim s) n sim_id op (Some fresh) None)) s"

definition fetch_result :: "(string \<Rightarrow> string \<Rightarrow> string) \<Rightarrow> sim_lib \<Rightarrow> string \<Rightarrow> string \<Rightarrow> result_params \<Rightarrow> server \<Rightarrow> asked" where
  "fetch_result mac L now fresh p s = ask mac L fresh (rp_sim_id p) (result_op_value (rp_op p)) (AResultOp (rp_op p)) TResult
     (\<lambda>n. Inr (build_result_command now fresh (sv_sim s) n p (Some fresh) None)) s"

section \<open>Submissions\<close>

text \<open>\<open>_spec_provenance\<close>: this install's, then the configured revision or what the spec carries.\<close>

definition first_text :: "string \<Rightarrow> string \<Rightarrow> string" where
  "first_text a b = (if a \<noteq> '''' then a else b)"

definition spec_provenance :: "sim_lib \<Rightarrow> provenance \<Rightarrow> string \<Rightarrow> (string \<times> json) list \<Rightarrow> provenance" where
  "spec_provenance L local fallback dump =
     (let carried = (case map_of dump ''provenance'' of Some (JObj c) \<Rightarrow> c | _ \<Rightarrow> []) in
      \<lparr>pv_picongpu_version = first_text (pv_picongpu_version local) (get_str L carried ''picongpu_version'' ''''),
       pv_schema_hash = first_text (pv_schema_hash local) (get_str L carried ''schema_hash'' ''''),
       pv_picongpu_revision = first_text fallback (first_text (pv_picongpu_revision local) (get_str L carried ''picongpu_revision'' ''''))\<rparr>)"

definition checked_payload :: "provenance \<Rightarrow> (string \<times> json) list \<Rightarrow> string + sim_payload" where
  "checked_payload pv dump = bind_res (build_payload (pv_picongpu_version pv) (pv_picongpu_revision pv) (pv_schema_hash pv) dump wire_format_version)
     (\<lambda>p. case check_allowlist p of None \<Rightarrow> Inr p | Some e \<Rightarrow> Inl e)"

definition prepare_spec :: "sim_lib \<Rightarrow> provenance \<Rightarrow> string \<Rightarrow> (string \<times> json) list \<Rightarrow> string + sim_payload" where
  "prepare_spec L local fallback dump = checked_payload (spec_provenance L local fallback dump) dump"

text \<open>The payload of a script is built from what the builder's child process answers.\<close>

record built =
  bt_runner :: "(string \<times> json) list"
  bt_provenance :: provenance

definition prepare_built :: "string \<Rightarrow> built \<Rightarrow> string + sim_payload" where
  "prepare_built revision b = checked_payload ((bt_provenance b)\<lparr>pv_picongpu_revision := first_text revision (pv_picongpu_revision (bt_provenance b))\<rparr>)
     (bt_runner b)"

definition build_spec :: "sim_lib \<Rightarrow> string \<Rightarrow> built \<Rightarrow> string + (sim_payload \<times> nat \<times> bool)" where
  "build_spec L revision b = bind_res (prepare_built revision b) (\<lambda>p.
     Inr (p, payload_wire_size L p, payload_wire_size L p \<le> max_inline_payload_bytes))"

text \<open>The sequence number is taken before the command is built, which fails when it is too large.\<close>

definition open_submit :: "(string \<Rightarrow> string \<Rightarrow> string) \<Rightarrow> sim_lib \<Rightarrow> string \<Rightarrow> string \<Rightarrow> string + sim_payload \<Rightarrow> submit_params option \<Rightarrow>
    string option \<Rightarrow> server \<Rightarrow> (string + rcp_message) \<times> server" where
  "open_submit mac L now fresh payload params cmd_id s = (case payload of
     Inl e \<Rightarrow> (Inl e, s)
   | Inr p \<Rightarrow> (case next_seq (sv_sequences s) (sv_sim s) McpServer of (n, sq) \<Rightarrow>
       (let s1 = s\<lparr>sv_sequences := sq\<rparr>; c = or_fresh cmd_id fresh in
        case build_submit_command L now fresh (sv_sim s) n p params (Some c) None of
          Inl e \<Rightarrow> (Inl e, s1)
        | Inr m \<Rightarrow> (Inr (sign_message mac (sl_frepr L) (sv_secret s) m), s1\<lparr>sv_pending := AList.update c None (sv_pending s1)\<rparr>))))"

record submission =
  sx_cmd_id :: string
  sx_sim_id :: string
  sx_state :: string
  sx_job_id :: "int option"
  sx_error :: "string option"
  sx_error_code :: "string option"
  sx_stage :: "string option"

text \<open>\<open>_outcome_from_ack\<close>: \<open>None\<close> when the answer's fields do not validate.\<close>

definition outcome_from_ack :: "sim_lib \<Rightarrow> string \<Rightarrow> rcp_message \<Rightarrow> submission option" where
  "outcome_from_ack L cmd_id a =
     (let p = rm_payload a in
      case (defaulted p ''job_id'' (opt_field (sl_lax_int L)) None, defaulted p ''error'' opt_str_field None,
            defaulted p ''error_code'' opt_str_field None, defaulted p ''stage'' opt_str_field None) of
        (Some j, Some e, Some c, Some g) \<Rightarrow> Some \<lparr>sx_cmd_id = cmd_id, sx_sim_id = get_str L p ''sim_id'' '''', sx_state = get_str L p ''state'' '''',
          sx_job_id = j, sx_error = e, sx_error_code = c, sx_stage = g\<rparr>
      | _ \<Rightarrow> None)"

definition result_ok :: "submission \<Rightarrow> bool" where
  "result_ok r = (\<not> truthy (sx_error r))"

definition result_unknown :: "submission \<Rightarrow> bool" where
  "result_unknown r = (sx_error_code r = Some (error_value EOutcomeUnknown) \<or>
     (case sx_error r of None \<Rightarrow> False | Some e \<Rightarrow> starts_with ''already_submitted:outcome_unknown'' e))"

datatype submit_end = NoAck | BadAck | Outcome submission

definition close_submit :: "sim_lib \<Rightarrow> string \<Rightarrow> server \<Rightarrow> submit_end \<times> server" where
  "close_submit L cmd_id s =
     ((case map_of (sv_pending s) cmd_id of
         Some (Some a) \<Rightarrow> (case outcome_from_ack L cmd_id a of None \<Rightarrow> BadAck | Some r \<Rightarrow> Outcome r)
       | _ \<Rightarrow> NoAck),
      s\<lparr>sv_pending := AList.delete cmd_id (sv_pending s)\<rparr>)"

text \<open>What a script submission hands to \<open>on_direct_submission\<close>.\<close>

definition direct_record :: "bool \<Rightarrow> sim_payload \<Rightarrow> submit_end \<Rightarrow> ((string \<times> json) list \<times> string \<times> string) option" where
  "direct_record hook p e = (case e of
     Outcome r \<Rightarrow> if result_ok r \<and> hook then Some (pl_simulation p, sx_sim_id r, sx_cmd_id r) else None | _ \<Rightarrow> None)"


section \<open>Concurrent requests\<close>

text \<open>
  What may happen while a request waits: messages arrive, other requests are opened, answered or given up, and the
  service's settings change.
\<close>

datatype server_op =
    Receives rcp_message
  | OpensPull string "int \<Rightarrow> string + rcp_message"
  | ClosesPull string
  | OpensSubmit string string "string + sim_payload" "submit_params option"
  | ClosesSubmit string
  | Learns "capabilities option"
  | Replayed bool

definition server_step :: "(string \<Rightarrow> string \<Rightarrow> string) \<Rightarrow> sim_lib \<Rightarrow> server_op \<Rightarrow> server \<Rightarrow> server" where
  "server_step mac L op s = (case op of
     Receives m \<Rightarrow> on_message mac L m s
   | OpensPull c build \<Rightarrow> (case open_pull mac L c build s of Asks m s1 \<Rightarrow> s1 | _ \<Rightarrow> s)
   | ClosesPull c \<Rightarrow> snd (close_pull '''' c s)
   | OpensSubmit now c p params \<Rightarrow> snd (open_submit mac L now c p params None s)
   | ClosesSubmit c \<Rightarrow> snd (close_submit L c s)
   | Learns caps \<Rightarrow> set_client_capabilities caps s
   | Replayed b \<Rightarrow> set_history_complete b s)"

fun touches_pull :: "string \<Rightarrow> server_op \<Rightarrow> bool" where
  "touches_pull c (OpensPull d build) = (d = c)"
| "touches_pull c (ClosesPull d) = (d = c)"
| "touches_pull c op = False"

definition received :: "server_op list \<Rightarrow> rcp_message list" where
  "received ops = concat (map (\<lambda>op. case op of Receives m \<Rightarrow> [m] | _ \<Rightarrow> []) ops)"

text \<open>The message that answers a pull of type \<open>ty\<close> under the id \<open>c\<close>.\<close>

definition answers_pull :: "(string \<Rightarrow> string \<Rightarrow> string) \<Rightarrow> sim_lib \<Rightarrow> server \<Rightarrow> string \<Rightarrow> string \<Rightarrow> rcp_message \<Rightarrow> bool" where
  "answers_pull mac L s ty c m = (from_client mac L s m \<and> rm_kind m = KAck \<and> pull_ack_for ty = Some (rm_type m) \<and>
     get_str L (rm_payload m) ''cmd_id'' '''' = c)"

lemma pull_ack_in: "pull_ack_for ty = Some a \<Longrightarrow> a \<in> set pull_acks"
  by (auto simp: pull_ack_for_def pull_acks_def split: if_splits)

text \<open>The pull's entry while it waits.\<close>

definition waits :: "string \<Rightarrow> string \<Rightarrow> rcp_message option \<Rightarrow> server \<Rightarrow> bool" where
  "waits c ty f s \<longleftrightarrow> map_of (sv_pending_kind s) c = Some ty \<and> map_of (sv_pending_pull s) c = Some f"

definition or_first :: "rcp_message option \<Rightarrow> rcp_message option \<Rightarrow> rcp_message option" where
  "or_first f g = (case f of None \<Rightarrow> g | Some m \<Rightarrow> Some m)"

lemma waits_message:
  assumes "waits c ty f s"
  shows "waits c ty (or_first f (if answers_pull mac L s ty c m then Some m else None)) (on_message mac L m s)"
proof -
  have pull: "sv_pending_pull (on_message mac L m s) =
      (if from_client mac L s m \<and> rm_kind m = KAck \<and> rm_type m \<in> set pull_acks
       then sv_pending_pull (resolve_pull (get_str L (rm_payload m) ''cmd_id'' '''') m s) else sv_pending_pull s)"
    by (simp add: on_message_def project_frame append_log_frame Let_def)
  have kind: "sv_pending_kind (on_message mac L m s) = sv_pending_kind s" using on_message_frame by (simp add: same_frame_def)
  show ?thesis
  proof (cases "get_str L (rm_payload m) ''cmd_id'' '''' = c")
    case True
    then show ?thesis using assms pull_ack_in
      by (cases f) (auto simp: waits_def kind pull resolve_pull_def resolve_future_def answers_pull_def or_first_def split: option.splits)
  next
    case False
    then show ?thesis using assms
      by (auto simp: waits_def kind pull resolve_pull_def resolve_future_def answers_pull_def or_first_def split: option.splits)
  qed
qed

lemma waits_step:
  assumes "waits c ty f s" "\<not> touches_pull c op"
  shows "waits c ty (or_first f (List.find (answers_pull mac L s ty c) (received [op]))) (server_step mac L op s)"
proof (cases op)
  case (Receives m)
  then show ?thesis using waits_message [OF assms(1), of mac L m] by (auto simp: server_step_def received_def)
qed (use assms in \<open>auto simp: server_step_def received_def waits_def or_first_def open_pull_def close_pull_def open_submit_def close_submit_def
    set_client_capabilities_def set_history_complete_def Let_def split: option.splits sum.splits prod.splits\<close>)

lemma step_from_client: "from_client mac L (server_step mac L op s) = from_client mac L s"
proof -
  have "sv_sim (server_step mac L op s) = sv_sim s \<and> sv_secret (server_step mac L op s) = sv_secret s"
    using on_message_frame
    by (auto simp: server_step_def same_frame_def open_pull_def close_pull_def open_submit_def close_submit_def
        set_client_capabilities_def set_history_complete_def Let_def split: server_op.splits sum.splits prod.splits)
  then show ?thesis by (simp add: from_client_def fun_eq_iff)
qed

lemma find_append: "List.find p (xs @ ys) = (case List.find p xs of None \<Rightarrow> List.find p ys | Some x \<Rightarrow> Some x)"
  by (induction xs) auto

lemma waits_fold:
  "waits c ty f s \<Longrightarrow> list_all (\<lambda>op. \<not> touches_pull c op) ops \<Longrightarrow>
   waits c ty (or_first f (List.find (answers_pull mac L s ty c) (received ops))) (fold (server_step mac L) ops s)"
proof (induction ops arbitrary: f s)
  case (Cons op ops)
  have ans: "answers_pull mac L (server_step mac L op s) = answers_pull mac L s"
    using step_from_client by (simp add: answers_pull_def fun_eq_iff)
  have "received (op # ops) = received [op] @ received ops" by (simp add: received_def)
  then show ?case using Cons.IH [OF waits_step [OF Cons.prems(1), of op mac L]] Cons.prems(2)
    by (simp add: ans find_append or_first_def split: option.splits)
next
  case Nil
  then show ?case by (cases f) (simp_all add: received_def or_first_def)
qed


text \<open>A status answer from the client of the sample service.\<close>

definition sample_answer :: "string \<Rightarrow> rcp_message" where
  "sample_answer c = sign_message sample_mac (sl_frepr sample_sim_lib) ''key''
     (build_status_ack ''2026'' ''sim'' 1 c ''0123abcd'' None (state_value SimJobRunning) no_status)"

lemma sample_answer_answers: "answers_pull sample_mac sample_sim_lib sample_server (type_value TStatus) c (sample_answer c)"
  by (simp add: answers_pull_def from_client_def sample_answer_def signed_verifies pull_ack_for_def sample_server_def new_server_def)
    (simp add: sign_message_def build_status_ack_def)

section \<open>Properties\<close>

text \<open>
  C37: A pull is answered by its own answer. From the moment a pull is opened, whatever messages arrive and
  whatever other requests are opened, answered or given up meanwhile, closing it returns the payload of the first message
  received since then that verifies under the shared secret, is an ack of this simulation from the client, has
  the ack type of this request and names this command id; if there was none, the timeout
  answer. A forged or misrouted ack is never returned.
\<close>

theorem pull_gets_its_answer:
  assumes "open_pull mac L c build s = Asks cmd s1" "list_all (\<lambda>op. \<not> touches_pull c op) ops"
  shows "fst (close_pull sid c (fold (server_step mac L) ops s1)) =
    (case List.find (answers_pull mac L s (rm_type cmd) c) (received ops) of
       None \<Rightarrow> [(''sim_id'', JStr sid), (''error'', JStr ''timeout'')] | Some m \<Rightarrow> rm_payload m)"
proof -
  have "waits c (rm_type cmd) None s1" "from_client mac L s1 = from_client mac L s"
    using assms(1) by (auto simp: open_pull_def waits_def sign_message_def from_client_def fun_eq_iff split: sum.splits prod.splits)
  moreover from this(2) have "answers_pull mac L s1 ty c = answers_pull mac L s ty c" for ty
    by (simp add: answers_pull_def fun_eq_iff)
  ultimately show ?thesis using waits_fold [OF _ assms(2), of "rm_type cmd" None s1 mac L]
    by (auto simp: waits_def close_pull_def or_first_def split: option.split)
qed

theorem pull_gets_its_answer_witness:
  "\<exists>cmd s1. fetch_status sample_mac sample_sim_lib ''2026'' ''c1'' ''0123abcd'' sample_server = Asks cmd s1 \<and>
     fst (close_pull ''0123abcd'' ''c1'' (fold (server_step sample_mac sample_sim_lib)
       [Receives (sample_answer ''c2''), OpensPull ''c2'' (\<lambda>n. Inl ''''), Receives (sample_answer ''c1''), ClosesPull ''c2''] s1)) = rm_payload (sample_answer ''c1'')"
proof -
  let ?build = "\<lambda>n. Inr (build_status_command ''2026'' ''c1'' (sv_sim sample_server) n ''0123abcd'' (Some ''c1'') None)"
  obtain n sq where "next_seq (sv_sequences sample_server) (sv_sim sample_server) McpServer = (n, sq)" by force
  then obtain cmd s1 where o: "open_pull sample_mac sample_sim_lib ''c1'' ?build sample_server = Asks cmd s1" "rm_type cmd = type_value TStatus"
    by (simp add: open_pull_def build_status_command_def sign_message_def)
  have id: "answers_pull sample_mac sample_sim_lib sample_server (type_value TStatus) ''c1'' (sample_answer c) \<longleftrightarrow> c = ''c1''" for c
    using sample_answer_answers [of c] by (auto simp: answers_pull_def)
  have "fetch_status sample_mac sample_sim_lib ''2026'' ''c1'' ''0123abcd'' sample_server = Asks cmd s1"
    using o(1) by (simp add: fetch_status_def ask_def capability_error_def capability_mismatch_def sample_server_def new_server_def)
  then show ?thesis
    using pull_gets_its_answer [OF o(1), of "[Receives (sample_answer ''c2''), OpensPull ''c2'' (\<lambda>n. Inl ''''), Receives (sample_answer ''c1''), ClosesPull ''c2'']" "''0123abcd''"]
    by (simp add: received_def id [simplified] o(2))
qed

end
