(* ===== verification/SimExchange.thy ===== *)
theory SimExchange
  imports SimAsk SimServeFacts
begin

text \<open>
  The two sides together: the server of \<open>SimServer\<close> and \<open>SimAsk\<close> and the client of \<open>SimClient\<close> and \<open>SimHandlers\<close>,
  which share the simulation id and the secret. A message crosses the room unchanged but for what the transport
  adds to it, the sender and the event id.
\<close>

definition carried :: "string option \<Rightarrow> string option \<Rightarrow> rcp_message \<Rightarrow> rcp_message" where
  "carried sender event m = m\<lparr>rm_transport_sender := sender, rm_transport_event_id := event\<rparr>"

lemma carried_simps [simp]:
  "rm_payload (carried a b m) = rm_payload m" "rm_type (carried a b m) = rm_type m" "rm_kind (carried a b m) = rm_kind m"
  "rm_sim (carried a b m) = rm_sim m" "rm_transport_sender (carried a b m) = a" "rm_transport_event_id (carried a b m) = b"
  by (simp_all add: carried_def)

lemma carried_verifies: "verify_message mac frepr k (carried a b m) = verify_message mac frepr k m"
  by (simp add: verify_message_def carried_def split: option.split)

lemma sign_simps [simp]:
  "rm_payload (sign_message mac frepr k m) = rm_payload m" "rm_type (sign_message mac frepr k m) = rm_type m"
  "rm_kind (sign_message mac frepr k m) = rm_kind m" "rm_sim (sign_message mac frepr k m) = rm_sim m"
  "rm_sender_role (sign_message mac frepr k m) = rm_sender_role m" "rm_ts (sign_message mac frepr k m) = rm_ts m"
  by (simp_all add: sign_message_def)

section \<open>The client's answers\<close>

text \<open>An unsigned ack to a request of type \<open>ty\<close> under the id \<open>c\<close>.\<close>

definition ack_body :: "sim_lib \<Rightarrow> string \<Rightarrow> string \<Rightarrow> string \<Rightarrow> rcp_message \<Rightarrow> bool" where
  "ack_body L sim ty c a \<longleftrightarrow> rm_sim a = sim \<and> rm_sender_role a = Simclient \<and> rm_kind a = KAck \<and> pull_ack_for ty = Some (rm_type a) \<and>
     get_str L (rm_payload a) ''cmd_id'' '''' = c"

lemma builders_ack:
  "ack_body L sim (type_value TStatus) c (build_status_ack now sim n c sid irt st f)"
  "ack_body L sim (type_value TLogs) c (build_logs_ack now sim n c sid irt stream ls k err code)"
  "ack_body L sim (type_value TControl) c (build_control_ack now sim n c sid op ok irt j sg reason cst cerr ccode)"
  "ack_body L sim (type_value TResult) c (build_result_ack frepr now sim n c sid rop irt outcome)"
  by (simp_all add: ack_body_def pull_ack_for_def build_status_ack_def build_logs_ack_def build_control_ack_def build_result_ack_def Let_def)

lemma answer_is: "fst (answer E f s) = sign_message (we_mac E) (sl_frepr (we_lib E)) (cs_secret s)
    (f (we_now E (cs_world s)) (cs_sim s) (fst (next_seq (cs_sequences s) (cs_sim s) Simclient)))"
  by (simp add: answer_def build_signed_def Let_def split_beta)

text \<open>The client's ids, which no handler changes before it answers.\<close>

definition ids :: "('r, 'w) client \<Rightarrow> string \<times> string" where
  "ids s = (cs_sim s, cs_secret s)"

definition home_ack :: "('r, 'w) outside \<Rightarrow> ('r, 'w) client \<Rightarrow> rcp_message \<Rightarrow> rcp_message \<Rightarrow> bool" where
  "home_ack E s m a \<longleftrightarrow> verify_message (we_mac E) (sl_frepr (we_lib E)) (cs_secret s) a \<and>
     ack_body (we_lib E) (cs_sim s) (rm_type m) (payload_str E m ''cmd_id'' '''') a"

lemma answer_home:
  assumes "\<And>now n. ack_body (we_lib E) (cs_sim s) (rm_type m) (payload_str E m ''cmd_id'' '''') (f now (cs_sim s) n)" "ids s = ids u"
  shows "home_ack E u m (fst (answer E f s))"
  using assms signed_verifies by (auto simp: home_ack_def answer_is ack_body_def ids_def)

lemma status_home:
  assumes "rm_type m = type_value TStatus" shows "home_ack E s m (fst (handle_status E m s))"
proof -
  have w: "ids (snd (status_of E t s)) = ids s" for t
    by (auto simp: status_of_def ids_def split: option.split prod.split sum.split)
  show ?thesis unfolding handle_status_def Let_def
    by (cases "map_of (cs_tracked s) (payload_str E m ''sim_id'' '''')")
      (auto intro!: answer_home simp: assms builders_ack [simplified] split: prod.split, metis snd_conv w)
qed

lemma map_prod_Some [simp]: "map_prod Some id x = (Some a, s') \<longleftrightarrow> x = (a, s')"
  by (cases x) auto

lemma answered_home:
  assumes "answer E f s = (a, s')" "\<And>now n. ack_body (we_lib E) (cs_sim s) (rm_type m) (payload_str E m ''cmd_id'' '''') (f now (cs_sim s) n)" "ids s = ids u"
  shows "home_ack E u m a"
  using answer_home [of E s m f u] assms by simp

lemma logs_home: "rm_type m = type_value TLogs \<Longrightarrow> handle_logs E m s = (Some a, s') \<Longrightarrow> home_ack E s m a"
  unfolding handle_logs_def Let_def
  by (auto split: option.splits prod.splits) (auto elim!: answered_home simp: builders_ack [simplified] logs_message_def)

lemma result_home: "rm_type m = type_value TResult \<Longrightarrow> home_ack E s m (fst (handle_result E m s))"
  unfolding handle_result_def Let_def
  by (auto intro!: answer_home simp: result_rejection_def builders_ack [simplified] ids_def split: option.split prod.split)

lemma rejection_home:
  "rm_type m = type_value TControl \<Longrightarrow> ack_body (we_lib E) sim (rm_type m) (payload_str E m ''cmd_id'' '''') (control_rejection E m err code now sim n)"
  "rm_type m = type_value TResult \<Longrightarrow> ack_body (we_lib E) sim (rm_type m) (payload_str E m ''cmd_id'' '''') (result_rejection E m err code now sim n)"
  "rm_type m = type_value TLogs \<Longrightarrow> ack_body (we_lib E) sim (rm_type m) (payload_str E m ''cmd_id'' '''') (logs_answer E m [] 0 (Some err) tx now sim n)"
  "rm_type m = type_value TStatus \<Longrightarrow> ack_body (we_lib E) sim (rm_type m) (payload_str E m ''cmd_id'' '''') (status_rejection E m err tc now sim n)"
  by (simp_all add: control_rejection_def result_rejection_def logs_answer_def status_rejection_def builders_ack [simplified] Let_def)

lemma reject_pull_home: "rm_type m \<in> type_value ` {TStatus, TLogs, TControl, TResult} \<Longrightarrow> home_ack E s m (fst (reject_pull E m err code s))"
  by (auto simp: reject_pull_def intro!: answer_home rejection_home)

lemma send_control_home: "rm_type m = type_value TControl \<Longrightarrow> home_ack E s m (fst (send_control_ack E m sid p ok f s))"
  by (simp add: send_control_ack_def Let_def split_beta) (rule answer_home, simp_all add: builders_ack [simplified])

text \<open>A control command that is answered at once; the replay of a kept ack is left out, its id is not fresh.\<close>

lemma parse_control_home:
  "rm_type m = type_value TControl \<Longrightarrow> parse_control_or_reject E m s = (Inl a, s1) \<Longrightarrow> home_ack E s m a"
  "parse_control_or_reject E m s = (Inr p, s1) \<Longrightarrow> s1 = s"
  by (auto simp: parse_control_or_reject_def Let_def split: if_splits option.splits prod.splits elim!: answered_home intro!: rejection_home)

lemma control_home:
  assumes "rm_type m = type_value TControl" "\<And>sid p. map_of (cs_control_acks s) (payload_str E m ''cmd_id'' '''', sid, p) = None"
    and "admit_control E m s = (Some a, s')"
  shows "home_ack E s m a"
proof -
  have sent: "send_control_ack E m sid p ok f s = (a, s') \<Longrightarrow> home_ack E s m a" for sid p ok f s'
    using send_control_home [OF assms(1), of E s sid p ok f] by simp
  show ?thesis using assms(3) parse_control_home(1) [OF assms(1)] sent
    by (auto simp: admit_control_def Let_def assms(2) dest!: parse_control_home(2) split: sum.splits prod.splits option.splits if_splits)
qed


lemma home_ack_ids: "ids s = ids u \<Longrightarrow> home_ack E s m a = home_ack E u m a"
  by (simp add: home_ack_def ids_def)

lemma deliver_home:
  assumes "rm_type m \<in> type_value ` {TStatus, TLogs, TControl, TResult}"
    and "\<And>sid p. map_of (cs_control_acks s) (payload_str E m ''cmd_id'' '''', sid, p) = None"
    and "deliver E m s = (Some a, s')"
  shows "home_ack E s m a"
proof -
  obtain b s1 where acc: "accepts E s m = (b, s1)" by (cases "accepts E s m")
  then have s1: "ids s1 = ids s" "cs_control_acks s1 = cs_control_acks s" by (auto simp: accepts_def ids_def split: if_splits prod.splits)
  have b: "b" using assms(3) acc by (cases b) (simp_all add: deliver_def)
  define s2 where "s2 = s1\<lparr>cs_sequences := observe_seq (cs_sequences s1) (rm_sim m) (rm_sender_role m) (rm_seq m)\<rparr>"
  have s2: "ids s2 = ids s" "cs_control_acks s2 = cs_control_acks s" using s1 by (simp_all add: s2_def ids_def)
  have known: "rm_type m \<noteq> hello_command_type" "rm_type m \<in> set m2_commands" using assms(1) by (auto simp: hello_command_type_def m2_commands_def)
  have ctl: "map_of (cs_control_acks s2) (payload_str E m ''cmd_id'' '''', sid, p) = None" for sid p using assms(2) s2(2) by simp
  have del: "deliver E m s = (case cs_config s2 of None \<Rightarrow> map_prod Some id (reject_m2 E m ''rejected_by_policy'' ERejected s2)
      | Some k \<Rightarrow> dispatch_m2 E k m s2)"
    unfolding s2_def using acc b known by (simp add: deliver_def Let_def)
  have "home_ack E s2 m a"
  proof (cases "cs_config s2")
    case None
    then have "reject_m2 E m ''rejected_by_policy'' ERejected s2 = (a, s')" using assms(3) del by simp
    then have "fst (reject_pull E m ''rejected_by_policy'' ERejected s2) = a" using assms(1) by (auto simp: reject_m2_def)
    then show ?thesis using reject_pull_home [OF assms(1), of E s2 "''rejected_by_policy''" ERejected] by simp
  next
    case (Some k)
    then have "dispatch_m2 E k m s2 = (Some a, s')" using assms(3) del by simp
    moreover have "rm_type m = type_value TStatus \<Longrightarrow> handle_status E m s2 = (a, s') \<Longrightarrow> home_ack E s2 m a" using status_home [of m E s2] by simp
    moreover have "rm_type m = type_value TResult \<Longrightarrow> handle_result E m s2 = (a, s') \<Longrightarrow> home_ack E s2 m a" using result_home [of m E s2] by simp
    ultimately show ?thesis using assms(1) logs_home [of m E s2 a s'] control_home [OF _ ctl] by (auto simp: dispatch_m2_def)
  qed
  then show ?thesis using home_ack_ids [OF s2(1)] by simp
qed

text \<open>The two sides are set up for each other.\<close>

definition paired :: "(string \<Rightarrow> string \<Rightarrow> string) \<Rightarrow> sim_lib \<Rightarrow> ('r, 'w) outside \<Rightarrow> server \<Rightarrow> ('r, 'w) client \<Rightarrow> bool" where
  "paired mac L E s cl \<longleftrightarrow> we_mac E = mac \<and> we_lib E = L \<and> cs_sim cl = sv_sim s \<and> cs_secret cl = sv_secret s"

lemma home_ack_answers:
  assumes "home_ack E cl m a" "paired mac L E s cl" "payload_str E m ''cmd_id'' '''' = c"
  shows "answers_pull mac L s (rm_type m) c a"
  using assms by (auto simp: home_ack_def paired_def answers_pull_def from_client_def ack_body_def)

section \<open>A submission across both sides\<close>

lemma accepted_admission:
  assumes "payload_str E m ''cmd_id'' '''' = c" "c \<noteq> ''''" "record_of s c = None" "map_of (rm_payload m) ''payload'' = Some (JStr raw)"
    and "parse_payload (we_lib E) raw = Inr doc" "map_of (rm_payload m) ''header'' = Some (JObj header)" "map_of (rm_payload m) ''params'' = Some prm"
    and "prepare_submit (we_lib E) k doc header (Some prm) c = Inr p"
  shows "\<exists>now n s'. admit_submit E k m s =
    (sign_message (we_mac E) (sl_frepr (we_lib E)) (cs_secret s) (build_submit_ack now (cs_sim s) n c (payload_sim_id (we_lib E) (pp_payload p)) SimAccepted
       (rm_transport_event_id m) None None None), s') \<and>
    cs_tasks s' = cs_tasks s @ [SubmitWaiting c p (get_str (we_lib E) header ''payload_hash'' '''') (payload_sim_id (we_lib E) (pp_payload p))]"
proof -
  have hdr: "header_of m = header" using assms(6) by (simp add: header_of_def)
  have per: "cs_tasks (persist E r s) = cs_tasks s" "cs_secret (persist E r s) = cs_secret s" "cs_sim (persist E r s) = cs_sim s" for r
    by (simp_all add: persist_def split: prod.split)
  let ?s1 = "persist E (submit_record c (get_str (we_lib E) header ''payload_hash'' '''') (get_str (we_lib E) header ''sim_id'' '''')) s"
  have prep: "prepare_or_reject E k m h c sid u = (Inr p, u)" for h sid and u :: "('a, 'b) client"
    using assms(2,4,5,7,8) by (simp add: prepare_or_reject_def or_else_def hdr)
  have "admit_submit E k m s = (let (a, s3) = answer E (submit_answer m c (payload_sim_id (we_lib E) (pp_payload p)) SimAccepted None None None) ?s1
      in (a, add_task (SubmitWaiting c p (get_str (we_lib E) header ''payload_hash'' '''') (payload_sim_id (we_lib E) (pp_payload p))) s3))"
    using assms(1,2,3) by (simp add: admit_submit_def hdr prep Let_def)
  then show ?thesis
    by (simp add: answer_def build_signed_def log_effect_def add_task_def per submit_answer_def Let_def split_beta) blast
qed

lemma accepted_ack_home:
  assumes "from_client mac L s a" "a = sign_message mac fr k (build_submit_ack now sim n c sid SimAccepted irt None None None)"
    "map_of (sv_pending s) c = Some None" "map_of (sv_registry s) sid = None" "sid \<noteq> ''''"
  shows "\<exists>r q. close_submit L c (on_message mac L a s) = (Outcome r, (on_message mac L a s)\<lparr>sv_pending := AList.delete c (sv_pending (on_message mac L a s))\<rparr>) \<and>
    result_ok r \<and> sx_cmd_id r = c \<and> sx_sim_id r = sid \<and> sx_state r = state_value SimAccepted \<and>
    map_of (sv_registry (on_message mac L a s)) sid = Some q \<and> sr_state q = state_value SimAccepted \<and> sr_cmd_id q = c \<and> sr_active q"
proof -
  have a: "rm_payload a = [(''cmd_id'', JStr c), (''sim_id'', JStr sid), (''state'', JStr (state_value SimAccepted)), (''job_id'', JNull)]"
    "rm_kind a = KAck" "rm_type a = type_value TSubmitAck"
    by (simp_all add: assms(2) build_submit_ack_def opt_int_def some_text_def truthy_def)
  have out: "outcome_from_ack L c a = Some \<lparr>sx_cmd_id = c, sx_sim_id = sid, sx_state = state_value SimAccepted, sx_job_id = None, sx_error = None,
      sx_error_code = None, sx_stage = None\<rparr>"
    by (simp add: outcome_from_ack_def a defaulted_def opt_field_def Let_def)
  have notend: "\<not> is_terminal (state_value SimAccepted)" by (simp add: is_terminal_def terminal_states_def)
  let ?r = "ack_record (state_value SimAccepted) a (fresh_record sid c)"
  have "on_message mac L a s = (let s1 = s\<lparr>sv_registry := AList.update sid ?r (AList.update sid (fresh_record sid c) (sv_registry s))\<rparr>
      in s1\<lparr>sv_pending := resolve_future c a (sv_pending s1)\<rparr>)"
    using assms(1,4,5) by (simp add: on_message_def project_ack_def a record_for_def fresh_record_def pull_acks_def Let_def)
  moreover have "sr_state ?r = state_value SimAccepted" "sr_cmd_id ?r = c" "sr_active ?r"
    using notend by (simp_all add: ack_record_def a outcome_unknown_ack_def fresh_record_def first_ts_def Let_def)
  ultimately show ?thesis using assms(3)
    by (simp add: close_submit_def resolve_future_def out result_ok_def truthy_def Let_def)
qed


lemma accepts_carried:
  assumes "paired mac L E s cl" "rm_sim m = sv_sim s" "rm_kind m = KCommand" "verify_message mac (sl_frepr L) (sv_secret s) m"
    and "truthy (cs_allowed cl) \<longrightarrow> truthy sender \<longrightarrow> sender = cs_allowed cl" "fst (seen (cs_seen cl) (carried sender event m))"
  shows "\<exists>d. accepts E cl (carried sender event m) = (True, cl\<lparr>cs_seen := d\<rparr>)"
proof -
  obtain d where d: "seen (cs_seen cl) (carried sender event m) = (True, d)" using assms(6) by (cases "seen (cs_seen cl) (carried sender event m)") auto
  have v: "verify_message (we_mac E) (sl_frepr (we_lib E)) (cs_secret cl) (carried sender event m)"
    using assms(1,4) by (simp add: carried_verifies paired_def)
  have "accepts E cl (carried sender event m) = (True, cl\<lparr>cs_seen := d\<rparr>)"
    using assms(1-3,5) v d unfolding accepts_def by (auto simp: paired_def)
  then show ?thesis by blast
qed

section \<open>A concrete pair\<close>

definition start_server :: server where
  "start_server = new_server ''s'' ''k'' 10 None"

lemma start_paired: "paired sample_mac sample_sim_lib sample_outside start_server start_client"
  by (simp add: paired_def sample_outside_def start_server_def new_server_def start_client_def new_client_def)

lemma start_client_parts:
  "cs_control_acks start_client = []" "cs_allowed start_client = None" "cs_config start_client = Some sample_cluster" "cs_tasks start_client = []"
  "cs_tracked start_client = []" "record_of start_client c = None" "fst (seen (cs_seen start_client) m)"
proof -
  have "load_processed cd '''' = []" for cd by (simp add: load_processed_def)
  then show "record_of start_client c = None" by (simp add: record_of_def start_client_def new_client_def)
  show "fst (seen (cs_seen start_client) m)" by (simp add: seen_def seen_key_def start_client_def new_client_def new_dedup_def Let_def)
qed (simp_all add: start_client_def new_client_def)

lemma sample_builds: "\<exists>m. build_submit_command sample_sim_lib now fresh sim n sample_payload (Some sample_params) c irt = Inr m"
proof -
  have "length (json_string (payload_body sample_sim_lib sample_payload)) < 200" by code_simp
  then have "\<not> payload_wire_size sample_sim_lib sample_payload > max_inline_payload_bytes"
    by (simp add: payload_wire_size_def max_inline_payload_bytes_def envelope_allowance_bytes_def)
  then show ?thesis by (simp add: build_submit_command_def payload_wire_bytes_def Let_def)
qed

section \<open>Properties\<close>

text \<open>
  C36: Every pull the client answers at once is answered to the request that asked. Take any status, logs, control
  or result request the server opened and the client it is paired with, whatever the client's state, configured or
  not, with a command id it has no kept ack for. If delivering the command yields an answer, be it the data, an unknown
  simulation or a rejection, then this answer, fed to the server, is what the request returns.
\<close>

theorem pull_round_trip:
  assumes "open_pull mac L c build s = Asks m s1" "rm_type m \<in> type_value ` {TStatus, TLogs, TControl, TResult}"
    and "get_str L (rm_payload m) ''cmd_id'' '''' = c" "paired mac L E s cl" "\<And>sid p. map_of (cs_control_acks cl) (c, sid, p) = None"
    and "deliver E (carried sender event m) cl = (Some a, cl')"
  shows "fst (close_pull sid c (on_message mac L a s1)) = rm_payload a"
proof -
  have pay: "payload_str E (carried sender event m) ''cmd_id'' '''' = c" using assms(3,4) by (simp add: payload_str_def paired_def)
  have "home_ack E cl (carried sender event m) a"
    using deliver_home [of "carried sender event m" cl E a cl'] assms(2,5,6) pay by simp
  from home_ack_answers [OF this assms(4) pay] have ans: "answers_pull mac L s (rm_type m) c a" by simp
  have "waits c (rm_type m) None s1" "from_client mac L s1 = from_client mac L s"
    using assms(1) by (auto simp: open_pull_def waits_def from_client_def fun_eq_iff split: sum.splits prod.splits)
  moreover from this(2) have "answers_pull mac L s1 (rm_type m) c a" using ans by (simp add: answers_pull_def)
  ultimately have "waits c (rm_type m) (Some a) (on_message mac L a s1)" using waits_message [of c "rm_type m" None s1 mac L a] by (simp add: or_first_def)
  then show ?thesis by (simp add: waits_def close_pull_def)
qed

theorem pull_round_trip_witness:
  "\<exists>m s1 a cl'. fetch_status sample_mac sample_sim_lib ''t'' ''c9'' ''0123abcd'' start_server = Asks m s1 \<and>
     deliver sample_outside (carried None (Some ''e1'') m) start_client = (Some a, cl') \<and>
     fst (close_pull ''0123abcd'' ''c9'' (on_message sample_mac sample_sim_lib a s1)) = rm_payload a \<and>
     map_of (rm_payload a) ''error_code'' = Some (JStr ''unknown_sim'')"
proof -
  let ?build = "\<lambda>n. Inr (build_status_command ''t'' ''c9'' (sv_sim start_server) n ''0123abcd'' (Some ''c9'') None)"
  obtain n sq where "next_seq (sv_sequences start_server) (sv_sim start_server) McpServer = (n, sq)" by force
  then obtain m s1 where o: "open_pull sample_mac sample_sim_lib ''c9'' ?build start_server = Asks m s1"
    "m = sign_message sample_mac (sl_frepr sample_sim_lib) ''k'' (build_status_command ''t'' ''c9'' ''s'' n ''0123abcd'' (Some ''c9'') None)"
    by (simp add: open_pull_def start_server_def new_server_def)
  have f: "fetch_status sample_mac sample_sim_lib ''t'' ''c9'' ''0123abcd'' start_server = Asks m s1"
    using o(1) by (simp add: fetch_status_def ask_def capability_error_def capability_mismatch_def start_server_def new_server_def)
  have m: "rm_sim m = ''s''" "rm_kind m = KCommand" "rm_type m = type_value TStatus" "rm_payload m = [(''cmd_id'', JStr ''c9''), (''sim_id'', JStr ''0123abcd'')]"
    by (simp_all add: o(2) build_status_command_def or_fresh_def truthy_def)
  have v: "verify_message sample_mac (sl_frepr sample_sim_lib) (sv_secret start_server) m"
    using signed_verifies by (simp add: o(2) start_server_def new_server_def)
  obtain d where acc: "accepts sample_outside start_client (carried None (Some ''e1'') m) = (True, start_client\<lparr>cs_seen := d\<rparr>)"
    using accepts_carried [OF start_paired _ m(2) v, of None "Some ''e1''"] m(1) start_client_parts(2,7)
    by (auto simp: truthy_def start_server_def new_server_def)
  then obtain a cl' where d: "deliver sample_outside (carried None (Some ''e1'') m) start_client = (Some a, cl')" "map_of (rm_payload a) ''error_code'' = Some (JStr ''unknown_sim'')"
    using m start_client_parts
    by (simp add: deliver_def hello_command_type_def m2_commands_def dispatch_m2_def handle_status_def answer_def build_signed_def log_effect_def
        build_status_ack_def no_status_def some_entry_def signal_from_exit_code_def split_beta Let_def)
  have "fst (close_pull ''0123abcd'' ''c9'' (on_message sample_mac sample_sim_lib a s1)) = rm_payload a"
    by (rule pull_round_trip [OF o(1) _ _ start_paired _ d(1)]) (simp_all add: m start_client_parts(1))
  then show ?thesis using f d by blast
qed

text \<open>
  C35: A submission goes through on both sides. A command the server opens for a payload that is allow-listed, fits the wire limit and
  matches the provenance of the cluster's install is accepted by the paired client under a command id new to it: one build task is
  added, for exactly that payload, those flags and the run directory derived from the command id. The client's ack, fed to
  the server, makes the waiting submission return an outcome without error in state accepted with the payload's simulation
  id, and registers that simulation as active under the command id.
\<close>

theorem submission_handshake:
  assumes "open_submit mac L now fresh (Inr p) params (Some c) s = (Inr m, s1)" "paired mac L E s cl"
    and "\<And>i. sl_lax_int L (JInt i) = Some i" "\<And>b. sl_lax_bool L (JBool b) = Some b" "sl_loads L (payload_body L p) = Inr (dump_payload p)"
    and "flags = (case params of None \<Rightarrow> default_params | Some f \<Rightarrow> f)" "params_ok flags" "pl_simulation p = [(''sim'', v)]" "payload_sim_id L p \<noteq> ''''"
    and "cs_config cl = Some k" "provenance_mismatches p (ct_provenance k) = []" "ct_tbg_submit k = Some ''sbatch''"
    and "runner_from_payload L k p c = Inr (r, setup, run)"
    and "c \<noteq> ''''" "record_of cl c = None" "truthy (cs_allowed cl) \<longrightarrow> truthy sender \<longrightarrow> sender = cs_allowed cl"
    and "fst (seen (cs_seen cl) (carried sender event m))" "map_of (sv_registry s) (payload_sim_id L p) = None"
  shows "\<exists>a cl'. deliver E (carried sender event m) cl = (Some a, cl') \<and>
    cs_tasks cl' = cs_tasks cl @ [SubmitWaiting c \<lparr>pp_payload = p, pp_params = flags, pp_runner = r, pp_run_dir = run, pp_setup_dir = setup,
      pp_submit_system = ''sbatch''\<rparr> (payload_hash L p) (payload_sim_id L p)] \<and>
    (\<exists>o1 q. fst (close_submit L c (on_message mac L a s1)) = Outcome o1 \<and> result_ok o1 \<and> sx_cmd_id o1 = c \<and> sx_state o1 = state_value SimAccepted \<and>
      sx_sim_id o1 = payload_sim_id L p \<and> map_of (sv_registry (on_message mac L a s1)) (payload_sim_id L p) = Some q \<and>
      sr_state q = state_value SimAccepted \<and> sr_cmd_id q = c \<and> sr_active q)"
proof -
  obtain n sq m0 where m0: "build_submit_command L now fresh (sv_sim s) n p params (Some c) None = Inr m0"
    "m = sign_message mac (sl_frepr L) (sv_secret s) m0" "s1 = s\<lparr>sv_sequences := sq, sv_pending := AList.update c None (sv_pending s)\<rparr>"
    using assms(1,14) by (auto simp: open_submit_def or_fresh_def truthy_def Let_def split: sum.splits prod.splits)
  have m: "rm_sim m = sv_sim s" "rm_kind m = KCommand" "rm_type m = type_value TSubmit" "get_str L (rm_payload m) ''cmd_id'' '''' = c"
    using m0(1,2) assms(14) by (auto simp: build_submit_command_def bind_res_Inr_iff or_fresh_def truthy_def)
  have pair: "we_mac E = mac" "we_lib E = L" "cs_sim cl = sv_sim s" "cs_secret cl = sv_secret s" using assms(2) by (simp_all add: paired_def)
  have "payload_hash L p \<noteq> ''''" using assms(9) by (auto simp: payload_sim_id_def)
  from built_command_is_accepted [OF m0(1) assms(3-8) this assms(11-13)] obtain raw doc header prm where parts:
    "map_of (rm_payload m0) ''payload'' = Some (JStr raw)" "parse_payload L raw = Inr doc" "map_of (rm_payload m0) ''header'' = Some (JObj header)"
    "map_of (rm_payload m0) ''params'' = Some prm" "prepare_submit L k doc header (Some prm) c = Inr \<lparr>pp_payload = p, pp_params = flags, pp_runner = r,
      pp_run_dir = run, pp_setup_dir = setup, pp_submit_system = ''sbatch''\<rparr>" by blast
  have hash: "get_str L header ''payload_hash'' '''' = payload_hash L p"
    using m0(1) parts(3) by (auto simp: build_submit_command_def bind_res_Inr_iff payload_counts_def)
  obtain d where acc: "accepts E cl (carried sender event m) = (True, cl\<lparr>cs_seen := d\<rparr>)"
    using accepts_carried [OF assms(2) m(1,2) _ assms(16,17)] m0(2) signed_verifies by blast
  let ?cl = "cl\<lparr>cs_seen := d, cs_sequences := observe_seq (cs_sequences cl) (rm_sim m) (rm_sender_role (carried sender event m)) (rm_seq (carried sender event m))\<rparr>"
  have rec: "record_of ?cl c = None" using assms(15) by (simp add: record_of_def)
  obtain now' n' cl' where adm: "admit_submit E k (carried sender event m) ?cl =
      (sign_message mac (sl_frepr L) (sv_secret s) (build_submit_ack now' (sv_sim s) n' c (payload_sim_id L p) SimAccepted event None None None), cl')"
    "cs_tasks cl' = cs_tasks cl @ [SubmitWaiting c \<lparr>pp_payload = p, pp_params = flags, pp_runner = r, pp_run_dir = run, pp_setup_dir = setup,
      pp_submit_system = ''sbatch''\<rparr> (payload_hash L p) (payload_sim_id L p)]"
    using accepted_admission [OF _ assms(14) rec, of E "carried sender event m" raw doc header prm k] parts m(4) m0(2) pair hash
    by (auto simp: payload_str_def)
  let ?a = "sign_message mac (sl_frepr L) (sv_secret s) (build_submit_ack now' (sv_sim s) n' c (payload_sim_id L p) SimAccepted event None None None)"
  have "deliver E (carried sender event m) cl = (Some ?a, cl')"
    using acc adm(1) m(3) assms(10) by (simp add: deliver_def dispatch_m2_def m2_commands_def hello_command_type_def Let_def)
  moreover have "from_client mac L s1 ?a" using signed_verifies by (simp add: from_client_def m0(3) build_submit_ack_def)
  moreover have "map_of (sv_pending s1) c = Some None" "map_of (sv_registry s1) (payload_sim_id L p) = None" using assms(18) by (simp_all add: m0(3))
  ultimately show ?thesis using adm(2) accepted_ack_home [OF _ refl, of mac L s1] assms(9) by fastforce
qed


theorem submission_handshake_witness:
  "\<exists>m s1 a cl' o1. open_submit sample_mac sample_sim_lib ''t'' ''f'' (Inr sample_payload) (Some sample_params) (Some ''00112233'') start_server = (Inr m, s1) \<and>
     deliver sample_outside (carried None (Some ''e1'') m) start_client = (Some a, cl') \<and> length (cs_tasks cl') = 1 \<and>
     fst (close_submit sample_sim_lib ''00112233'' (on_message sample_mac sample_sim_lib a s1)) = Outcome o1 \<and> sx_state o1 = ''accepted''"
proof -
  obtain n sq where n: "next_seq (sv_sequences start_server) (sv_sim start_server) McpServer = (n, sq)" by force
  obtain m0 where "build_submit_command sample_sim_lib ''t'' ''f'' (sv_sim start_server) n sample_payload (Some sample_params) (Some ''00112233'') None = Inr m0"
    using sample_builds by blast
  then obtain m s1 where o: "open_submit sample_mac sample_sim_lib ''t'' ''f'' (Inr sample_payload) (Some sample_params) (Some ''00112233'') start_server = (Inr m, s1)"
    using n by (simp add: open_submit_def or_fresh_def truthy_def)
  have facts: "sl_loads sample_sim_lib (payload_body sample_sim_lib sample_payload) = Inr (dump_payload sample_payload)" "params_ok sample_params"
    "payload_sim_id sample_sim_lib sample_payload \<noteq> ''''" "provenance_mismatches sample_payload (ct_provenance sample_cluster) = []"
    "runner_from_payload sample_sim_lib sample_cluster sample_payload ''00112233'' =
       Inr (JInt 5, [''data'', ''0123abcd'', ''00112233'', ''input''], [''data'', ''0123abcd'', ''00112233'', ''run''])" by code_simp+
  have reg: "map_of (sv_registry start_server) i = None" for i by (simp add: start_server_def new_server_def)
  show ?thesis
    using submission_handshake [OF o start_paired sample_lib_laws facts(1) refl _ _ facts(3) start_client_parts(3) facts(4) _ facts(5) _ start_client_parts(6) _
        start_client_parts(7) reg, where sender = None and event = "Some ''e1''"] facts(2) start_client_parts(2,4) o
    by (fastforce simp: sample_payload_def sample_cluster_def truthy_def)
qed

end
