(* ===== verification/AgendaPatch.thy ===== *)
theory AgendaPatch
  imports AgendaCampaign Slurm
begin

text \<open>
  \<open>server/agenda.py\<close>: the dotted paths by which a campaign varies one field of a base specification. Which
  segment addresses a list and which a dict is decided by the node, not by the segment. The deep copy that is
  changed in place becomes a function that rebuilds the nodes on the path.
\<close>

section \<open>Segments\<close>

text \<open>\<open>_LIST_INDEX_RE.fullmatch\<close> and \<open>int\<close> of what it matched.\<close>

definition list_index :: "string \<Rightarrow> int option" where
  "list_index part = (case part of
     CHR ''-'' # t \<Rightarrow> if t \<noteq> [] \<and> list_all digit t then map_option uminus (digits_value 0 t) else None
   | _ \<Rightarrow> if part \<noteq> [] \<and> list_all digit part then digits_value 0 part else None)"

text \<open>The position Python indexing with \<open>i\<close> means in a list of length \<open>n\<close>; \<open>None\<close> is an \<open>IndexError\<close>.\<close>

definition py_index :: "nat \<Rightarrow> int \<Rightarrow> nat option" where
  "py_index n i = (if 0 \<le> i \<and> i < int n then Some (nat i)
     else if - int n \<le> i \<and> i < 0 then Some (nat (i + int n)) else None)"

lemma py_index_less: "py_index n i = Some k \<Longrightarrow> k < n"
  by (auto simp: py_index_def split: if_splits)

fun container :: "json \<Rightarrow> bool" where
  "container (JObj d) = True"
| "container (JList xs) = True"
| "container _ = False"

definition no_object :: "string \<Rightarrow> string \<Rightarrow> string" where
  "no_object dotted part = ''patch path '' @ repr_str dotted @ '' has no object at '' @ repr_str part"

definition no_index :: "string \<Rightarrow> string \<Rightarrow> string" where
  "no_index dotted part = ''patch path '' @ repr_str dotted @ '' has no numeric index at '' @ repr_str part"

section \<open>Setting a field\<close>

fun patch_child :: "string \<Rightarrow> json \<Rightarrow> string \<Rightarrow> string + json" where
  "patch_child dotted (JObj d) part = (case map_of d part of
     None \<Rightarrow> Inl (no_object dotted part)
   | Some c \<Rightarrow> if container c then Inr c else Inl (no_object dotted part))"
| "patch_child dotted (JList xs) part = (case list_index part of
     None \<Rightarrow> Inl (no_index dotted part)
   | Some i \<Rightarrow> (case py_index (length xs) i of
       None \<Rightarrow> Inl ''list index out of range'' | Some k \<Rightarrow> Inr (xs ! k)))"
| "patch_child dotted node part = Inl (no_object dotted part)"

text \<open>The node with its child at a segment replaced: what changing the child in place does to it.\<close>

fun put_child :: "json \<Rightarrow> string \<Rightarrow> json \<Rightarrow> json" where
  "put_child (JObj d) part c = JObj (AList.update part c d)"
| "put_child (JList xs) part c = (case list_index part of None \<Rightarrow> JList xs
   | Some i \<Rightarrow> (case py_index (length xs) i of None \<Rightarrow> JList xs | Some k \<Rightarrow> JList (xs[k := c])))"
| "put_child node part c = node"

fun set_last :: "string \<Rightarrow> json \<Rightarrow> string \<Rightarrow> json \<Rightarrow> string + json" where
  "set_last dotted (JList xs) part v = (case list_index part of
     None \<Rightarrow> Inl (no_index dotted part)
   | Some i \<Rightarrow> (case py_index (length xs) i of
       None \<Rightarrow> Inl ''list assignment index out of range'' | Some k \<Rightarrow> Inr (JList (xs[k := v]))))"
| "set_last dotted (JObj d) part v = Inr (JObj (AList.update part v d))"
| "set_last dotted node part v = Inl (no_object dotted part)"

fun patch_at :: "string \<Rightarrow> json \<Rightarrow> string list \<Rightarrow> json \<Rightarrow> string + json" where
  "patch_at dotted node [] v = Inr node"
| "patch_at dotted node [part] v = set_last dotted node part v"
| "patch_at dotted node (part # q # parts) v = bind_res (patch_child dotted node part)
     (\<lambda>c. bind_res (patch_at dotted c (q # parts) v) (\<lambda>c'. Inr (put_child node part c')))"

fun fields_of :: "json \<Rightarrow> spec" where
  "fields_of (JObj d) = d"
| "fields_of _ = []"

definition patch_spec :: "spec \<Rightarrow> string \<Rightarrow> json \<Rightarrow> string + spec" where
  "patch_spec sp dotted v =
     bind_res (patch_at dotted (JObj sp) (split_on CHR ''.'' dotted) v) (\<lambda>n. Inr (fields_of n))"

section \<open>Checking and naming the target\<close>

fun child_of :: "json \<Rightarrow> string \<Rightarrow> json option" where
  "child_of (JObj d) part = map_of d part"
| "child_of (JList xs) part = (case list_index part of None \<Rightarrow> None
   | Some i \<Rightarrow> map_option (\<lambda>k. xs ! k) (py_index (length xs) i))"
| "child_of node part = None"

fun target_at :: "json \<Rightarrow> string list \<Rightarrow> bool" where
  "target_at node [] = False"
| "target_at node [part] = (child_of node part \<noteq> None)"
| "target_at node (part # q # parts) = (case child_of node part of
     None \<Rightarrow> False | Some c \<Rightarrow> container c \<and> target_at c (q # parts))"

definition leaf_target_exists :: "spec \<Rightarrow> string \<Rightarrow> bool" where
  "leaf_target_exists sp dotted = target_at (JObj sp) (split_on CHR ''.'' dotted)"

definition parameter_for :: "string \<Rightarrow> string" where
  "parameter_for dotted = last (split_on CHR ''.'' dotted)"

text \<open>The segments that are not list indices; a node that is missing counts as \<open>None\<close>, as \<open>null\<close> does.\<close>

fun readable_parts :: "json \<Rightarrow> string list \<Rightarrow> string list" where
  "readable_parts node [] = []"
| "readable_parts node (part # parts) = (case (node, list_index part) of
     (JList xs, Some i) \<Rightarrow> readable_parts (case py_index (length xs) i of None \<Rightarrow> JNull | Some k \<Rightarrow> xs ! k) parts
   | (JObj d, _) \<Rightarrow> part # readable_parts (get_or d part JNull) parts
   | _ \<Rightarrow> part # readable_parts JNull parts)"

definition sweep_parameter_for :: "string \<Rightarrow> spec \<Rightarrow> string" where
  "sweep_parameter_for dotted sp =
     (let t = join_str ''.'' (readable_parts (JObj sp) (split_on CHR ''.'' dotted))
      in if t = [] then parameter_for dotted else t)"

fun point_for :: "string \<Rightarrow> json \<Rightarrow> point option" where
  "point_for parameter (JInt i) = Some [(parameter, SInt i)]"
| "point_for parameter (JFloat f) = Some [(parameter, SFloat f)]"
| "point_for parameter (JStr s) = Some [(parameter, SStr s)]"
| "point_for parameter _ = None"

section \<open>Leaves of a sweep\<close>

text \<open>\<open>leaf{index:03d}\<close>.\<close>

definition leaf_name :: "nat \<Rightarrow> string" where
  "leaf_name n = ''leaf'' @ replicate (3 - length (show_nat n)) CHR ''0'' @ show_nat n"

definition sim_key :: "(pyfloat \<Rightarrow> string) \<Rightarrow> spec \<Rightarrow> string" where
  "sim_key frepr sp = json_dumps frepr (JObj [(''sim'', get_or sp ''sim'' JNull)])"

fun duplicate_from :: "(pyfloat \<Rightarrow> string) \<Rightarrow> (string \<times> nat) list \<Rightarrow> nat \<Rightarrow> spec list \<Rightarrow> (nat \<times> nat) option" where
  "duplicate_from frepr seen_keys n [] = None"
| "duplicate_from frepr seen_keys n (sp # sps) = (case map_of seen_keys (sim_key frepr sp) of
     Some m \<Rightarrow> Some (m, n)
   | None \<Rightarrow> duplicate_from frepr (AList.update (sim_key frepr sp) n seen_keys) (Suc n) sps)"

definition duplicate_detail :: "nat \<Rightarrow> nat \<Rightarrow> string" where
  "duplicate_detail m n = ''leaves '' @ leaf_name m @ '' and '' @ leaf_name n
     @ '' have identical specs; identical simulations map to the same sim_id and would collapse into one job; ''
     @ ''make the values distinct''"

definition duplicate_leaf_error :: "(pyfloat \<Rightarrow> string) \<Rightarrow> spec list \<Rightarrow> (string \<times> json) list option" where
  "duplicate_leaf_error frepr specs = (case duplicate_from frepr [] 0 specs of None \<Rightarrow> None
   | Some (m, n) \<Rightarrow> Some [(''ok'', JBool False), (''error'', JStr ''duplicate_campaign_spec''),
       (''detail'', JStr (duplicate_detail m n))])"

definition box_patch_prefixes :: "string list" where
  "box_patch_prefixes = [''sim.grid.cell_cnt'', ''sim.grid.cell_size'']"

definition box_size_sweep_warning :: "string \<Rightarrow> string option" where
  "box_size_sweep_warning dotted =
     (if \<not> list_ex (\<lambda>p. starts_with p dotted) box_patch_prefixes then None
      else Some (''patch_path '' @ repr_str dotted @ '' ''
        @ (if starts_with ''sim.grid.cell_cnt'' dotted
           then ''changes the physical box size at constant cell_size (resolution)''
           else ''changes the cell_size (resolution) at constant cell count'')
        @ '' -- a legitimate box-size sweep; accepted. If you intended a fixed-box resolution sweep, this does not ''
        @ ''hold the box fixed: co-vary `sim.grid.cell_size`, `sim.grid.cell_cnt` (and 3D `sim.grid.cell_depth`) ''
        @ ''plus a CFL-consistent `sim.delta_t_si`/`sim.time_steps` (e.g. via add_agenda_leaf with whole specs).''))"

section \<open>A patch changes one field\<close>

lemma update_back: "map_of d k = Some c \<Longrightarrow> AList.update k c (AList.update k c' d) = d"
  by (induction d) auto

lemma child_put: "child_of node p = Some c \<Longrightarrow> child_of (put_child node p c') p = Some c'"
  by (cases node) (auto split: option.splits dest: py_index_less)

lemma update_same: "map_of d k = Some c \<Longrightarrow> AList.update k c d = d"
  by (induction d) auto

lemma put_back: "child_of node p = Some c \<Longrightarrow> put_child (put_child node p c') p c = node"
  by (cases node) (auto simp: update_back update_same split: option.splits)

lemma put_container [simp]: "container (put_child node p c) = container node"
  by (cases node) (auto split: option.splits)

lemma child_container: "child_of node p = Some c \<Longrightarrow> container node"
  by (cases node) auto

lemma set_last_child: "child_of node p = Some c \<Longrightarrow> set_last dotted node p v = Inr (put_child node p v)"
  by (cases node) (auto split: option.splits)

lemma patch_child_of: "child_of node p = Some c \<Longrightarrow> container c \<Longrightarrow> patch_child dotted node p = Inr c"
  by (cases node) (auto split: option.splits)

text \<open>The value at a path, as a reader of the specification sees it.\<close>

fun value_at :: "json \<Rightarrow> string list \<Rightarrow> json option" where
  "value_at node [] = Some node"
| "value_at node (part # parts) = (case child_of node part of None \<Rightarrow> None | Some c \<Rightarrow> value_at c parts)"

lemma value_at_child: "child_of node part = Some c \<Longrightarrow> value_at node (part # parts) = value_at c parts"
  by simp

lemma patch_at_target:
  "target_at node parts \<Longrightarrow> \<exists>node'. patch_at dotted node parts v = Inr node' \<and> container node' \<and>
     target_at node' parts \<and> value_at node' parts = Some v \<and>
     (\<exists>old. value_at node parts = Some old \<and> patch_at dotted node' parts old = Inr node)"
proof (induction node parts rule: target_at.induct)
  case (2 node part)
  then obtain c where c: "child_of node part = Some c" by auto
  show ?case
    by (intro exI [of _ "put_child node part v"])
      (use c child_container [OF c] in \<open>simp add: set_last_child [OF c] set_last_child [OF child_put [OF c]] child_put [OF c] put_back [OF c]\<close>)
next
  case (3 node part q parts)
  then obtain c where c: "child_of node part = Some c" "container c" "target_at c (q # parts)"
    by (auto split: option.splits)
  from "3.IH" [OF c(1,3)] obtain c' old where c': "patch_at dotted c (q # parts) v = Inr c'" "container c'"
    "target_at c' (q # parts)" "value_at c' (q # parts) = Some v"
    "value_at c (q # parts) = Some old" "patch_at dotted c' (q # parts) old = Inr c" by blast
  note put = child_put [OF c(1), of c']
  show ?case
    by (intro exI [of _ "put_child node part c'"])
      (use c c' put child_container [OF c(1)] in \<open>simp add: patch_child_of [OF c(1,2)] patch_child_of [OF put c'(2)]
         put_back [OF c(1)] value_at_child [OF c(1)] value_at_child [OF put] del: value_at.simps target_at.simps(2)\<close>)
qed simp

lemma patch_child_children: "patch_child dotted node p = Inr c \<Longrightarrow> container node"
  by (cases node) auto

lemma patched_container: "patch_at dotted node parts v = Inr n \<Longrightarrow> parts \<noteq> [] \<Longrightarrow> container n \<and> container node"
proof (induction dotted node parts v arbitrary: n rule: patch_at.induct)
  case (2 dotted node part v)
  then show ?case by (cases node) (auto split: option.splits)
next
  case (3 dotted node part q parts v)
  then show ?case by (auto simp: bind_res_Inr_iff dest: patch_child_children)
qed simp

lemma patched_object:
  assumes "patch_at dotted (JObj d) parts v = Inr n" shows "\<exists>d'. n = JObj d'"
  using assms by (cases "(dotted, JObj d, parts, v)" rule: patch_at.cases) (auto simp: bind_res_Inr_iff)


lemma patched_sim:
  assumes "patch_spec base dotted v = Inr sp"
  shows "get_or sp ''sim'' JNull = get_or base ''sim'' JNull \<or> get_or sp ''sim'' JNull = v \<or>
    container (get_or sp ''sim'' JNull)"
proof -
  obtain n where n: "patch_at dotted (JObj base) (split_on CHR ''.'' dotted) v = Inr n" "sp = fields_of n"
    using assms by (auto simp: patch_spec_def bind_res_Inr_iff)
  consider (one) p where "split_on CHR ''.'' dotted = [p]"
    | (more) p q ps where "split_on CHR ''.'' dotted = p # q # ps"
    by (metis split_on_not_Nil list.exhaust)
  then show ?thesis
  proof cases
    case one
    with n show ?thesis by (auto simp: get_or_def)
  next
    case more
    with n(1) obtain c c' where "patch_child dotted (JObj base) p = Inr c" "patch_at dotted c (q # ps) v = Inr c'"
      "n = JObj (AList.update p c' base)" by (auto simp: bind_res_Inr_iff)
    with n(2) patched_container [of dotted c "q # ps" v c'] show ?thesis by (auto simp: get_or_def)
  qed
qed

section \<open>The leaves of a sweep are distinct\<close>

lemma show_nat_value: "foldl (\<lambda>a c. 10 * a + (of_char c - 48)) 0 (show_nat n) = (n::nat)"
proof (induction n rule: show_nat.induct)
  case (1 n)
  then show ?case by (subst show_nat.simps) simp
qed

lemma zeros_value: "foldl (\<lambda>a c. 10 * a + (of_char c - 48)) 0 (replicate k CHR ''0'') = (0::nat)"
  by (induction k) auto

lemma leaf_name_inject [simp]: "leaf_name m = leaf_name n \<longleftrightarrow> m = n"
proof
  assume "leaf_name m = leaf_name n"
  then have "foldl (\<lambda>a c. 10 * a + (of_char c - 48)) 0 (replicate (3 - length (show_nat m)) CHR ''0'' @ show_nat m) =
      (foldl (\<lambda>a c. 10 * a + (of_char c - 48)) 0 (replicate (3 - length (show_nat n)) CHR ''0'' @ show_nat n) :: nat)"
    by (simp add: leaf_name_def)
  then show "m = n" by (simp add: zeros_value show_nat_value)
qed simp

lemma leaf_name_legal: "validate_entry_name (leaf_name n) = None"
proof -
  have "CHR ''/'' \<notin> set (show_nat n)" using show_nat_digits [of n] by (auto simp: is_digit_def)
  then show ?thesis by (auto simp: validate_entry_name_def leaf_name_def raise_if_def)
qed

lemma no_duplicate_from:
  "duplicate_from frepr seen_keys n sps = None \<Longrightarrow> distinct (map (sim_key frepr) sps) \<and>
     set (map (sim_key frepr) sps) \<inter> set (keys seen_keys) = {}"
proof (induction sps arbitrary: seen_keys n)
  case (Cons sp sps)
  from Cons.prems have k: "sim_key frepr sp \<notin> set (keys seen_keys)"
    and "duplicate_from frepr (AList.update (sim_key frepr sp) n seen_keys) (Suc n) sps = None"
    by (simp_all add: map_of_eq_None_iff split: option.splits)
  note IH = Cons.IH [OF this(2)]
  have u: "set (keys (AList.update (sim_key frepr sp) n seen_keys)) = insert (sim_key frepr sp) (set (keys seen_keys))"
    by (simp add: dom_update)
  show ?case using IH k unfolding u by simp
qed simp

text \<open>
  C9: When the target of a patch exists, patching succeeds, the field then holds the new value, and putting the old
  value back gives the base specification again: the patch changes that field and nothing else, and different
  values give different specifications.
\<close>

theorem patch_changes_one_field:
  assumes "leaf_target_exists base dotted"
  shows "\<exists>sp old. patch_spec base dotted v = Inr sp \<and>
    value_at (JObj sp) (split_on CHR ''.'' dotted) = Some v \<and>
    value_at (JObj base) (split_on CHR ''.'' dotted) = Some old \<and>
    patch_spec sp dotted old = Inr base"
proof -
  from patch_at_target [of "JObj base" "split_on CHR ''.'' dotted" dotted v] assms obtain n old where n:
    "patch_at dotted (JObj base) (split_on CHR ''.'' dotted) v = Inr n"
    "value_at n (split_on CHR ''.'' dotted) = Some v" "value_at (JObj base) (split_on CHR ''.'' dotted) = Some old"
    "patch_at dotted n (split_on CHR ''.'' dotted) old = Inr (JObj base)"
    by (auto simp: leaf_target_exists_def)
  from patched_object [OF n(1)] obtain d where "n = JObj d" by blast
  with n show ?thesis by (auto simp: patch_spec_def)
qed

definition sample_base :: spec where
  "sample_base = [(''sim'', JObj [(''bc'', JObj [(''0'', JStr ''periodic'')]),
     (''laser'', JList [JNull, JObj [(''focus'', JInt 1)]])])]"

theorem patch_changes_one_field_witness:
  "\<exists>sp old. patch_spec sample_base ''sim.laser.-1.focus'' (JInt 7) = Inr sp \<and>
    value_at (JObj sp) [''sim'', ''laser'', ''-1'', ''focus''] = Some (JInt 7) \<and>
    patch_spec sp ''sim.laser.-1.focus'' old = Inr sample_base"
proof -
  have "leaf_target_exists sample_base ''sim.laser.-1.focus''"
    by (simp add: leaf_target_exists_def sample_base_def list_index_def digit_def char_nat_def py_index_def)
  moreover have "split_on CHR ''.'' ''sim.laser.-1.focus'' = [''sim'', ''laser'', ''-1'', ''focus'']" by simp
  ultimately show ?thesis using patch_changes_one_field [of sample_base "''sim.laser.-1.focus''" "JInt 7"]
    by (metis (no_types))
qed


end
