(* ===== verification/SpecCheck.thy ===== *)
theory SpecCheck
  imports AgendaPatch SimSubmit
begin

text \<open>
  \<open>simulation_build.py\<close>: the checks a campaign's specification passes before it is written to disk. The round trip
  through the pinned schema, or without it the search for a misplaced field, and the arithmetic a patch of one field
  can break: the mirrored cell depth, the explicit distribution, the stability limit of the field solver.
\<close>

section \<open>Numbers of the specification\<close>

text \<open>
  What is used of \<open>math\<close> and the number formats. The square is float \<open>**\<close> with exponent 2, and \<open>sum\<close> of floats
  differs between versions of Python (plain or compensated), so both are parameters, as are the texts of exceptions. A raise is
  told apart by its class: \<open>TypeError\<close>, \<open>ValueError\<close> and \<open>IndexError\<close> make an invalid campaign of it.
\<close>

datatype py_raise = ModelError string | OtherError string

record maths =
  mh_square :: "pyfloat \<Rightarrow> py_raise + pyfloat"
  mh_sqrt :: "pyfloat \<Rightarrow> py_raise + pyfloat"
  mh_sum :: "pyfloat list \<Rightarrow> pyfloat"
  mh_fmtg :: "pyfloat \<Rightarrow> string"
  mh_fmt6g :: "pyfloat \<Rightarrow> string"
  mh_frepr :: "pyfloat \<Rightarrow> string"
  mh_int_error :: "pyfloat \<Rightarrow> py_raise"
  mh_float_error :: py_raise
  mh_div_zero :: py_raise

fun is_number :: "json \<Rightarrow> bool" where
  "is_number (JInt i) = True"
| "is_number (JFloat f) = True"
| "is_number _ = False"

definition to_float :: "maths \<Rightarrow> int \<Rightarrow> py_raise + pyfloat" where
  "to_float M i = (case float_of_int i of Some f \<Rightarrow> Inr f | None \<Rightarrow> Inl (mh_float_error M))"

fun float_value :: "maths \<Rightarrow> json \<Rightarrow> py_raise + pyfloat" where
  "float_value M (JInt i) = to_float M i"
| "float_value M (JFloat f) = Inr f"
| "float_value M _ = Inl (mh_float_error M)"

fun int_value_of :: "maths \<Rightarrow> json \<Rightarrow> py_raise + int" where
  "int_value_of M (JInt i) = Inr i"
| "int_value_of M (JFloat (Fin q)) = Inr (if q < 0 then \<lceil>q\<rceil> else \<lfloor>q\<rfloor>)"
| "int_value_of M (JFloat f) = Inl (mh_int_error M f)"
| "int_value_of M _ = Inl (mh_int_error M NaN)"

definition divide :: "maths \<Rightarrow> pyfloat \<Rightarrow> pyfloat \<Rightarrow> py_raise + pyfloat" where
  "divide M x y = (case fdiv x y of None \<Rightarrow> Inl (mh_div_zero M) | Some z \<Rightarrow> Inr z)"

section \<open>The shape of the grid\<close>

definition equals_int :: "json \<Rightarrow> int \<Rightarrow> bool" where
  "equals_int v i \<longleftrightarrow> v = JInt i \<or> v = JFloat (Fin (of_int i))"

definition grid_is_3d :: "(string \<times> json) list \<Rightarrow> bool" where
  "grid_is_3d grid = (let dim = get_or grid ''sim_dim'' JNull in
     if map_of grid ''has_z'' = Some (JBool False) \<or> equals_int dim 2 \<or> map_of grid ''type_grid2d'' = Some (JBool True)
     then False
     else if map_of grid ''has_z'' = Some (JBool True) \<or> equals_int dim 3 \<or> map_of grid ''type_grid3d'' = Some (JBool True)
     then True
     else (case map_of grid ''cell_size'' of Some (JObj cs) \<Rightarrow> has_key ''z'' cs | _ \<Rightarrow> False))"

definition grid_axes :: "(string \<times> json) list \<Rightarrow> string list" where
  "grid_axes grid = (if grid_is_3d grid then [''x'', ''y'', ''z''] else [''x'', ''y''])"

section \<open>The explicit distribution\<close>

text \<open>A chunk is a number or a mapping with \<open>device_cells\<close>; anything else makes the axis undeterminable.\<close>

fun grid_dist_chunks :: "maths \<Rightarrow> json list \<Rightarrow> py_raise + int list option" where
  "grid_dist_chunks M [] = Inr (Some [])"
| "grid_dist_chunks M (c # cs) =
     (let v = (case c of JObj d \<Rightarrow> get_or d ''device_cells'' JNull | _ \<Rightarrow> c) in
      if \<not> is_number v then Inr None
      else bind_res (int_value_of M v) (\<lambda>i. bind_res (grid_dist_chunks M cs) (\<lambda>r. Inr (map_option ((#) i) r))))"

definition dist_detail :: "string \<Rightarrow> int \<Rightarrow> int \<Rightarrow> string" where
  "dist_detail axis total_cells n = ''sim.grid.grid_dist.'' @ axis @ '' sums to '' @ show_int total_cells
     @ '', which is inconsistent with sim.grid.cell_cnt.'' @ axis @ '' ('' @ show_int n
     @ ''): an explicit distribution must sum to the cell count. Co-vary cell_cnt and grid_dist (or patch the whole `sim.grid` node).''"

fun dist_axes :: "maths \<Rightarrow> (string \<times> json) list \<Rightarrow> (string \<times> json) list \<Rightarrow> string list \<Rightarrow> py_raise + string option" where
  "dist_axes M split_of counts [] = Inr None"
| "dist_axes M split_of counts (axis # axes) = (case (map_of split_of axis, map_of counts axis) of
     (Some (JList chunks), Some cnt) \<Rightarrow>
       (if \<not> is_number cnt then dist_axes M split_of counts axes
        else bind_res (grid_dist_chunks M chunks) (\<lambda>cells. case cells of
               None \<Rightarrow> dist_axes M split_of counts axes
             | Some cs \<Rightarrow> bind_res (int_value_of M cnt) (\<lambda>n.
                 if sum_list cs \<noteq> n then Inr (Some (dist_detail axis (sum_list cs) n)) else dist_axes M split_of counts axes)))
   | _ \<Rightarrow> dist_axes M split_of counts axes)"

definition grid_dist_message :: "maths \<Rightarrow> (string \<times> json) list \<Rightarrow> py_raise + string option" where
  "grid_dist_message M grid = (case (map_of grid ''grid_dist'', map_of grid ''cell_cnt'') of
     (Some (JObj split_of), Some (JObj counts)) \<Rightarrow> dist_axes M split_of counts (grid_axes grid)
   | _ \<Rightarrow> Inr None)"

section \<open>The mirrored cell depth\<close>

definition depth_detail :: "maths \<Rightarrow> pyfloat \<Rightarrow> pyfloat \<Rightarrow> string" where
  "depth_detail M depth z = ''sim.grid.cell_depth ('' @ mh_fmtg M depth @ '') is inconsistent with sim.grid.cell_size.z (''
     @ mh_fmtg M z @ ''): cell_depth is the z cell length, a denormalised copy the pin recomputes from cell_size. ''
     @ ''Patch the whole `sim.grid` node so the fields move together, or use add_agenda_leaf with a whole spec per leaf.''"

definition cell_depth_message :: "maths \<Rightarrow> (string \<times> json) list \<Rightarrow> py_raise + string option" where
  "cell_depth_message M grid = (case (map_of grid ''cell_size'', map_of grid ''cell_depth'') of
     (Some (JObj size_of), Some depth) \<Rightarrow>
       (let z = get_or size_of ''z'' JNull in
        if \<not> is_number depth \<or> \<not> grid_is_3d grid \<or> \<not> is_number z then Inr None
        else bind_res (float_value M depth) (\<lambda>d. bind_res (float_value M z) (\<lambda>w.
          if isclose d w (Fin 0) then Inr None else Inr (Some (depth_detail M d w)))))
   | _ \<Rightarrow> Inr None)"

section \<open>The stability limit\<close>

datatype solver_kind = SolverNone | SolverYee | SolverLehe | SolverCkc | SolverAo

definition solver_flags :: "(string \<times> solver_kind) list" where
  "solver_flags = [(''type_none'', SolverNone), (''type_yee'', SolverYee), (''type_lehe'', SolverLehe),
     (''type_ckc'', SolverCkc), (''type_arbitraryorderfdtd'', SolverAo)]"

definition solver_prefixes :: "(string \<times> solver_kind) list" where
  "solver_prefixes = [(''Yee'', SolverYee), (''Lehe'', SolverLehe), (''CKC'', SolverCkc), (''ArbitraryOrderFDTD'', SolverAo)]"

definition solver_kind_by_name :: "json \<Rightarrow> solver_kind option" where
  "solver_kind_by_name v = (case v of
     JStr name \<Rightarrow> (case find (\<lambda>(p, k). starts_with p name) solver_prefixes of
        Some (p, k) \<Rightarrow> Some k | None \<Rightarrow> if name = ''None'' then Some SolverNone else None)
   | _ \<Rightarrow> None)"

definition solver_kind_of :: "json \<Rightarrow> solver_kind option" where
  "solver_kind_of solver = (case solver of
     JObj d \<Rightarrow> (case find (\<lambda>(flag, k). map_of d flag = Some (JBool True)) solver_flags of
        Some (flag, k) \<Rightarrow> Some k | None \<Rightarrow> solver_kind_by_name (get_or d ''name'' JNull))
   | _ \<Rightarrow> None)"

fun cell_sizes_on :: "maths \<Rightarrow> (string \<times> json) list \<Rightarrow> string list \<Rightarrow> py_raise + pyfloat list option" where
  "cell_sizes_on M sizes [] = Inr (Some [])"
| "cell_sizes_on M sizes (axis # axes) =
     (let v = get_or sizes axis JNull in
      if \<not> is_number v then Inr None
      else bind_res (float_value M v) (\<lambda>f. if fle f (Fin 0) then Inr None
        else bind_res (cell_sizes_on M sizes axes) (\<lambda>r. Inr (map_option ((#) f) r))))"

definition spatial_cell_sizes :: "maths \<Rightarrow> (string \<times> json) list \<Rightarrow> py_raise + pyfloat list option" where
  "spatial_cell_sizes M grid = (case map_of grid ''cell_size'' of
     Some (JObj sizes) \<Rightarrow> cell_sizes_on M sizes (grid_axes grid) | _ \<Rightarrow> Inr None)"

text \<open>The weights of the arbitrary-order stencil, each from the one before it.\<close>

definition half :: pyfloat where
  "half = Fin (1 / 2)"

definition first_weight :: "maths \<Rightarrow> nat \<Rightarrow> py_raise + pyfloat" where
  "first_weight M n = bind_res (to_float M (int n)) (\<lambda>f.
     bind_res (mh_square M (rnd (of_nat (fact (2 * n)) / of_nat (2 ^ (2 * n) * (fact n)\<^sup>2)))) (\<lambda>s.
       Inr (fmul (fmul (Fin 4) f) s)))"

definition next_weight :: "maths \<Rightarrow> nat \<Rightarrow> nat \<Rightarrow> pyfloat \<Rightarrow> py_raise + pyfloat" where
  "next_weight M n k w =
     bind_res (to_float M (int k)) (\<lambda>fk. bind_res (mh_square M (fsub fk half)) (\<lambda>below.
     bind_res (to_float M (int n - int k)) (\<lambda>fd. bind_res (to_float M (int n + int k)) (\<lambda>fs.
     bind_res (divide M (fmul below fd) fs) (\<lambda>q. bind_res (mh_square M (fadd fk half)) (\<lambda>above.
     bind_res (divide M q above) (\<lambda>r. Inr (fmul (fneg r) w))))))))"

fun ao_weights :: "maths \<Rightarrow> nat \<Rightarrow> nat \<Rightarrow> py_raise + pyfloat list" where
  "ao_weights M n 0 = bind_res (first_weight M n) (\<lambda>w. Inr [w])"
| "ao_weights M n (Suc k) = bind_res (ao_weights M n k) (\<lambda>ws.
     bind_res (next_weight M n (Suc k) (last ws)) (\<lambda>w. Inr (ws @ [w])))"

definition ao_weight_sum :: "maths \<Rightarrow> nat \<Rightarrow> py_raise + pyfloat" where
  "ao_weight_sum M n = bind_res (ao_weights M n (n - 1)) (\<lambda>ws.
     Inr (mh_sum M (map (\<lambda>(i, w). if even i then w else fneg w) (enumerate 0 ws))))"

fun inverse_squares :: "maths \<Rightarrow> pyfloat list \<Rightarrow> py_raise + pyfloat list" where
  "inverse_squares M [] = Inr []"
| "inverse_squares M (x # xs) = bind_res (mh_square M x) (\<lambda>s. bind_res (divide M (Fin 1) s) (\<lambda>y.
     bind_res (inverse_squares M xs) (\<lambda>ys. Inr (y # ys))))"

definition whole_number :: "pyfloat \<Rightarrow> nat option" where
  "whole_number f = (case f of Fin q \<Rightarrow> if q < 1 \<or> q \<noteq> of_int \<lfloor>q\<rfloor> then None else Some (nat \<lfloor>q\<rfloor>) | _ \<Rightarrow> None)"

text \<open>The number of neighbours of an arbitrary-order stencil: a whole number of at least one.\<close>

definition neighbours :: "maths \<Rightarrow> json \<Rightarrow> py_raise + nat option" where
  "neighbours M v = (if \<not> is_number v then Inr None
     else bind_res (float_value M v) (\<lambda>f. Inr (case v of
       JInt i \<Rightarrow> if i < 1 then None else Some (nat i) | _ \<Rightarrow> whole_number f)))"

definition cfl_max_cell_step :: "maths \<Rightarrow> json \<Rightarrow> pyfloat list \<Rightarrow> py_raise + pyfloat option" where
  "cfl_max_cell_step M solver sizes = (case solver_kind_of solver of
     None \<Rightarrow> Inr None | Some SolverLehe \<Rightarrow> Inr None | Some SolverNone \<Rightarrow> Inr None
   | Some kind \<Rightarrow> bind_res (inverse_squares M sizes) (\<lambda>ys. let inv = mh_sum M ys in
      case kind of
        SolverYee \<Rightarrow> bind_res (mh_sqrt M inv) (\<lambda>s. bind_res (divide M (Fin 1) s) (\<lambda>q. Inr (Some q)))
      | SolverCkc \<Rightarrow> Inr (Some (fold (\<lambda>x m. fmin2 m x) (tl sizes) (hd sizes)))
      | _ \<Rightarrow> bind_res (neighbours M (case solver of JObj d \<Rightarrow> get_or d ''neighbors'' JNull | _ \<Rightarrow> JNull)) (\<lambda>n.
          case n of None \<Rightarrow> Inr None
          | Some n \<Rightarrow> bind_res (ao_weight_sum M n) (\<lambda>w. if fle w (Fin 0) then Inr None
              else bind_res (mh_sqrt M inv) (\<lambda>s. bind_res (divide M (Fin 1) (fmul w s)) (\<lambda>q. Inr (Some q)))))))"

definition speed_of_light :: pyfloat where
  "speed_of_light = Fin 299792458"

definition cfl_rel_tol :: pyfloat where
  "cfl_rel_tol = rnd (1 / 10 ^ 6)"

definition float_list_repr :: "maths \<Rightarrow> pyfloat list \<Rightarrow> string" where
  "float_list_repr M xs = ''['' @ join_str '', '' (map (mh_frepr M) xs) @ '']''"

definition cfl_detail :: "maths \<Rightarrow> pyfloat \<Rightarrow> pyfloat \<Rightarrow> pyfloat \<Rightarrow> pyfloat list \<Rightarrow> string" where
  "cfl_detail M dt c_dt limit sizes = ''sim.delta_t_si ('' @ mh_fmtg M dt
     @ '' s) violates the field solver's CFL stability limit: c*delta_t_si = '' @ mh_fmt6g M c_dt
     @ '' m exceeds the maximum '' @ mh_fmt6g M limit @ '' m for cell sizes '' @ float_list_repr M sizes
     @ '' m. Reduce delta_t_si, or co-vary the grid (cell_size/cell_cnt/cell_depth), ''
     @ ''delta_t_si and time_steps together (e.g. via add_agenda_leaf with whole specs).''"

definition within_limit :: "pyfloat \<Rightarrow> pyfloat \<Rightarrow> bool" where
  "within_limit c_dt limit = fle c_dt (fmul limit (fadd (Fin 1) cfl_rel_tol))"

definition cfl_message :: "maths \<Rightarrow> (string \<times> json) list \<Rightarrow> (string \<times> json) list \<Rightarrow> py_raise + string option" where
  "cfl_message M sim grid = (let v = get_or sim ''delta_t_si'' JNull in
     if \<not> is_number v then Inr None
     else bind_res (float_value M v) (\<lambda>dt. if fle dt (Fin 0) then Inr None
       else bind_res (spatial_cell_sizes M grid) (\<lambda>sizes. case sizes of
         None \<Rightarrow> Inr None
       | Some xs \<Rightarrow> bind_res (cfl_max_cell_step M (get_or sim ''solver'' JNull) xs) (\<lambda>limit. case limit of
           None \<Rightarrow> Inr None
         | Some m \<Rightarrow> (let c_dt = fmul speed_of_light dt in
             if within_limit c_dt m then Inr None else Inr (Some (cfl_detail M dt c_dt m xs)))))))"

section \<open>The check of a patch\<close>

definition touches_grid :: "string \<Rightarrow> bool" where
  "touches_grid path = (path = ''sim.grid'' \<or> starts_with ''sim.grid.'' path)"

fun first_message :: "(py_raise + string option) list \<Rightarrow> py_raise + string option" where
  "first_message [] = Inr None"
| "first_message (m # ms) = bind_res m (\<lambda>r. case r of Some t \<Rightarrow> Inr (Some t) | None \<Rightarrow> first_message ms)"

definition check_spec_consistency :: "maths \<Rightarrow> spec \<Rightarrow> string \<Rightarrow> py_raise + string option" where
  "check_spec_consistency M sp path = (case map_of sp ''sim'' of
     Some (JObj sim) \<Rightarrow> (case map_of sim ''grid'' of
        Some (JObj grid) \<Rightarrow> first_message
          [if touches_grid path \<or> path \<in> {''sim.grid.cell_size'', ''sim.grid.cell_depth''} then cell_depth_message M grid else Inr None,
           if touches_grid path \<or> path \<in> {''sim.grid.cell_cnt'', ''sim.grid.grid_dist''} then grid_dist_message M grid else Inr None,
           if touches_grid path \<or> path \<in> {''sim.delta_t_si'', ''sim.grid.cell_size'', ''sim.solver''} then cfl_message M sim grid else Inr None]
      | _ \<Rightarrow> Inr None)
   | _ \<Rightarrow> Inr None)"

text \<open>What an accepted patch of the grid guarantees: the distribution adds up, the step is within the limit.\<close>

lemma accepted_axes:
  "dist_axes M ds cs axes = Inr None \<Longrightarrow> axis \<in> set axes \<Longrightarrow> map_of ds axis = Some (JList chunks) \<Longrightarrow>
   map_of cs axis = Some cnt \<Longrightarrow> is_number cnt \<Longrightarrow> grid_dist_chunks M chunks = Inr (Some xs) \<Longrightarrow>
   int_value_of M cnt = Inr (sum_list xs)"
proof (induction M ds cs axes rule: dist_axes.induct)
  case (2 M ds cs a axes)
  show ?case
  proof (cases "axis = a")
    case True
    with 2 show ?thesis by (auto simp: bind_res_Inr_iff split: if_splits)
  next
    case False
    with 2 show ?thesis by (auto simp: bind_res_Inr_iff split: option.splits json.splits if_splits)
  qed
qed simp

lemma accepted_distribution:
  assumes "grid_dist_message M grid = Inr None" "map_of grid ''grid_dist'' = Some (JObj ds)"
    "map_of grid ''cell_cnt'' = Some (JObj cs)" "axis \<in> set (grid_axes grid)"
    "map_of ds axis = Some (JList chunks)" "map_of cs axis = Some cnt" "is_number cnt"
    "grid_dist_chunks M chunks = Inr (Some xs)"
  shows "int_value_of M cnt = Inr (sum_list xs)"
  using assms by (auto simp: grid_dist_message_def intro: accepted_axes)

lemma accepted_step:
  assumes "cfl_message M sim grid = Inr None" "map_of sim ''delta_t_si'' = Some v" "float_value M v = Inr dt"
    "is_number v" "\<not> fle dt (Fin 0)" "spatial_cell_sizes M grid = Inr (Some xs)"
    "cfl_max_cell_step M (get_or sim ''solver'' JNull) xs = Inr (Some m)"
  shows "within_limit (fmul speed_of_light dt) m"
  using assms by (auto simp: cfl_message_def get_or_def Let_def split: if_splits)

lemma accepted_grid:
  assumes "check_spec_consistency M sp path = Inr None" "touches_grid path"
    "map_of sp ''sim'' = Some (JObj sim)" "map_of sim ''grid'' = Some (JObj grid)"
  shows "cell_depth_message M grid = Inr None \<and> grid_dist_message M grid = Inr None \<and> cfl_message M sim grid = Inr None"
  using assms by (auto simp: check_spec_consistency_def bind_res_Inr_iff split: option.splits)

text \<open>
  A field below the solver, or the whole simulation, can cross the limit as well, but the check does not look at
  such a patch.
\<close>

lemma unchecked_path:
  assumes "\<not> touches_grid path" "path \<noteq> ''sim.grid.cell_size''" "path \<noteq> ''sim.grid.cell_depth''"
    "path \<noteq> ''sim.grid.cell_cnt''" "path \<noteq> ''sim.grid.grid_dist''" "path \<noteq> ''sim.delta_t_si''" "path \<noteq> ''sim.solver''"
  shows "check_spec_consistency M sp path = Inr None"
  using assms by (simp add: check_spec_consistency_def split: option.split json.split)

lemma solver_field_unchecked: "check_spec_consistency M sp ''sim.solver.neighbors'' = Inr None"
  by (rule unchecked_path) (simp_all add: touches_grid_def)

lemma whole_simulation_unchecked: "check_spec_consistency M sp ''sim'' = Inr None"
  by (rule unchecked_path) (simp_all add: touches_grid_def)

section \<open>The round trip through the pinned schema\<close>

text \<open>
  What the pinned schema answers to the reduced dump: not installed, the issues of a \<open>ValidationError\<close>, another
  exception, or the simulation it serialises again. An issue has its location, whether its type is \<open>missing\<close>, its
  message, and the type name and \<open>repr\<close> of its input.
\<close>

record pin_issue =
  is_loc :: "string list"
  is_missing :: bool
  is_msg :: string
  is_input :: "(string \<times> string) option"

datatype pin_answer = NotInstalled | Rejected "pin_issue list" | PinRaised string | Reproduced json

fun leaf_paths :: "json \<Rightarrow> string \<Rightarrow> string list"
  and dict_paths :: "(string \<times> json) list \<Rightarrow> string \<Rightarrow> string list"
  and list_paths :: "json list \<Rightarrow> nat \<Rightarrow> string \<Rightarrow> string list" where
  "leaf_paths (JObj d) prefix = dict_paths d prefix"
| "leaf_paths (JList xs) prefix = list_paths xs 0 prefix"
| "leaf_paths v prefix = [prefix]"
| "dict_paths [] prefix = []"
| "dict_paths ((k, v) # d) prefix = leaf_paths v (if prefix \<noteq> [] then prefix @ ''.'' @ k else k) @ dict_paths d prefix"
| "list_paths [] n prefix = []"
| "list_paths (v # vs) n prefix = leaf_paths v (prefix @ ''['' @ show_nat n @ '']'') @ list_paths vs (Suc n) prefix"

definition parent_of :: "string \<Rightarrow> string" where
  "parent_of path = join_str ''.'' (butlast (split_on CHR ''.'' path))"

definition known_computed_fields :: "(string \<times> string) list" where
  "known_computed_fields = [(''num_tmp_field_slots'', ''collisional_physics'')]"

fun misplaced_among :: "string list \<Rightarrow> string option" where
  "misplaced_among [] = None"
| "misplaced_among (path # paths) = (case map_of known_computed_fields (parameter_for path) of
     None \<Rightarrow> misplaced_among paths
   | Some parent \<Rightarrow> if parent_of path = parent then misplaced_among paths
       else Some (path @ '' is not part of the pinned pypicongpu schema at this path; move the computed field ''
         @ repr_str (parameter_for path) @ '' to '' @ parent @ ''.'' @ parameter_for path @ '' and resubmit''))"

definition detect_misplaced_computed_field :: "(string \<times> json) list \<Rightarrow> string option" where
  "detect_misplaced_computed_field sim = misplaced_among (leaf_paths (JObj sim) '''')"

definition round_trip_diff_message :: "json \<Rightarrow> json \<Rightarrow> string" where
  "round_trip_diff_message before after =
     (let to_paths = leaf_paths after '''' in
      case filter (\<lambda>p. p \<notin> set to_paths) (leaf_paths before '''') of
        [] \<Rightarrow> ''spec does not reproduce itself under the pinned pypicongpu schema''
      | path # _ \<Rightarrow> (case find (\<lambda>q. parameter_for q = parameter_for path) to_paths of
          Some q \<Rightarrow> path @ '' is not part of the pinned pypicongpu schema at this path; move it to '' @ q @ '' and resubmit''
        | None \<Rightarrow> path @ '' is not part of the pinned pypicongpu schema and would be silently dropped''))"

fun contains_text :: "string \<Rightarrow> string \<Rightarrow> bool" where
  "contains_text w [] = (w = [])"
| "contains_text w (c # s) = (starts_with w (c # s) \<or> contains_text w s)"

definition max_value_chars :: nat where
  "max_value_chars = 40"

definition max_validation_errors :: nat where
  "max_validation_errors = 5"

definition max_exception_chars :: nat where
  "max_exception_chars = 500"

definition describe_value :: "string \<times> string \<Rightarrow> string" where
  "describe_value v = fst v @ '' '' @
     (if length (snd v) > max_value_chars then take max_value_chars (snd v) @ ''...'' else snd v)"

definition validation_error_location :: "string list \<Rightarrow> string" where
  "validation_error_location loc = join_str ''.'' (filter (\<lambda>p. \<not> contains_text ''function-'' p) loc)"

definition validation_error_clause :: "pin_issue \<Rightarrow> string" where
  "validation_error_clause e =
     (let clause = (if starts_with ''Value error, '' (is_msg e) then drop 13 (is_msg e) else is_msg e) in
      case is_input e of
        None \<Rightarrow> clause
      | Some v \<Rightarrow> if is_missing e then clause else clause @ '' (got '' @ describe_value v @ '')'')"

text \<open>One line per location, the informative ones and the missing ones apart.\<close>

fun issue_lines :: "string list \<Rightarrow> pin_issue list \<Rightarrow> string list \<times> string list" where
  "issue_lines seen_locs [] = ([], [])"
| "issue_lines seen_locs (e # es) =
     (let loc = validation_error_location (is_loc e) in
      if loc = [] \<or> loc \<in> set seen_locs then issue_lines seen_locs es
      else (let (specific, missing) = issue_lines (loc # seen_locs) es; line = loc @ '' '' @ validation_error_clause e
        in if is_missing e then (specific, line # missing) else (line # specific, missing)))"

definition schema_prefix :: string where
  "schema_prefix = ''spec does not validate against the pinned pypicongpu schema''"

definition validation_error_message :: "pin_issue list \<Rightarrow> string" where
  "validation_error_message es =
     (let (specific, missing) = issue_lines [] es; ls = specific @ missing in
      if ls = [] then schema_prefix
      else schema_prefix @ '': '' @ join_str ''; ''
        (if length ls > max_validation_errors
         then take max_validation_errors ls @ [''... and '' @ show_nat (length ls - max_validation_errors) @ '' more error(s)'']
         else ls))"

definition check_spec_round_trip :: "((string \<times> json) list \<Rightarrow> pin_answer) \<Rightarrow> spec \<Rightarrow> string option" where
  "check_spec_round_trip pin sp = (case map_of sp ''sim'' of
     Some (JObj sim) \<Rightarrow> (case pin sim of
        NotInstalled \<Rightarrow> detect_misplaced_computed_field sim
      | Rejected es \<Rightarrow> Some (validation_error_message es)
      | PinRaised t \<Rightarrow> Some (schema_prefix @ '': '' @ take max_exception_chars t)
      | Reproduced d \<Rightarrow> if py_equal d (JObj sim) then None else Some (round_trip_diff_message (JObj sim) d))
   | _ \<Rightarrow> None)"

text \<open>The number of lines of a rejection is bounded, however many issues there are.\<close>

lemma issue_lines_distinct:
  "issue_lines seen_locs es = (sp, ms) \<Longrightarrow> length sp + length ms \<le> length es"
  by (induction seen_locs es arbitrary: sp ms rule: issue_lines.induct)
     (force simp: Let_def split: if_splits prod.splits)+

end
