(* ===== verification/AgendaDesk.thy ===== *)
theory AgendaDesk
  imports SpecCheck SimAsk AgendaReport AgendaGrow
begin

text \<open>
  \<open>server/agenda.py\<close>: the service that owns the campaign file and the reuse registry beside it. Every operation
  holds one lock from its load to its save, so each is one step on the files; the tick is the engine's, wired to the
  simulations the server knows of.
\<close>

section \<open>Files and surroundings\<close>

text \<open>A file that cannot be read raises: a \<open>ValueError\<close> when its content is malformed, otherwise an \<open>OSError\<close>.\<close>

datatype 'a stored = Absent | Unreadable py_raise | Readable 'a

text \<open>
  The service's state: the two files, and the run ids of direct submissions that still await their results
  (\<open>_pending_direct_run_ids\<close>, a set).
\<close>

record desk =
  dk_campaign :: "campaign stored"
  dk_reuse :: "registry stored"
  dk_pending :: "string list"

text \<open>
  What surrounds it: the libraries, the provenance of this install and the configured revision, the policy, the
  redaction, the pinned schema, the two paths, what a failing save or removal raises at the moment, and the texts of
  the model's and the engine's errors.
\<close>

record office =
  of_lib :: library
  of_sim_lib :: sim_lib
  of_local :: provenance
  of_revision :: string
  of_policy :: engine_policy
  of_redact :: "string \<Rightarrow> string"
  of_pin :: "(string \<times> json) list \<Rightarrow> pin_answer"
  of_maths :: maths
  of_paths :: "string \<times> string"
  of_save_error :: "string option"
  of_unlink_errors :: "string option \<times> string option"
  of_model_text :: "model_error \<Rightarrow> string"
  of_tick_text :: "tick_error \<Rightarrow> string"

type_synonym reply = "(string \<times> json) list"

fun raise_text :: "py_raise \<Rightarrow> string" where
  "raise_text (ModelError t) = t"
| "raise_text (OtherError t) = t"

definition soft_error :: "office \<Rightarrow> string \<Rightarrow> reply" where
  "soft_error F t = [(''ok'', JBool False), (''error'', JStr (of_redact F t))]"

definition no_campaign_message :: string where
  "no_campaign_message = ''no campaign is persisted; create a campaign first, e.g. with create_campaign, then retry.''"

definition no_campaign_error :: reply where
  "no_campaign_error = [(''ok'', JBool False), (''error'', JStr ''no_campaign''), (''message'', JStr no_campaign_message)]"

definition save_campaign :: "office \<Rightarrow> campaign \<Rightarrow> desk \<Rightarrow> py_raise + desk" where
  "save_campaign F c d = (case of_save_error F of
     Some t \<Rightarrow> Inl (OtherError t) | None \<Rightarrow> Inr (d\<lparr>dk_campaign := Readable c\<rparr>))"

text \<open>The locked load, change and save that most operations are; a raise becomes a soft error.\<close>

definition mutate_campaign :: "office \<Rightarrow> (campaign \<Rightarrow> py_raise + reply \<times> desk) \<Rightarrow> desk \<Rightarrow> reply \<times> desk" where
  "mutate_campaign F f d = (case dk_campaign d of
     Absent \<Rightarrow> (no_campaign_error, d)
   | Unreadable e \<Rightarrow> (soft_error F (raise_text e), d)
   | Readable c \<Rightarrow> (case f c of Inl e \<Rightarrow> (soft_error F (raise_text e), d) | Inr r \<Rightarrow> r))"

definition saved :: "office \<Rightarrow> campaign \<Rightarrow> reply \<Rightarrow> desk \<Rightarrow> py_raise + reply \<times> desk" where
  "saved F c r d = bind_res (save_campaign F c d) (\<lambda>d'. Inr (r, d'))"

section \<open>Small changes of the campaign\<close>

definition no_such_leaf :: "string \<Rightarrow> reply" where
  "no_such_leaf path = [(''ok'', JBool False), (''error'', JStr ''no_such_leaf''), (''path'', JStr path)]"

definition approve :: "office \<Rightarrow> string \<Rightarrow> desk \<Rightarrow> reply \<times> desk" where
  "approve F path d = mutate_campaign F (\<lambda>c. case leaf_at (cp_agenda c) path of
       None \<Rightarrow> Inr (no_such_leaf path, d)
     | Some leaf \<Rightarrow> saved F (c\<lparr>cp_agenda := update_leaf (cp_agenda c) path (\<lambda>s. s\<lparr>sim_approved := True\<rparr>)\<rparr>)
         [(''ok'', JBool True), (''path'', JStr path), (''approved'', JBool True)] d) d"

definition record_analysis :: "office \<Rightarrow> string \<Rightarrow> (string \<times> json) list \<Rightarrow> desk \<Rightarrow> reply \<times> desk" where
  "record_analysis F path analysis d = mutate_campaign F (\<lambda>c. case leaf_at (cp_agenda c) path of
       None \<Rightarrow> Inr (no_such_leaf path, d)
     | Some leaf \<Rightarrow> saved F (c\<lparr>cp_analyses := AList.update path (JObj analysis) (cp_analyses c)\<rparr>)
         [(''ok'', JBool True), (''path'', JStr path)] d) d"

definition record_conclusion :: "office \<Rightarrow> string \<Rightarrow> desk \<Rightarrow> reply \<times> desk" where
  "record_conclusion F conclusion d = mutate_campaign F (\<lambda>c.
     if py_strip conclusion = [] then Inr ([(''ok'', JBool False), (''error'', JStr ''empty_conclusion'')], d)
     else saved F (c\<lparr>cp_conclusion := Some conclusion\<rparr>) [(''ok'', JBool True), (''conclusion'', JStr conclusion)] d) d"

fun state_name :: "campaign_state \<Rightarrow> string" where
  "state_name CRunning = ''running''"
| "state_name CPaused = ''paused''"
| "state_name CStopped = ''stopped''"

definition set_campaign_state :: "office \<Rightarrow> campaign_state \<Rightarrow> desk \<Rightarrow> reply \<times> desk" where
  "set_campaign_state F st d = mutate_campaign F (\<lambda>c. saved F (c\<lparr>cp_state := st\<rparr>)
     [(''ok'', JBool True), (''state'', JStr (state_name st))] d) d"

definition opt_json :: "string option \<Rightarrow> json" where
  "opt_json t = (case t of None \<Rightarrow> JNull | Some s \<Rightarrow> JStr s)"

definition callback_json :: "callback \<Rightarrow> json" where
  "callback_json cb = JObj [(''path'', JStr (cb_path cb)), (''kind'', JStr (if cb_kind cb = KDone then ''done'' else ''failed'')),
     (''sim_id'', opt_json (cb_sim_id cb)), (''ts'', opt_json (cb_ts cb)), (''error'', opt_json (cb_error cb)),
     (''error_code'', opt_json (cb_error_code cb)), (''stage'', opt_json (cb_stage cb)), (''suspect'', opt_json (cb_suspect cb))]"

definition take_callbacks :: "office \<Rightarrow> desk \<Rightarrow> reply \<times> desk" where
  "take_callbacks F d = mutate_campaign F (\<lambda>c.
     (let r = [(''ok'', JBool True), (''callbacks'', JList (map callback_json (cp_callbacks c)))] in
      if cp_callbacks c = [] then Inr (r, d) else saved F (c\<lparr>cp_callbacks := []\<rparr>) r d)) d"

section \<open>The kill switch\<close>

definition in_flight_statuses :: "status set" where
  "in_flight_statuses = {Planned, Submitted, Running}"

definition in_flight_leaves :: "campaign \<Rightarrow> (string \<times> agenda_sim) list" where
  "in_flight_leaves c = filter (\<lambda>(p, s). sim_status s \<in> in_flight_statuses \<and> truthy (sim_id s)) (simulations (cp_agenda c))"

text \<open>The answer to one cancellation: the request raised, or an ack (or soft error) came back.\<close>

datatype control_answer = ControlRaised string | ControlAck "(string \<times> json) list"

record stop_tally =
  sp_cancelled :: "string list"
  sp_cleared :: "string list"
  sp_errors :: "reply list"

definition str_of :: "office \<Rightarrow> json \<Rightarrow> string" where
  "str_of F v = (case v of JStr s \<Rightarrow> s | _ \<Rightarrow> lb_str (of_lib F) v)"

definition settle :: "office \<Rightarrow> string \<Rightarrow> control_answer \<Rightarrow> stop_tally \<Rightarrow> stop_tally" where
  "settle F sid a t = (case a of
     ControlRaised e \<Rightarrow> t\<lparr>sp_errors := sp_errors t @ [[(''sim_id'', JStr sid), (''error'', JStr ''cancellation request failed''),
       (''detail'', JStr (of_redact F e))]]\<rparr>
   | ControlAck ack \<Rightarrow>
      (let err = get_or ack ''error'' JNull; code = get_or ack ''error_code'' JNull in
       if json_truthy (get_or ack ''ok'' JNull) \<and> \<not> json_truthy err then t\<lparr>sp_cancelled := sp_cancelled t @ [sid]\<rparr>
       else if code = JStr (error_value ENotSignalable) \<or> code = JStr (error_value ENotTerminal)
       then t\<lparr>sp_cleared := sp_cleared t @ [sid]\<rparr>
       else t\<lparr>sp_errors := sp_errors t @ [[(''sim_id'', JStr sid), (''error'', JStr ''cancellation rejected''),
         (''detail'', JStr (of_redact F (if json_truthy err then str_of F err else ''the simclient reported no reason''))),
         (''error_code'', JStr (if json_truthy code then of_redact F (str_of F code) else ''''))]]\<rparr>))"

text \<open>The requests go out one after the other; \<open>cancel n sid\<close> is what the \<open>n\<close>-th one is answered.\<close>

fun settle_all :: "office \<Rightarrow> (nat \<Rightarrow> string \<Rightarrow> control_answer) \<Rightarrow> nat \<Rightarrow> string list \<Rightarrow> stop_tally \<Rightarrow> stop_tally" where
  "settle_all F cancel n [] t = t"
| "settle_all F cancel n (sid # sids) t = settle_all F cancel (Suc n) sids (settle F sid (cancel n sid) t)"

definition stop_reply :: "stop_tally \<Rightarrow> reply" where
  "stop_reply t = [(''ok'', JBool True), (''state'', JStr ''stopped''), (''cancelled'', JList (map JStr (sp_cancelled t))),
     (''cleared'', JList (map JStr (sp_cleared t))), (''errors'', JList (map JObj (sp_errors t)))]"

definition stop_tally_of :: "office \<Rightarrow> (nat \<Rightarrow> string \<Rightarrow> control_answer) \<Rightarrow> campaign \<Rightarrow> stop_tally" where
  "stop_tally_of F cancel c = settle_all F cancel 0 (map (\<lambda>(p, s). the (sim_id s)) (in_flight_leaves c))
     \<lparr>sp_cancelled = [], sp_cleared = [], sp_errors = []\<rparr>"

definition stop :: "office \<Rightarrow> (nat \<Rightarrow> string \<Rightarrow> control_answer) \<Rightarrow> desk \<Rightarrow> reply \<times> desk" where
  "stop F cancel d = mutate_campaign F (\<lambda>c. saved F (c\<lparr>cp_state := CStopped\<rparr>) (stop_reply (stop_tally_of F cancel c)) d) d"

section \<open>Deleting\<close>

definition in_flight_message :: string where
  "in_flight_message = ''campaign has leaves still submitted/running (or a non-terminal leaf with a ''
     @ ''sim_id, e.g. a lost-ack submission); stop or cancel them first, or pass ''
     @ ''force=true to delete the campaign anyway.''"

definition remove_campaign_files :: "office \<Rightarrow> desk \<Rightarrow> reply \<times> desk" where
  "remove_campaign_files F d =
     (case (if dk_campaign d = Absent then None else fst (of_unlink_errors F)) of
        Some t \<Rightarrow> (soft_error F t, d)
      | None \<Rightarrow>
         (let d1 = d\<lparr>dk_campaign := Absent\<rparr>; first = (if dk_campaign d = Absent then [] else [fst (of_paths F)]) in
          if dk_reuse d = Absent then ([(''ok'', JBool True), (''deleted'', JList (map JStr first))], d1)
          else case snd (of_unlink_errors F) of
            Some t \<Rightarrow> (soft_error F t, d1)
          | None \<Rightarrow> ([(''ok'', JBool True), (''deleted'', JList (map JStr (first @ [snd (of_paths F)])))], d1\<lparr>dk_reuse := Absent\<rparr>)))"

definition delete_campaign :: "office \<Rightarrow> bool \<Rightarrow> desk \<Rightarrow> reply \<times> desk" where
  "delete_campaign F force d = (case dk_campaign d of
     Absent \<Rightarrow> (no_campaign_error, d)
   | Unreadable e \<Rightarrow> remove_campaign_files F d
   | Readable c \<Rightarrow>
      (let live = map fst (in_flight_leaves c) in
       if live \<noteq> [] \<and> \<not> force
       then ([(''ok'', JBool False), (''error'', JStr ''campaign_in_flight''), (''message'', JStr in_flight_message),
              (''in_flight'', JList (map JStr live))], d)
       else remove_campaign_files F d))"

section \<open>Adding a leaf\<close>

definition error_reply :: "office \<Rightarrow> string \<Rightarrow> string \<Rightarrow> reply" where
  "error_reply F code detail = [(''ok'', JBool False), (''error'', JStr code), (''detail'', JStr (of_redact F detail))]"

text \<open>\<open>_validate_leaf_spec\<close>: \<open>None\<close> is a valid leaf.\<close>

definition validate_leaf_spec :: "office \<Rightarrow> spec \<Rightarrow> string \<Rightarrow> py_raise + reply option" where
  "validate_leaf_spec F sp path = (case prepare_spec (of_sim_lib F) (of_local F) (of_revision F) sp of
     Inl e \<Rightarrow> Inr (Some (error_reply F ''invalid_campaign_spec'' e))
   | Inr p \<Rightarrow> (case check_spec_round_trip (of_pin F) sp of
       Some t \<Rightarrow> Inr (Some (error_reply F ''invalid_campaign_spec'' t))
     | None \<Rightarrow> bind_res (check_spec_consistency (of_maths F) sp path) (\<lambda>m. Inr (case m of
         Some t \<Rightarrow> Some (error_reply F ''invalid_campaign_spec'' t)
       | None \<Rightarrow> (let n = payload_wire_size (of_sim_lib F) p in
           if n > max_inline_payload_bytes
           then Some [(''ok'', JBool False), (''error'', JStr ''spec_exceeds_inline_limit''), (''wire_bytes'', JInt (int n)),
             (''inline_limit_bytes'', JInt (int max_inline_payload_bytes))]
           else None)))))"

text \<open>\<open>AgendaSim(...)\<close> followed by \<open>agenda.add(name=leaf)\<close>; both raise a \<open>ValueError\<close>.\<close>

definition insert_leaf :: "office \<Rightarrow> agenda_sim \<Rightarrow> agenda_group \<Rightarrow> py_raise + agenda_group" where
  "insert_leaf F s g = (case check_sim s of
     Some e \<Rightarrow> Inl (ModelError (of_model_text F e))
   | None \<Rightarrow> (case group_add (\<lambda>_ _. None) g [(sim_name s, AEntry (ESim s))] of
       Inl e \<Rightarrow> Inl (ModelError (of_model_text F e)) | Inr g' \<Rightarrow> Inr g'))"

definition add_leaf_to :: "office \<Rightarrow> string \<Rightarrow> spec \<Rightarrow> point option \<Rightarrow> string list \<Rightarrow> string option \<Rightarrow> campaign \<Rightarrow> desk \<Rightarrow>
    py_raise + reply \<times> desk" where
  "add_leaf_to F name sp pt deps param c d =
     (if has_key name (grp_entries (cp_agenda c))
      then Inr ([(''ok'', JBool False), (''error'', JStr ''duplicate_leaf''), (''path'', JStr name)], d)
      else bind_res (validate_leaf_spec F sp '''') (\<lambda>invalid. case invalid of
        Some r \<Rightarrow> Inr (r, d)
      | None \<Rightarrow> bind_res (insert_leaf F ((new_sim name sp pt param)\<lparr>sim_depends_on := deps\<rparr>) (cp_agenda c)) (\<lambda>g.
          saved F (c\<lparr>cp_agenda := g\<rparr>) [(''ok'', JBool True), (''path'', JStr name)] d)))"

text \<open>\<open>_add_leaf_error_code\<close>: a name that exists, or an illegal leaf.\<close>

definition add_leaf_error_code :: "string \<Rightarrow> desk \<Rightarrow> string" where
  "add_leaf_error_code name d = (case dk_campaign d of
     Readable c \<Rightarrow> if has_key name (grp_entries (cp_agenda c)) then ''duplicate_leaf'' else ''invalid_leaf''
   | _ \<Rightarrow> ''invalid_leaf'')"

definition add_leaf :: "office \<Rightarrow> string \<Rightarrow> spec \<Rightarrow> point option \<Rightarrow> string list \<Rightarrow> string option \<Rightarrow> desk \<Rightarrow> reply \<times> desk" where
  "add_leaf F name sp pt deps parameter d =
     (let param = (if truthy parameter \<and> pt \<noteq> None \<and> pt \<noteq> Some [] then readable_label (the parameter) else None) in
      case (case dk_campaign d of Absent \<Rightarrow> Inr (no_campaign_error, d) | Unreadable e \<Rightarrow> Inl e
            | Readable c \<Rightarrow> add_leaf_to F name sp pt deps param c d) of
        Inr r \<Rightarrow> r
      | Inl (ModelError t) \<Rightarrow> (error_reply F (add_leaf_error_code name d) t @ [(''path'', JStr name)], d)
      | Inl (OtherError t) \<Rightarrow> (soft_error F t, d))"

end
