(* ===== verification/AgendaService.thy ===== *)
theory AgendaService
  imports AgendaDesk
begin

text \<open>
  \<open>server/agenda.py\<close>, continued: creating a campaign from a base specification, the reuse registry and its set of
  awaited runs, and the tick wired to the server's submissions and registry of simulations.
\<close>

section \<open>Creating a campaign\<close>

definition new_campaign :: "string \<Rightarrow> string \<Rightarrow> agenda_group \<Rightarrow> campaign" where
  "new_campaign now name g = with_created_ts now \<lparr>cp_name = name, cp_agenda = g, cp_budget = no_budget, cp_usage = no_usage,
     cp_created_ts = None, cp_callbacks = [], cp_state = CRunning, cp_analyses = [], cp_conclusion = None\<rparr>"

definition invalid_reply :: "string \<Rightarrow> reply" where
  "invalid_reply detail = [(''ok'', JBool False), (''error'', JStr ''invalid_campaign''), (''detail'', JStr detail)]"

definition create_empty_campaign :: "office \<Rightarrow> string \<Rightarrow> string \<Rightarrow> json list \<Rightarrow> desk \<Rightarrow> py_raise + reply \<times> desk" where
  "create_empty_campaign F now name vals d =
     (if vals \<noteq> [] then Inr (invalid_reply (''patch_path is required when values are given; omit both patch_path and ''
        @ ''values to create an empty campaign and add whole-spec leaves afterwards''), d)
      else saved F (new_campaign now name (AgendaGroup ''campaign'' [] None []))
        [(''ok'', JBool True), (''name'', JStr name), (''leaves'', JList []), (''empty'', JBool True)] d)"

text \<open>The first leaf that is invalid decides.\<close>

fun first_invalid :: "office \<Rightarrow> string \<Rightarrow> spec list \<Rightarrow> py_raise + reply option" where
  "first_invalid F path [] = Inr None"
| "first_invalid F path (sp # sps) = bind_res (validate_leaf_spec F sp path) (\<lambda>r. case r of
     Some e \<Rightarrow> Inr (Some e) | None \<Rightarrow> first_invalid F path sps)"

fun patch_all :: "spec \<Rightarrow> string \<Rightarrow> json list \<Rightarrow> py_raise + spec list" where
  "patch_all base path [] = Inr []"
| "patch_all base path (v # vs) = (case patch_spec base path v of
     Inl e \<Rightarrow> Inl (ModelError e) | Inr sp \<Rightarrow> bind_res (patch_all base path vs) (\<lambda>sps. Inr (sp # sps)))"

definition seeded_leaf :: "string \<Rightarrow> string option \<Rightarrow> nat \<Rightarrow> spec \<Rightarrow> json \<Rightarrow> agenda_sim" where
  "seeded_leaf key param n sp v = new_sim (leaf_name n) sp (point_for key v) param"

fun seed_leaves :: "office \<Rightarrow> string \<Rightarrow> string option \<Rightarrow> nat \<Rightarrow> (spec \<times> json) list \<Rightarrow> agenda_group \<Rightarrow> py_raise + agenda_group" where
  "seed_leaves F key param n [] g = Inr g"
| "seed_leaves F key param n ((sp, v) # xs) g =
     bind_res (insert_leaf F (seeded_leaf key param n sp v) g) (seed_leaves F key param (Suc n) xs)"

definition seed_reply :: "string \<Rightarrow> string \<Rightarrow> nat \<Rightarrow> reply" where
  "seed_reply name path n = [(''ok'', JBool True), (''name'', JStr name), (''leaves'', JList (map (\<lambda>i. JStr (leaf_name i)) [0..<n]))]
     @ (case box_size_sweep_warning path of None \<Rightarrow> [] | Some w \<Rightarrow> [(''warnings'', JList [JStr w])])"

definition point_key_for :: "string option \<Rightarrow> string \<Rightarrow> string" where
  "point_key_for key path = (case (if truthy key then readable_label (the key) else None) of
     Some k \<Rightarrow> k | None \<Rightarrow> parameter_for path)"

definition seed_campaign :: "office \<Rightarrow> string \<Rightarrow> string \<Rightarrow> spec \<Rightarrow> string \<Rightarrow> json list \<Rightarrow> string option \<Rightarrow> string option \<Rightarrow> desk
    \<Rightarrow> py_raise + reply \<times> desk" where
  "seed_campaign F now name base path vals parameter key d =
     (let pk = point_key_for key path;
          param = readable_label (if truthy parameter then the parameter else sweep_parameter_for path base) in
      if \<not> leaf_target_exists base path
      then Inr (invalid_reply (''patch path '' @ repr_str path @ '' does not address an existing field; ''
        @ ''refusing to create it (check the Runner-spec field name)''), d)
      else bind_res (patch_all base path vals) (\<lambda>sps.
        bind_res (first_invalid F path sps) (\<lambda>invalid. case invalid of
          Some r \<Rightarrow> Inr (r, d)
        | None \<Rightarrow> (case duplicate_leaf_error (lb_frepr (of_lib F)) sps of
            Some r \<Rightarrow> Inr (r, d)
          | None \<Rightarrow> bind_res (seed_leaves F pk param 0 (zip sps vals) (AgendaGroup ''campaign'' [] None [])) (\<lambda>g.
              saved F (new_campaign now name g) (seed_reply name path (length sps)) d)))))"

definition create_campaign :: "office \<Rightarrow> string \<Rightarrow> string \<Rightarrow> spec option \<Rightarrow> string option \<Rightarrow> json list \<Rightarrow> string option \<Rightarrow> string option
    \<Rightarrow> desk \<Rightarrow> reply \<times> desk" where
  "create_campaign F now name base path vals parameter key d =
     (case (if dk_campaign d \<noteq> Absent then Inr ([(''ok'', JBool False), (''error'', JStr ''campaign_exists'')], d)
            else case path of
              None \<Rightarrow> create_empty_campaign F now name vals d
            | Some p \<Rightarrow> (case base of
                None \<Rightarrow> Inr (invalid_reply ''a base spec is required when patch_path is given'', d)
              | Some b \<Rightarrow> if vals = [] then Inr ([(''ok'', JBool False), (''error'', JStr ''no_values'')], d)
                  else seed_campaign F now name b p vals parameter key d)) of
        Inr r \<Rightarrow> r
      | Inl (ModelError t) \<Rightarrow> (error_reply F ''invalid_campaign'' t, d)
      | Inl (OtherError t) \<Rightarrow> (soft_error F t, d))"

section \<open>The reuse registry\<close>

text \<open>A registry that is absent or cannot be read counts as empty.\<close>

definition load_reuse :: "desk \<Rightarrow> registry" where
  "load_reuse d = (case dk_reuse d of Readable r \<Rightarrow> r | _ \<Rightarrow> [])"

definition awaited_ids :: "reuse_record \<Rightarrow> string list" where
  "awaited_ids r = (if ru_state r \<noteq> pending_state then []
     else (if truthy (ru_run_id r) then [the (ru_run_id r)] else []) @ ru_pending_run_ids r)"

definition hydrate :: "desk \<Rightarrow> desk" where
  "hydrate d = d\<lparr>dk_pending := remdups (concat (map (\<lambda>(h, r). awaited_ids r) (load_reuse d)))\<rparr>"

definition provenance_json :: "provenance \<Rightarrow> json" where
  "provenance_json pv = JObj [(''picongpu_version'', JStr (pv_picongpu_version pv)),
     (''picongpu_revision'', JStr (pv_picongpu_revision pv)), (''schema_hash'', JStr (pv_schema_hash pv))]"

definition reuse_key_of :: "office \<Rightarrow> spec \<Rightarrow> point option \<Rightarrow> string" where
  "reuse_key_of F sp pt = lb_sha (of_lib F) (json_dumps (lb_frepr (of_lib F)) (JObj
     [(''sim'', get_or sp ''sim'' JNull),
      (''provenance'', provenance_json (spec_provenance (of_sim_lib F) (of_local F) (of_revision F) sp)),
      (''point'', case pt of None \<Rightarrow> JNull | Some p \<Rightarrow> json_point p)]))"

definition direct_reuse_record :: "office \<Rightarrow> (string \<times> sim_record) list \<Rightarrow> registry \<Rightarrow> spec \<Rightarrow> string \<Rightarrow> string \<Rightarrow> reuse_record" where
  "direct_reuse_record F sims reg sp sid rid =
     (let key = reuse_key_of F sp None;
          known = (case map_of reg key of Some ex \<Rightarrow> if ru_state ex \<noteq> pending_state then ru_state ex else pending_state
                   | None \<Rightarrow> pending_state);
          st = (case map_of sims sid of
                  Some run \<Rightarrow> if known = pending_state \<and> sr_cmd_id run = rid \<and> sr_state run = ''results.ready'' then ''done'' else known
                | None \<Rightarrow> known)
      in \<lparr>ru_wire_hash = key, ru_sim_id = sid, ru_state = st, ru_run_dir = None, ru_ts = None, ru_run_id = Some rid,
          ru_pending_run_ids = []\<rparr>)"

text \<open>Nothing is changed when the save raises; the hook only logs it.\<close>

definition remember_direct_spec :: "office \<Rightarrow> (string \<times> sim_record) list \<Rightarrow> spec \<Rightarrow> string \<Rightarrow> string \<Rightarrow> desk \<Rightarrow> desk" where
  "remember_direct_spec F sims sp sid rid d =
     (let reg = load_reuse d; r = direct_reuse_record F sims reg sp sid rid; updated = record_direct reg r;
          merged = (case map_of updated (ru_wire_hash r) of Some m \<Rightarrow> m | None \<Rightarrow> r) in
      if updated \<noteq> reg \<and> of_save_error F \<noteq> None then d
      else d\<lparr>dk_reuse := if updated \<noteq> reg then Readable updated else dk_reuse d,
             dk_pending := if ru_state merged = pending_state then List.insert rid (dk_pending d)
               else removeAll rid (dk_pending d)\<rparr>)"

definition promote_reuse :: "office \<Rightarrow> string \<Rightarrow> desk \<Rightarrow> desk" where
  "promote_reuse F rid d =
     (if rid \<notin> set (dk_pending d) then d
      else let promoted = promote (load_reuse d) rid ''done'' in
        if promoted = load_reuse d \<or> of_save_error F \<noteq> None then d
        else d\<lparr>dk_reuse := Readable promoted, dk_pending := removeAll rid (dk_pending d)\<rparr>)"

section \<open>The tick\<close>

text \<open>What a leaf's submission ends with: no ack in time, another exception, or an outcome.\<close>

datatype submit_answer = AckTimeout string | SubmitRaised string | Answered submission

definition or_text :: "string option \<Rightarrow> string \<Rightarrow> string" where
  "or_text t dflt = (if truthy t then the t else dflt)"

definition classify_submit :: "submit_answer \<Rightarrow> submit_result" where
  "classify_submit a = (case a of
     AckTimeout t \<Rightarrow> SubmitTransient (''lost ack: '' @ t) (Some outcome_unknown_error_code) None
   | SubmitRaised t \<Rightarrow> SubmitError t None None
   | Answered r \<Rightarrow>
       if result_unknown r then SubmitTransient (or_text (sx_error r) ''submission outcome unknown'') (Some outcome_unknown_error_code)
         (if sx_sim_id r = '''' then None else Some (sx_sim_id r))
       else if \<not> result_ok r \<or> sx_sim_id r = '''' then SubmitError (or_text (sx_error r) ''submit failed'') (sx_error_code r) (sx_stage r)
       else SubmitOk (sx_sim_id r))"

text \<open>The projections of the server's records; a value that does not validate makes the callable raise.\<close>

definition observed_states :: "(string \<times> sim_record) list \<Rightarrow> (string \<times> string) list" where
  "observed_states sims = map (\<lambda>(sid, r). (sid, sr_state r)) sims"

definition value_or_null :: "json option \<Rightarrow> json" where
  "value_or_null v = (case v of Some j \<Rightarrow> j | None \<Rightarrow> JNull)"

definition usage_of :: "pydantic \<Rightarrow> string \<times> sim_record \<Rightarrow> (string \<times> actual_usage) option" where
  "usage_of pyd x = (case x of (sid, r) \<Rightarrow>
     (let gpu = value_or_null (value_of r ''gpu_hours'') in
      case (pd_float pyd (value_or_null (value_of r ''core_hours'')), pd_float pyd (if json_truthy gpu then gpu else JFloat (Fin 0))) of
        (Some c, Some g) \<Rightarrow> Some (sid, \<lparr>au_core_hours = c, au_gpu_hours = g, au_is_gpu = False\<rparr>) | _ \<Rightarrow> None))"

definition registry_actuals :: "pydantic \<Rightarrow> (string \<times> sim_record) list \<Rightarrow> actual_usage lookup_call" where
  "registry_actuals pyd sims =
     (case all_some (map (usage_of pyd) (filter (\<lambda>(sid, r). value_of r ''core_hours'' \<noteq> None) sims)) of
        None \<Rightarrow> Raising | Some us \<Rightarrow> Returning us)"

definition failure_of :: "pydantic \<Rightarrow> string \<times> sim_record \<Rightarrow> (string \<times> failure_info) option" where
  "failure_of pyd x = (case x of (sid, r) \<Rightarrow>
     (case (pd_opt_str pyd (value_or_null (value_of r ''error'')), pd_opt_str pyd (value_or_null (value_of r ''error_code'')),
            pd_opt_str pyd (value_or_null (value_of r ''stage''))) of
        (Some e, Some c, Some g) \<Rightarrow> Some (sid, \<lparr>fi_error = e, fi_error_code = c, fi_stage = g\<rparr>) | _ \<Rightarrow> None))"

definition registry_failures :: "pydantic \<Rightarrow> (string \<times> sim_record) list \<Rightarrow> failure_info lookup_call" where
  "registry_failures pyd sims =
     (case all_some (map (failure_of pyd) (filter (\<lambda>(sid, r). json_truthy (value_or_null (value_of r ''error''))
         \<or> json_truthy (value_or_null (value_of r ''error_code''))) sims)) of
        None \<Rightarrow> Raising | Some fs \<Rightarrow> Returning fs)"

definition suspect_of :: "pydantic \<Rightarrow> string \<times> sim_record \<Rightarrow> (string \<times> suspect_info) option" where
  "suspect_of pyd x = (case x of (sid, r) \<Rightarrow> (case pd_opt_str pyd (value_or_null (value_of r ''suspect'')) of
     Some (Some w) \<Rightarrow> Some (sid, \<lparr>su_warning = w\<rparr>) | _ \<Rightarrow> None))"

definition registry_suspects :: "pydantic \<Rightarrow> (string \<times> sim_record) list \<Rightarrow> suspect_info lookup_call" where
  "registry_suspects pyd sims =
     (case all_some (map (suspect_of pyd) (filter (\<lambda>(sid, r). json_truthy (value_or_null (value_of r ''suspect''))) sims)) of
        None \<Rightarrow> Raising | Some ws \<Rightarrow> Returning ws)"

text \<open>\<open>send w sp key\<close> is what \<open>submit_spec\<close> does under the command id \<open>key\<close>; the clock reads \<open>clock w\<close>.\<close>

definition build_engine :: "office \<Rightarrow> (string \<times> sim_record) list \<Rightarrow> ('w \<Rightarrow> spec \<Rightarrow> string \<Rightarrow> submit_answer \<times> 'w) \<Rightarrow> ('w \<Rightarrow> int) \<Rightarrow>
    desk \<Rightarrow> 'w engine" where
  "build_engine F sims send clock d = (let pyd = lb_pydantic (of_lib F) in
     \<lparr>en_budget = None, en_submit = (\<lambda>w sp key. case send w sp key of (a, w') \<Rightarrow> (classify_submit a, w')),
      en_observe = observed_states sims, en_policy = of_policy F, en_approve = None,
      en_actuals = registry_actuals pyd sims, en_failures = registry_failures pyd sims, en_suspects = registry_suspects pyd sims,
      en_reuse_lookup = Some (lookup (load_reuse d)), en_reuse_record = True, en_reuse_key = Some (reuse_key_of F),
      en_clock = clock, en_now_iso = (\<lambda>w. lb_strftime (of_lib F) (clock w)), en_lib = of_lib F\<rparr>)"

text \<open>The effects of a tick on the two files.\<close>

definition engine_record :: "string \<Rightarrow> string \<Rightarrow> string \<Rightarrow> reuse_record" where
  "engine_record key sid rid = \<lparr>ru_wire_hash = key, ru_sim_id = sid, ru_state = ''done'', ru_run_dir = None, ru_ts = None,
     ru_run_id = Some rid, ru_pending_run_ids = []\<rparr>"

fun apply_effect :: "effect \<Rightarrow> desk \<Rightarrow> desk" where
  "apply_effect (Save c) d = d\<lparr>dk_campaign := Readable c\<rparr>"
| "apply_effect (Submit key sp out) d = d"
| "apply_effect (RecordReuse key sid rid) d = d\<lparr>dk_reuse := Readable (remember (load_reuse d) (engine_record key sid rid))\<rparr>"

definition no_leaves :: "desk \<Rightarrow> bool" where
  "no_leaves d = (case dk_campaign d of Readable c \<Rightarrow> simulations (cp_agenda c) = [] | _ \<Rightarrow> False)"

text \<open>\<open>_flag_empty_campaign\<close>: the flag, and the result it corrects.\<close>

definition flag_empty :: "bool \<Rightarrow> tick_result \<Rightarrow> bool \<times> tick_result" where
  "flag_empty e r = (e, if e then r\<lparr>tr_complete := False, tr_state := Lifecycle (tr_lifecycle r)\<rparr> else r)"

datatype tick_reply = TickSoft reply | Ticked bool tick_result

definition advance :: "office \<Rightarrow> (string \<times> sim_record) list \<Rightarrow> ('w \<Rightarrow> spec \<Rightarrow> string \<Rightarrow> submit_answer \<times> 'w) \<Rightarrow> ('w \<Rightarrow> int) \<Rightarrow>
    'w \<Rightarrow> desk \<Rightarrow> tick_reply \<times> 'w \<times> desk" where
  "advance F sims send clock w d = (case dk_campaign d of
     Absent \<Rightarrow> (TickSoft no_campaign_error, w, d)
   | Unreadable e \<Rightarrow> (TickSoft (soft_error F (raise_text e)), w, d)
   | Readable c \<Rightarrow> (case tick (build_engine F sims send clock d) c w of (res, w', fx) \<Rightarrow>
       (let d' = fold apply_effect fx d in
        (case res of
           Inl e \<Rightarrow> TickSoft (soft_error F (of_tick_text F e))
         | Inr (r, c') \<Rightarrow> (case flag_empty (no_leaves d') r of (e, r') \<Rightarrow> Ticked e r'), w', d'))))"

datatype status_reply = StatusSoft reply | Shown bool campaign_status

definition desk_status :: "office \<Rightarrow> (string \<times> sim_record) list \<Rightarrow> 'w engine \<Rightarrow> desk \<Rightarrow> status_reply" where
  "desk_status F sims en d = (case dk_campaign d of
     Absent \<Rightarrow> StatusSoft no_campaign_error
   | Unreadable e \<Rightarrow> StatusSoft (soft_error F (raise_text e))
   | Readable c \<Rightarrow> (let v = engine_status (en\<lparr>en_suspects := registry_suspects (lb_pydantic (of_lib F)) sims\<rparr>) c; e = no_leaves d in
       Shown e (if e then v\<lparr>cs_complete := False\<rparr> else v)))"

end
