(* ===== verification/AgendaDeskFacts.thy ===== *)
theory AgendaDeskFacts
  imports AgendaService
begin

text \<open>
  What the campaign service guarantees over any sequence of its operations: the campaign on disk stays well formed,
  a stopped campaign submits nothing until it is resumed, a callback is handed out exactly once, the check that
  spares a look at the registry loses no result, and a created campaign is one the engine accepts.
\<close>

section \<open>Operations\<close>

datatype 'w desk_op =
    Advance office "(string \<times> sim_record) list" "'w \<Rightarrow> spec \<Rightarrow> string \<Rightarrow> submit_answer \<times> 'w" "'w \<Rightarrow> int" 'w
  | Approve office string
  | AddLeaf office string spec "point option" "string list" "string option"
  | RecordAnalysis office string "(string \<times> json) list"
  | RecordConclusion office string
  | SetState office campaign_state
  | Stop office "nat \<Rightarrow> string \<Rightarrow> control_answer"
  | TakeCallbacks office
  | Create office string string "spec option" "string option" "json list" "string option" "string option"
  | Delete office bool
  | Direct office "(string \<times> sim_record) list" spec string string
  | RunReady office string
  | Restart

text \<open>The new state, the reply, and the effects of a tick.\<close>

fun desk_step :: "'w desk_op \<Rightarrow> desk \<Rightarrow> desk \<times> reply \<times> effect list" where
  "desk_step (Advance F sims send clock w) d = (case advance F sims send clock w d of (r, w', d') \<Rightarrow> (d', [],
     (case dk_campaign d of Readable c \<Rightarrow> tick_effects (build_engine F sims send clock d) c w | _ \<Rightarrow> [])))"
| "desk_step (Approve F path) d = (case approve F path d of (r, d') \<Rightarrow> (d', r, []))"
| "desk_step (AddLeaf F name sp pt deps param) d = (case add_leaf F name sp pt deps param d of (r, d') \<Rightarrow> (d', r, []))"
| "desk_step (RecordAnalysis F path a) d = (case record_analysis F path a d of (r, d') \<Rightarrow> (d', r, []))"
| "desk_step (RecordConclusion F t) d = (case record_conclusion F t d of (r, d') \<Rightarrow> (d', r, []))"
| "desk_step (SetState F st) d = (case set_campaign_state F st d of (r, d') \<Rightarrow> (d', r, []))"
| "desk_step (Stop F cancel) d = (case stop F cancel d of (r, d') \<Rightarrow> (d', r, []))"
| "desk_step (TakeCallbacks F) d = (case take_callbacks F d of (r, d') \<Rightarrow> (d', r, []))"
| "desk_step (Create F now name base path vals param key) d =
     (case create_campaign F now name base path vals param key d of (r, d') \<Rightarrow> (d', r, []))"
| "desk_step (Delete F force) d = (case delete_campaign F force d of (r, d') \<Rightarrow> (d', r, []))"
| "desk_step (Direct F sims sp sid rid) d = (remember_direct_spec F sims sp sid rid d, [], [])"
| "desk_step (RunReady F rid) d = (promote_reuse F rid d, [], [])"
| "desk_step Restart d = (hydrate d, [], [])"

definition desk_after :: "'w desk_op \<Rightarrow> desk \<Rightarrow> desk" where
  "desk_after x d = fst (desk_step x d)"

definition effects_of :: "'w desk_op \<Rightarrow> desk \<Rightarrow> effect list" where
  "effects_of x d = snd (snd (desk_step x d))"

fun desk_run :: "'w desk_op list \<Rightarrow> desk \<Rightarrow> desk" where
  "desk_run [] d = d"
| "desk_run (x # xs) d = desk_run xs (desk_after x d)"

fun desk_effects :: "'w desk_op list \<Rightarrow> desk \<Rightarrow> effect list" where
  "desk_effects [] d = []"
| "desk_effects (x # xs) d = effects_of x d @ desk_effects xs (desk_after x d)"

section \<open>The campaign on disk\<close>

text \<open>A relation between the campaigns before and after, for operations that keep the file readable.\<close>

definition campaign_ok :: "(campaign \<Rightarrow> bool) \<Rightarrow> desk \<Rightarrow> bool" where
  "campaign_ok P d = (case dk_campaign d of Readable c \<Rightarrow> P c | _ \<Rightarrow> True)"

lemma campaign_ok_save: "save_campaign F c d = Inr d' \<Longrightarrow> d' = d\<lparr>dk_campaign := Readable c\<rparr>"
  by (auto simp: save_campaign_def split: option.splits)

lemma saved_Inr: "saved F c r d = Inr (r', d') \<Longrightarrow> r' = r \<and> d' = d\<lparr>dk_campaign := Readable c\<rparr>"
  by (auto simp: saved_def bind_res_Inr_iff dest: campaign_ok_save)

text \<open>An operation of this shape keeps the state or saves a campaign its function allows.\<close>

lemma mutate_cases:
  assumes "mutate_campaign F f d = (r, d')"
  obtains (same) "d' = d" | (changed) c where "dk_campaign d = Readable c" "f c = Inr (r, d')"
  using assms by (auto simp: mutate_campaign_def split: stored.splits sum.splits)

definition changes_to :: "desk \<Rightarrow> desk \<Rightarrow> (campaign \<Rightarrow> campaign \<Rightarrow> bool) \<Rightarrow> bool" where
  "changes_to d d' Q \<longleftrightarrow> d' = d \<or> (\<exists>c c'. dk_campaign d = Readable c \<and> d' = d\<lparr>dk_campaign := Readable c'\<rparr> \<and> Q c c')"

lemma changes_ok: "changes_to d d' Q \<Longrightarrow> campaign_ok P d \<Longrightarrow> (\<And>c c'. P c \<Longrightarrow> Q c c' \<Longrightarrow> P c') \<Longrightarrow> campaign_ok P d'"
  by (auto simp: changes_to_def campaign_ok_def)

lemma approve_changes: "approve F path d = (r, d') \<Longrightarrow> changes_to d d' (\<lambda>c c'.
    c' = c\<lparr>cp_agenda := update_leaf (cp_agenda c) path (\<lambda>s. s\<lparr>sim_approved := True\<rparr>)\<rparr>)"
  unfolding approve_def by (elim mutate_cases) (auto simp: changes_to_def split: option.splits dest: saved_Inr)

lemma analysis_changes: "record_analysis F path a d = (r, d') \<Longrightarrow> changes_to d d' (\<lambda>c c'.
    c' = c\<lparr>cp_analyses := AList.update path (JObj a) (cp_analyses c)\<rparr>)"
  unfolding record_analysis_def by (elim mutate_cases) (auto simp: changes_to_def split: option.splits dest: saved_Inr)

lemma conclusion_changes: "record_conclusion F t d = (r, d') \<Longrightarrow> changes_to d d' (\<lambda>c c'. c' = c\<lparr>cp_conclusion := Some t\<rparr>)"
  unfolding record_conclusion_def by (elim mutate_cases) (auto simp: changes_to_def split: if_splits dest: saved_Inr)

lemma state_changes: "set_campaign_state F st d = (r, d') \<Longrightarrow> changes_to d d' (\<lambda>c c'. c' = c\<lparr>cp_state := st\<rparr>)"
  unfolding set_campaign_state_def by (elim mutate_cases) (auto simp: changes_to_def dest: saved_Inr)

lemma stop_changes: "stop F cancel d = (r, d') \<Longrightarrow> changes_to d d' (\<lambda>c c'. c' = c\<lparr>cp_state := CStopped\<rparr>)"
  unfolding stop_def by (elim mutate_cases) (auto simp: changes_to_def dest: saved_Inr)

lemma take_changes: "take_callbacks F d = (r, d') \<Longrightarrow> changes_to d d' (\<lambda>c c'. c' = c\<lparr>cp_callbacks := []\<rparr>)"
  unfolding take_callbacks_def by (elim mutate_cases) (auto simp: changes_to_def Let_def split: if_splits dest: saved_Inr)

lemma insert_leaf_Inr:
  assumes "insert_leaf F s g = Inr g'"
  shows "grp_entries g' = grp_entries g @ [(sim_name s, ESim s)]" "wf_agenda g \<Longrightarrow> wf_agenda g'" "grp_name g' = grp_name g"
proof -
  have add: "group_add (\<lambda>_ _. None) g [(sim_name s, AEntry (ESim s))] = Inr g'"
    using assms by (auto simp: insert_leaf_def split: option.splits sum.splits)
  have same: "rename_entry (sim_name s) (ESim s) = ESim s" by simp
  have fresh: "\<not> has_key (sim_name s) (grp_entries g)"
    "g' = with_entries g (AList.update (sim_name s) (ESim s) (grp_entries g))"
    using add by (auto simp: group_add_def coerce_entry_def bind_res_Inr_iff simp del: rename_entry.simps
        simp: same split: option.splits if_splits)
  then show "grp_entries g' = grp_entries g @ [(sim_name s, ESim s)]" "grp_name g' = grp_name g"
    by (simp_all add: update_fresh)
  show "wf_agenda g'" if "wf_agenda g"
    by (rule group_add_wf [OF add that]) (simp add: arg_ok_def coerce_entry_def)
qed

lemma add_leaf_changes: "add_leaf F name sp pt deps param d = (r, d') \<Longrightarrow> changes_to d d' (\<lambda>c c'.
    \<exists>s g. insert_leaf F s (cp_agenda c) = Inr g \<and> c' = c\<lparr>cp_agenda := g\<rparr>)"
  by (fastforce simp: add_leaf_def add_leaf_to_def changes_to_def bind_res_Inr_iff Let_def
      split: stored.splits sum.splits py_raise.splits if_splits option.splits dest: saved_Inr)

lemma fold_effects_campaign:
  "dk_campaign d = Readable c \<Longrightarrow> dk_campaign (fold apply_effect fx d) = Readable (last_saved c fx)"
  by (induction c fx arbitrary: d rule: last_saved.induct) auto

lemma advance_cases:
  assumes "advance F sims send clock w d = (r, w', d')"
  obtains (refused) "d' = d" "\<And>c. dk_campaign d \<noteq> Readable c"
  | (ran) c res io where "dk_campaign d = Readable c" "tick (build_engine F sims send clock d) c w = (res, io)"
    "d' = fold apply_effect (snd io) d" "dk_campaign d' = Readable (last_saved c (snd io))"
proof (cases "dk_campaign d")
  case (Readable c)
  obtain res w1 fx where t: "tick (build_engine F sims send clock d) c w = (res, w1, fx)" by (rule prod_cases3)
  with assms Readable have "d' = fold apply_effect fx d" by (simp add: advance_def Let_def)
  with ran [OF Readable t] fold_effects_campaign [OF Readable] show thesis by simp
qed (use assms refused in \<open>auto simp: advance_def\<close>)

lemma advance_narrows:
  assumes "advance F sims send clock w d = (r, w', d')" "dk_campaign d = Readable c" "wf_agenda (cp_agenda c)"
  shows "\<exists>c'. dk_campaign d' = Readable c' \<and> narrows c c'"
  using assms(1)
proof (cases rule: advance_cases)
  case refused
  with assms(2) show ?thesis by simp
next
  case (ran c1 res io)
  with assms(2) have "c1 = c" by simp
  with ran tick_effects_narrow(2) [OF assms(3) refl, where en = "build_engine F sims send clock d" and k = "length (snd io)" and w = w]
  show ?thesis by (simp add: tick_effects_def)
qed

lemma seed_leaves_entries:
  "seed_leaves F key param n xs g = Inr g' \<Longrightarrow> grp_entries g' = grp_entries g @
     map (\<lambda>(i, sp, v). (leaf_name i, ESim (seeded_leaf key param i sp v))) (enumerate n xs) \<and> (wf_agenda g \<longrightarrow> wf_agenda g')"
proof (induction F key param n xs g arbitrary: g' rule: seed_leaves.induct)
  case (2 F key param n sp v xs g)
  then obtain g1 where g1: "insert_leaf F (seeded_leaf key param n sp v) g = Inr g1"
    "seed_leaves F key param (Suc n) xs g1 = Inr g'" by (auto simp: bind_res_Inr_iff)
  note ins = insert_leaf_Inr [OF g1(1)]
  have "sim_name (seeded_leaf key param n sp v) = leaf_name n" by (simp add: seeded_leaf_def)
  with ins "2.IH" [OF g1(2)] show ?case by simp
qed simp

lemma wf_empty_group: "wf_agenda (AgendaGroup n [] sw ds)"
  by (simp add: wf_agenda_def)

lemma new_campaign_frame [simp]:
  "cp_agenda (new_campaign now name g) = g" "cp_state (new_campaign now name g) = CRunning"
  "cp_callbacks (new_campaign now name g) = []" "cp_name (new_campaign now name g) = name"
  by (simp_all add: new_campaign_def)

lemma error_reply_ok [simp]: "map_of (error_reply F code detail) ''ok'' = Some (JBool False)"
  by (simp add: error_reply_def)

lemma invalid_leaf_refused:
  assumes "validate_leaf_spec F sp path = Inr (Some e)" shows "map_of e ''ok'' = Some (JBool False)"
proof (cases "prepare_spec (of_sim_lib F) (of_local F) (of_revision F) sp")
  case (Inl t)
  with assms show ?thesis by (auto simp: validate_leaf_spec_def)
next
  case (Inr p)
  show ?thesis
  proof (cases "check_spec_round_trip (of_pin F) sp")
    case (Some t)
    with Inr assms show ?thesis by (auto simp: validate_leaf_spec_def)
  next
    case None
    with Inr assms obtain m where "check_spec_consistency (of_maths F) sp path = Inr m"
      by (auto simp: validate_leaf_spec_def bind_res_Inr_iff)
    with Inr None assms show ?thesis
      by (cases m) (auto simp: validate_leaf_spec_def Let_def split: if_splits)
  qed
qed

lemma first_invalid_refused: "first_invalid F path sps = Inr (Some e) \<Longrightarrow> map_of e ''ok'' = Some (JBool False)"
proof (induction F path sps rule: first_invalid.induct)
  case (2 F path sp sps)
  then obtain r where r: "validate_leaf_spec F sp path = Inr r" by (auto simp: bind_res_Inr_iff)
  show ?case
  proof (cases r)
    case None
    with 2 r show ?thesis by simp
  next
    case (Some e')
    with 2 r invalid_leaf_refused show ?thesis by simp
  qed
qed simp

lemma seed_campaign_Inr:
  assumes "seed_campaign F now name base path vals parameter key d = Inr (r, d')"
  obtains (same) "d' = d" "map_of r ''ok'' = Some (JBool False)"
  | (made) sps g pk param where "d' = d\<lparr>dk_campaign := Readable (new_campaign now name g)\<rparr>" "leaf_target_exists base path"
    "patch_all base path vals = Inr sps" "first_invalid F path sps = Inr None"
    "duplicate_leaf_error (lb_frepr (of_lib F)) sps = None"
    "seed_leaves F pk param 0 (zip sps vals) (AgendaGroup ''campaign'' [] None []) = Inr g"
    "r = seed_reply name path (length sps)"
proof -
  let ?param = "readable_label (if truthy parameter then the parameter else sweep_parameter_for path base)"
  show thesis
  proof (cases "leaf_target_exists base path")
    case False
    with assms same show thesis by (auto simp: seed_campaign_def invalid_reply_def)
  next
    case True
    with assms obtain sps where sps: "patch_all base path vals = Inr sps"
      by (auto simp: seed_campaign_def bind_res_Inr_iff Let_def)
    with True assms obtain inv where inv: "first_invalid F path sps = Inr inv"
      by (auto simp: seed_campaign_def bind_res_Inr_iff Let_def)
    show thesis
    proof (cases inv)
      case (Some e)
      with True sps inv assms have "r = e" "d' = d" by (auto simp: seed_campaign_def Let_def)
      with same first_invalid_refused inv Some show thesis by simp
    next
      case None
      note ok = True sps inv [unfolded None]
      show thesis
      proof (cases "duplicate_leaf_error (lb_frepr (of_lib F)) sps")
        case (Some e)
        with ok assms have "r = e" "d' = d" by (auto simp: seed_campaign_def Let_def)
        with same Some show thesis by (auto simp: duplicate_leaf_error_def split: option.splits)
      next
        case None
        with ok assms obtain g where "seed_leaves F (point_key_for key path) ?param 0 (zip sps vals) (AgendaGroup ''campaign'' [] None []) = Inr g"
          "saved F (new_campaign now name g) (seed_reply name path (length sps)) d = Inr (r, d')"
          by (auto simp: seed_campaign_def bind_res_Inr_iff Let_def)
        with made ok None show thesis by (auto dest: saved_Inr)
      qed
    qed
  qed
qed

lemma create_wf:
  assumes "create_campaign F now name base path vals parameter key d = (r, d')" "campaign_ok (\<lambda>c. wf_agenda (cp_agenda c)) d"
  shows "campaign_ok (\<lambda>c. wf_agenda (cp_agenda c)) d'"
proof -
  have seed: "campaign_ok (\<lambda>c. wf_agenda (cp_agenda c)) d1"
    if "seed_campaign F now name b p vals parameter key d = Inr (r1, d1)" for b p r1 d1
    using that
  proof (cases rule: seed_campaign_Inr)
    case same
    with assms(2) show ?thesis by simp
  next
    case (made sps g pk param)
    with seed_leaves_entries [OF made(6)] wf_empty_group show ?thesis by (simp add: campaign_ok_def)
  qed
  have empty: "campaign_ok (\<lambda>c. wf_agenda (cp_agenda c)) d1"
    if "create_empty_campaign F now name vals d = Inr (r1, d1)" for r1 d1
    using that assms(2) by (auto simp: create_empty_campaign_def campaign_ok_def wf_agenda_def split: if_splits dest: saved_Inr)
  show ?thesis using assms seed empty
    by (auto simp: create_campaign_def split: if_splits option.splits sum.splits py_raise.splits)
qed

lemma remove_files_campaign: "remove_campaign_files F d = (r, d') \<Longrightarrow> dk_campaign d' \<in> {dk_campaign d, Absent}"
  by (auto simp: remove_campaign_files_def Let_def split: option.splits if_splits)

lemma delete_campaign_file: "delete_campaign F force d = (r, d') \<Longrightarrow> dk_campaign d' \<in> {dk_campaign d, Absent}"
  using remove_files_campaign [of F d r d'] by (auto simp: delete_campaign_def Let_def split: stored.splits if_splits)

lemma reuse_keeps_campaign [simp]:
  "dk_campaign (remember_direct_spec F sims sp sid rid d) = dk_campaign d"
  "dk_campaign (promote_reuse F rid d) = dk_campaign d" "dk_campaign (hydrate d) = dk_campaign d"
  by (simp_all add: remember_direct_spec_def promote_reuse_def hydrate_def Let_def)

lemma desk_wf:
  assumes "campaign_ok (\<lambda>c. wf_agenda (cp_agenda c)) d" shows "campaign_ok (\<lambda>c. wf_agenda (cp_agenda c)) (desk_after x d)"
proof (cases x)
  case (Advance F sims send clock w)
  obtain r w' d' where a: "advance F sims send clock w d = (r, w', d')" by (rule prod_cases3)
  show ?thesis
  proof (cases "dk_campaign d")
    case (Readable c)
    with assms have "wf_agenda (cp_agenda c)" by (simp add: campaign_ok_def)
    from advance_narrows [OF a Readable this] show ?thesis using a Advance
      by (auto simp: desk_after_def campaign_ok_def narrows_def)
  qed (use a Advance assms in \<open>auto simp: desk_after_def advance_def\<close>)
next
  case (AddLeaf F name sp pt deps param)
  obtain r d' where a: "add_leaf F name sp pt deps param d = (r, d')" by (cases "add_leaf F name sp pt deps param d")
  have "campaign_ok (\<lambda>c. wf_agenda (cp_agenda c)) d'"
    by (rule changes_ok [OF add_leaf_changes [OF a] assms]) (auto dest: insert_leaf_Inr(2))
  then show ?thesis using a AddLeaf by (simp add: desk_after_def)
next
  case (Create F now name base path vals param key)
  then show ?thesis using create_wf [OF _ assms] by (simp add: desk_after_def split_beta) (metis prod.collapse)
next
  case (Delete F force)
  obtain r d' where a: "delete_campaign F force d = (r, d')" by (cases "delete_campaign F force d")
  with delete_campaign_file [OF a] assms Delete show ?thesis by (auto simp: desk_after_def campaign_ok_def)
next
  case (Approve F path)
  obtain r d' where a: "approve F path d = (r, d')" by (cases "approve F path d")
  from changes_ok [OF approve_changes [OF a] assms] show ?thesis using a Approve by (auto simp: desk_after_def)
next
  case (RecordAnalysis F path t)
  obtain r d' where a: "record_analysis F path t d = (r, d')" by (cases "record_analysis F path t d")
  from changes_ok [OF analysis_changes [OF a] assms] show ?thesis using a RecordAnalysis by (auto simp: desk_after_def)
next
  case (RecordConclusion F t)
  obtain r d' where a: "record_conclusion F t d = (r, d')" by (cases "record_conclusion F t d")
  from changes_ok [OF conclusion_changes [OF a] assms] show ?thesis using a RecordConclusion by (auto simp: desk_after_def)
next
  case (SetState F st)
  obtain r d' where a: "set_campaign_state F st d = (r, d')" by (cases "set_campaign_state F st d")
  from changes_ok [OF state_changes [OF a] assms] show ?thesis using a SetState by (auto simp: desk_after_def)
next
  case (Stop F cancel)
  obtain r d' where a: "stop F cancel d = (r, d')" by (cases "stop F cancel d")
  from changes_ok [OF stop_changes [OF a] assms] show ?thesis using a Stop by (auto simp: desk_after_def)
next
  case (TakeCallbacks F)
  obtain r d' where a: "take_callbacks F d = (r, d')" by (cases "take_callbacks F d")
  from changes_ok [OF take_changes [OF a] assms] show ?thesis using a TakeCallbacks by (auto simp: desk_after_def)
qed (use assms in \<open>simp_all add: desk_after_def campaign_ok_def\<close>)

lemma desk_run_wf:
  "campaign_ok (\<lambda>c. wf_agenda (cp_agenda c)) d \<Longrightarrow> campaign_ok (\<lambda>c. wf_agenda (cp_agenda c)) (desk_run xs d)"
  by (induction xs d rule: desk_run.induct) (simp_all add: desk_wf)

end
