(* ===== verification/AgendaDeskProps.thy ===== *)
theory AgendaDeskProps
  imports AgendaDeskFacts Samples SimSubmit
begin

text \<open>
  The guarantees of the campaign service, stated over sequences of its operations, with the invariants they rest on.
\<close>

section \<open>A concrete service\<close>

definition sample_maths :: maths where
  "sample_maths = \<lparr>mh_square = (\<lambda>x. Inr x), mh_sqrt = (\<lambda>x. Inr x), mh_sum = (\<lambda>xs. Fin 0), mh_fmtg = (\<lambda>x. ''0''),
     mh_fmt6g = (\<lambda>x. ''0''), mh_frepr = sample_frepr, mh_int_error = (\<lambda>x. OtherError ''int''), mh_float_error = OtherError ''float'',
     mh_div_zero = OtherError ''division by zero''\<rparr>"

definition sample_office :: office where
  "sample_office = \<lparr>of_lib = sample_lib, of_sim_lib = sample_sim_lib,
     of_local = \<lparr>pv_picongpu_version = ''1'', pv_schema_hash = ''h'', pv_picongpu_revision = []\<rparr>, of_revision = [],
     of_policy = default_policy, of_redact = (\<lambda>t. t), of_pin = (\<lambda>sp. NotInstalled), of_maths = sample_maths,
     of_paths = (''agenda.json'', ''reuse.json''), of_save_error = None, of_unlink_errors = (None, None),
     of_model_text = (\<lambda>e. ''model''), of_tick_text = (\<lambda>e. ''tick'')\<rparr>"

text \<open>The sample campaign with one leaf running and one callback waiting.\<close>

definition flying_campaign :: campaign where
  "flying_campaign = sample_campaign\<lparr>
     cp_agenda := update_leaf (cp_agenda sample_campaign) ''a'' (\<lambda>s. s\<lparr>sim_status := Running, sim_id := Some ''s0'', sim_run_id := Some ''r0''\<rparr>),
     cp_callbacks := [\<lparr>cb_path = ''z'', cb_kind = KDone, cb_sim_id = Some ''s9'', cb_ts = None, cb_error = None,
       cb_error_code = None, cb_stage = None, cb_suspect = None\<rparr>]\<rparr>"

definition flying_desk :: desk where
  "flying_desk = \<lparr>dk_campaign = Readable flying_campaign, dk_reuse = Readable sample_registry, dk_pending = []\<rparr>"

definition sample_cancel :: "nat \<Rightarrow> string \<Rightarrow> control_answer" where
  "sample_cancel n sid = ControlAck [(''ok'', JBool True)]"

definition stopped_desk :: desk where
  "stopped_desk = flying_desk\<lparr>dk_campaign := Readable (flying_campaign\<lparr>cp_state := CStopped\<rparr>)\<rparr>"

lemma flying_desk_ok: "campaign_ok (\<lambda>c. wf_agenda (cp_agenda c)) flying_desk"
  by code_simp

lemma sample_tally:
  "stop_tally_of sample_office sample_cancel flying_campaign = \<lparr>sp_cancelled = [''s0''], sp_cleared = [], sp_errors = []\<rparr>"
proof -
  have "map (\<lambda>(p, s). the (sim_id s)) (in_flight_leaves flying_campaign) = [''s0'']" by code_simp
  then show ?thesis by (simp add: stop_tally_of_def settle_def sample_cancel_def get_or_def json_truthy_def Let_def)
qed

lemma sample_stop:
  "stop sample_office sample_cancel flying_desk = (stop_reply (stop_tally_of sample_office sample_cancel flying_campaign), stopped_desk)"
  by (simp add: stop_def mutate_campaign_def flying_desk_def saved_def save_campaign_def sample_office_def stopped_desk_def)

section \<open>A tick that ran to its end\<close>

lemma last_saved_snoc: "last_saved c (xs @ [Save e]) = e"
  by (induction c xs rule: last_saved.induct) auto

lemma advance_outcome:
  assumes "advance F sims send clock w d = (r, w', d')" "dk_campaign d = Readable c" "wf_agenda (cp_agenda c)"
  obtains (refused) "dk_campaign d' = Readable c"
  | (ran) tr c' io where "tick (build_engine F sims send clock d) c w = (Inr (tr, c'), io)" "dk_campaign d' = Readable c'"
    "narrows c c'" "cp_state c' = cp_state c"
  using assms(1)
proof (cases rule: advance_cases)
  case (ran c1 res io)
  with assms(2) have t: "tick (build_engine F sims send clock d) c w = (res, io)" "dk_campaign d' = Readable (last_saved c (snd io))"
    by simp_all
  from tick_shape [OF assms(3) t(1)] show thesis
  proof (elim disjE exE conjE)
    fix e assume "res = Inl e" "io = (w, [])"
    with t(2) that(1) show thesis by simp
  next
    fix tr e c0 mid assume o: "res = Inr (tr, e)" "snd io = Save c0 # mid @ [Save e]"
    have "last_saved c (snd io) = e" using o(2) last_saved_snoc [of c "Save c0 # mid" e] by simp
    moreover have "narrows c e \<and> cp_state e = cp_state c"
      using tick_effects_ok [OF assms(3), of "build_engine F sims send clock d" w res "fst io" "snd io"] t(1) o(1) by simp
    ultimately show thesis using that(2) [of tr e io] t o(1) by simp
  qed
qed (use assms(2) in simp)

section \<open>A stopped campaign\<close>

text \<open>Operations that neither resume the campaign nor put another one in its place.\<close>

fun quiet :: "'w desk_op \<Rightarrow> bool" where
  "quiet (SetState F st) = (st \<noteq> CRunning)"
| "quiet (Create F now name base path vals param key) = False"
| "quiet _ = True"

definition idle :: "campaign \<Rightarrow> bool" where
  "idle c \<longleftrightarrow> wf_agenda (cp_agenda c) \<and> cp_state c \<noteq> CRunning"

lemma idle_submits_nothing:
  assumes "idle c" shows "Submit key sp out \<notin> set (tick_effects en c w)"
  using tick_effects_narrow(1) [of c en "en_lib en" "length (tick_effects en c w)" w] assms
  by (auto simp: idle_def effect_ok_def)

lemma idle_step:
  assumes "campaign_ok idle d" "quiet x"
  shows "campaign_ok idle (desk_after x d)" "Submit key sp out \<notin> set (effects_of x d)"
proof -
  show "campaign_ok idle (desk_after x d)"
  proof (cases x)
    case (Advance F sims send clock w)
    obtain r w' d' where a: "advance F sims send clock w d = (r, w', d')" by (rule prod_cases3)
    show ?thesis
    proof (cases "dk_campaign d")
      case (Readable c)
      with assms have c: "idle c" by (simp add: campaign_ok_def)
      then have "wf_agenda (cp_agenda c)" by (simp add: idle_def)
      have "campaign_ok idle d'"
        using a Readable \<open>wf_agenda (cp_agenda c)\<close>
        by (rule advance_outcome) (use c in \<open>auto simp: campaign_ok_def idle_def narrows_def\<close>)
      with a Advance show ?thesis by (simp add: desk_after_def)
    qed (use a Advance assms in \<open>auto simp: desk_after_def advance_def campaign_ok_def\<close>)
  next
    case (AddLeaf F name sp pt deps param)
    obtain r d' where a: "add_leaf F name sp pt deps param d = (r, d')" by (cases "add_leaf F name sp pt deps param d")
    have "campaign_ok idle d'"
      by (rule changes_ok [OF add_leaf_changes [OF a] assms(1)]) (auto simp: idle_def dest: insert_leaf_Inr(2))
    then show ?thesis using a AddLeaf by (simp add: desk_after_def)
  next
    case (Delete F force)
    obtain r d' where a: "delete_campaign F force d = (r, d')" by (cases "delete_campaign F force d")
    with delete_campaign_file [OF a] assms Delete show ?thesis by (auto simp: desk_after_def campaign_ok_def)
  next
    case (Approve F path)
    obtain r d' where a: "approve F path d = (r, d')" by (cases "approve F path d")
    from changes_ok [OF approve_changes [OF a] assms(1)] show ?thesis using a Approve by (auto simp: desk_after_def idle_def)
  next
    case (RecordAnalysis F path t)
    obtain r d' where a: "record_analysis F path t d = (r, d')" by (cases "record_analysis F path t d")
    from changes_ok [OF analysis_changes [OF a] assms(1)] show ?thesis using a RecordAnalysis by (auto simp: desk_after_def idle_def)
  next
    case (RecordConclusion F t)
    obtain r d' where a: "record_conclusion F t d = (r, d')" by (cases "record_conclusion F t d")
    from changes_ok [OF conclusion_changes [OF a] assms(1)] show ?thesis using a RecordConclusion by (auto simp: desk_after_def idle_def)
  next
    case (SetState F st)
    obtain r d' where a: "set_campaign_state F st d = (r, d')" by (cases "set_campaign_state F st d")
    from changes_ok [OF state_changes [OF a] assms(1)] show ?thesis using a SetState assms(2) by (auto simp: desk_after_def idle_def)
  next
    case (Stop F cancel)
    obtain r d' where a: "stop F cancel d = (r, d')" by (cases "stop F cancel d")
    from changes_ok [OF stop_changes [OF a] assms(1)] show ?thesis using a Stop by (auto simp: desk_after_def idle_def)
  next
    case (TakeCallbacks F)
    obtain r d' where a: "take_callbacks F d = (r, d')" by (cases "take_callbacks F d")
    from changes_ok [OF take_changes [OF a] assms(1)] show ?thesis using a TakeCallbacks by (auto simp: desk_after_def idle_def)
  qed (use assms in \<open>simp_all add: desk_after_def campaign_ok_def\<close>)
  show "Submit key sp out \<notin> set (effects_of x d)"
    using assms by (cases x) (auto simp: effects_of_def campaign_ok_def idle_submits_nothing split: prod.splits stored.splits)
qed

lemma idle_run:
  "campaign_ok idle d \<Longrightarrow> list_all quiet xs \<Longrightarrow> Submit key sp out \<notin> set (desk_effects xs d)"
  by (induction xs arbitrary: d) (auto simp: idle_step)

text \<open>Every leaf in flight ends up in exactly one of the three lists.\<close>

definition error_sim :: "reply \<Rightarrow> json option" where
  "error_sim e = map_of e ''sim_id''"

definition settled :: "stop_tally \<Rightarrow> json option multiset" where
  "settled t = mset (map (Some \<circ> JStr) (sp_cancelled t)) + mset (map (Some \<circ> JStr) (sp_cleared t)) + mset (map error_sim (sp_errors t))"

lemma settle_one: "settled (settle F sid a t) = add_mset (Some (JStr sid)) (settled t)"
  by (cases a) (simp_all add: settle_def settled_def error_sim_def Let_def)

lemma settle_every: "settled (settle_all F cancel n sids t) = mset (map (Some \<circ> JStr) sids) + settled t"
  by (induction F cancel n sids t rule: settle_all.induct) (simp_all add: settle_one)

text \<open>
  C14: After a stop that was answered, the campaign is stopped on disk, every leaf that may have a live job is reported
  in exactly one of the lists cancelled, cleared and errors, and over any further operations except resuming or
  creating a campaign (ticks, added leaves, approvals, results arriving, restarts) nothing is submitted.
\<close>

theorem stopped_until_resumed:
  assumes "campaign_ok (\<lambda>c. wf_agenda (cp_agenda c)) d" "stop F cancel d = (r, d1)" "map_of r ''ok'' = Some (JBool True)"
    "list_all quiet ops"
  shows "Submit key sp out \<notin> set (desk_effects ops d1) \<and>
    (\<exists>c. dk_campaign d = Readable c \<and> dk_campaign d1 = Readable (c\<lparr>cp_state := CStopped\<rparr>) \<and>
      r = stop_reply (stop_tally_of F cancel c) \<and>
      settled (stop_tally_of F cancel c) = mset (map (\<lambda>(p, s). Some (JStr (the (sim_id s)))) (in_flight_leaves c)))"
proof -
  obtain c where c: "dk_campaign d = Readable c"
    "saved F (c\<lparr>cp_state := CStopped\<rparr>) (stop_reply (stop_tally_of F cancel c)) d = Inr (r, d1)"
    using assms(2,3) by (auto simp: stop_def mutate_campaign_def soft_error_def no_campaign_error_def
        split: stored.splits sum.splits)
  from saved_Inr [OF c(2)] have d1: "r = stop_reply (stop_tally_of F cancel c)" "dk_campaign d1 = Readable (c\<lparr>cp_state := CStopped\<rparr>)"
    by simp_all
  have "campaign_ok idle d1" using assms(1) c(1) d1(2) by (simp add: campaign_ok_def idle_def)
  with assms(4) have "Submit key sp out \<notin> set (desk_effects ops d1)" by (rule idle_run [rotated])
  moreover have "settled (stop_tally_of F cancel c) = mset (map (\<lambda>(p, s). Some (JStr (the (sim_id s)))) (in_flight_leaves c))"
    unfolding stop_tally_of_def settle_every by (simp add: settled_def comp_def case_prod_unfold)
  ultimately show ?thesis using c(1) d1 by blast
qed

text \<open>A stop of one running leaf, and a tick that would otherwise submit the leaf beside it.\<close>

theorem stopped_until_resumed_witness:
  "(\<forall>key sp out. Submit key sp out \<notin>
      set (desk_effects [Advance sample_office [] (\<lambda>w sp k. (SubmitRaised [], w)) (\<lambda>w. 0) (0 :: nat)] stopped_desk))
    \<and> sp_cancelled (stop_tally_of sample_office sample_cancel flying_campaign) = [''s0'']"
proof -
  let ?ops = "[Advance sample_office [] (\<lambda>w sp k. (SubmitRaised [], w)) (\<lambda>w. 0) (0 :: nat)]"
  have "Submit key sp out \<notin> set (desk_effects ?ops stopped_desk)" for key sp out
    using stopped_until_resumed [OF flying_desk_ok sample_stop, of ?ops key sp out] by (auto simp: stop_reply_def)
  then show ?thesis using sample_tally by simp
qed

section \<open>Callbacks\<close>












section \<open>The set of awaited runs\<close>

text \<open>
  A command id belongs to one specification, so to one key of the registry. Then every run a pending record awaits is
  in the service's set, whatever happened before.
\<close>

definition tracks :: "(string \<Rightarrow> string) \<Rightarrow> desk \<Rightarrow> bool" where
  "tracks owner d \<longleftrightarrow> wf_registry (load_reuse d) \<and>
     (\<forall>h rid. awaited_at (load_reuse d) h rid \<and> rid \<noteq> [] \<longrightarrow> owner rid = h \<and> rid \<in> set (dk_pending d))"

fun owned_op :: "(string \<Rightarrow> string) \<Rightarrow> 'w desk_op \<Rightarrow> bool" where
  "owned_op owner (Direct F sims sp sid rid) = (owner rid = reuse_key_of F sp None)"
| "owned_op owner _ = True"

lemma awaited_remember_done:
  "ru_state r \<noteq> pending_state \<Longrightarrow> awaited_at (remember reg r) h rid \<Longrightarrow> awaited_at reg h rid"
  by (auto simp: awaited_at_def remember_def awaits_def split: if_splits)

lemma awaited_record_direct:
  assumes "wf_registry reg" "awaited_at (record_direct reg r) h rid" "ru_pending_run_ids r = []"
  shows "awaited_at reg h rid \<or> (h = ru_wire_hash r \<and> ru_run_id r = Some rid)"
proof (cases "h = ru_wire_hash r")
  case False
  with assms(2) have "awaited_at reg h rid"
    by (auto simp: awaited_at_def record_direct_def remember_def Let_def dest: wf_registry_hash [OF assms(1)]
        split: option.splits if_splits)
  then show ?thesis ..
next
  case True
  show ?thesis
  proof (cases "map_of reg h")
    case None
    with True assms show ?thesis by (auto simp: awaited_at_def record_direct_def remember_def awaits_def)
  next
    case (Some ex)
    note hash = wf_registry_hash [OF assms(1) Some]
    show ?thesis
    proof (cases "ru_state ex \<in> set reusable_states \<or> ru_state r \<in> set reusable_states")
      case True
      with Some \<open>h = ru_wire_hash r\<close> hash assms(2) show ?thesis
        by (auto simp: awaited_at_def record_direct_def remember_def awaits_def reusable_states_def pending_state_def split: if_splits)
    next
      case False
      define ids where "ids = add_pending (add_pending (ru_pending_run_ids ex) (ru_run_id ex)) (ru_run_id r)"
      have rd: "record_direct reg r = (if ids = ru_pending_run_ids ex then reg else remember reg (ex\<lparr>ru_pending_run_ids := ids\<rparr>))"
        using Some True False by (simp add: record_direct_def ids_def Let_def)
      have ids: "rid \<in> set ids \<Longrightarrow> rid \<in> set (ru_pending_run_ids ex) \<or> ru_run_id ex = Some rid \<or> ru_run_id r = Some rid"
        by (auto simp: ids_def add_pending_set truthy_iff split: if_splits)
      from assms(2) Some hash True ids show ?thesis unfolding rd
        by (auto simp: awaited_at_def remember_def awaits_def split: if_splits)
    qed
  qed
qed

lemma awaited_promote:
  assumes "wf_registry reg" "awaited_at (promote reg r0 ''done'') h rid"
  shows "awaited_at reg h rid"
  using assms by (auto simp: promote_def awaited_at_def awaits_def pending_state_def split: option.splits if_splits)

lemma promoted_not_awaited:
  assumes "wf_registry reg" "r0 \<noteq> []" "\<And>h. awaited_at reg h r0 \<Longrightarrow> h = k"
  shows "\<not> awaited_at (promote reg r0 ''done'') h r0"
proof
  assume a: "awaited_at (promote reg r0 ''done'') h r0"
  with awaited_promote [OF assms(1)] have w: "awaited_at reg h r0" by blast
  then have "find (\<lambda>(h, r). awaits r r0) reg \<noteq> None"
    by (auto simp: find_None_iff awaited_at_def dest!: map_of_SomeD)
  then obtain k' y where f: "find (\<lambda>(h, r). awaits r r0) reg = Some (k', y)" by auto
  from find_SomeD [OF this] assms(1) have "awaited_at reg k' r0" by (auto simp: wf_registry_def awaited_at_def)
  with w assms(3) have "k' = h" by blast
  with a f assms(2) show False by (simp add: promote_def awaited_at_def awaits_def pending_state_def)
qed

lemma effects_track:
  assumes "tracks owner d" shows "tracks owner (fold apply_effect fx d)"
  using assms
proof (induction fx arbitrary: d)
  case (Cons e fx)
  have "tracks owner (apply_effect e d)"
  proof (cases e)
    case (RecordReuse key sid rid)
    have "wf_registry (load_reuse d)" using Cons.prems by (simp add: tracks_def)
    moreover have "awaited_at (load_reuse d) h i" if "awaited_at (remember (load_reuse d) (engine_record key sid rid)) h i" for h i
      by (rule awaited_remember_done [OF _ that]) (simp add: engine_record_def pending_state_def)
    ultimately show ?thesis using Cons.prems unfolding RecordReuse by (auto simp: tracks_def load_reuse_def)
  qed (use Cons.prems in \<open>auto simp: tracks_def load_reuse_def\<close>)
  then show ?case by (simp add: Cons.IH)
qed simp

lemma direct_tracks:
  assumes "tracks owner d" "owner rid = reuse_key_of F sp None"
  shows "tracks owner (remember_direct_spec F sims sp sid rid d)"
proof -
  define r where "r = direct_reuse_record F sims (load_reuse d) sp sid rid"
  have r: "ru_wire_hash r = owner rid" "ru_run_id r = Some rid" "ru_pending_run_ids r = []"
    using assms(2) by (simp_all add: r_def direct_reuse_record_def Let_def)
  define u where "u = record_direct (load_reuse d) r"
  have wf: "wf_registry (load_reuse d)" "wf_registry u" using assms(1) by (simp_all add: tracks_def u_def)
  have up: "awaited_at (load_reuse d) h i \<or> (h = owner rid \<and> i = rid)" if "awaited_at u h i" for h i
    using awaited_record_direct [OF wf(1) that [unfolded u_def] r(3)] r by auto
  define st where "st = ru_state (case map_of u (owner rid) of Some m \<Rightarrow> m | None \<Rightarrow> r)"
  define d1 where "d1 = d\<lparr>dk_reuse := if u \<noteq> load_reuse d then Readable u else dk_reuse d,
     dk_pending := if st = pending_state then List.insert rid (dk_pending d) else removeAll rid (dk_pending d)\<rparr>"
  have eq: "remember_direct_spec F sims sp sid rid d = (if u \<noteq> load_reuse d \<and> of_save_error F \<noteq> None then d else d1)"
    unfolding remember_direct_spec_def Let_def d1_def st_def u_def r_def [symmetric] r(1) by simp
  have "load_reuse d1 = u" by (auto simp: d1_def load_reuse_def)
  moreover have "owner i = h \<and> i \<in> set (dk_pending d1)" if a: "awaited_at u h i" "i \<noteq> []" for h i
  proof -
    from up [OF a(1)] assms(1) a(2) have own: "owner i = h" "i = rid \<or> i \<in> set (dk_pending d)" by (auto simp: tracks_def)
    have "st = pending_state" if "i = rid"
      using a(1) own(1) that by (auto simp: st_def awaited_at_def awaits_def)
    with own show ?thesis by (auto simp: d1_def)
  qed
  ultimately have "tracks owner d1" using wf(2) by (auto simp: tracks_def)
  with assms(1) show ?thesis by (simp add: eq)
qed

lemma promote_tracks:
  assumes "tracks owner d" shows "tracks owner (promote_reuse F rid d)"
proof -
  define p where "p = promote (load_reuse d) rid ''done''"
  have wf: "wf_registry (load_reuse d)" "wf_registry p" using assms by (simp_all add: tracks_def p_def)
  define d1 where "d1 = d\<lparr>dk_reuse := Readable p, dk_pending := removeAll rid (dk_pending d)\<rparr>"
  have eq: "promote_reuse F rid d = (if rid \<notin> set (dk_pending d) \<or> p = load_reuse d \<or> of_save_error F \<noteq> None then d else d1)"
    by (simp add: promote_reuse_def Let_def p_def d1_def)
  have "i \<in> set (dk_pending d1) \<and> owner i = h" if a: "awaited_at p h i" "i \<noteq> []" for h i
  proof -
    from awaited_promote [OF wf(1) a(1) [unfolded p_def]] assms a(2)
    have own: "owner i = h" "i \<in> set (dk_pending d)" by (auto simp: tracks_def)
    have "i \<noteq> rid"
      using promoted_not_awaited [OF wf(1), of i "owner i" h] a assms by (auto simp: p_def tracks_def)
    with own show ?thesis by (simp add: d1_def)
  qed
  then have "tracks owner d1" using wf(2) by (auto simp: tracks_def d1_def load_reuse_def)
  with assms show ?thesis by (simp add: eq)
qed

lemma hydrate_tracks:
  assumes "wf_registry (load_reuse d)" "\<And>h rid. awaited_at (load_reuse d) h rid \<Longrightarrow> rid \<noteq> [] \<Longrightarrow> owner rid = h"
  shows "tracks owner (hydrate d)"
proof -
  have "load_reuse (hydrate d) = load_reuse d" by (simp add: hydrate_def load_reuse_def)
  moreover have "rid \<in> set (dk_pending (hydrate d))" if a: "awaited_at (load_reuse d) h rid" "rid \<noteq> []" for h rid
  proof -
    obtain r where r: "map_of (load_reuse d) h = Some r" "awaits r rid" using a(1) by (auto simp: awaited_at_def)
    then have "rid \<in> set (awaited_ids r)" using a(2) by (auto simp: awaited_ids_def awaits_def truthy_def)
    with r(1) show ?thesis by (auto simp: hydrate_def dest!: map_of_SomeD)
  qed
  ultimately show ?thesis using assms by (auto simp: tracks_def)
qed

lemma changes_track: "changes_to d d' Q \<Longrightarrow> tracks owner d \<Longrightarrow> tracks owner d'"
  by (auto simp: changes_to_def tracks_def load_reuse_def)

lemma create_changes:
  assumes "create_campaign F now name base path vals parameter key d = (r, d')" shows "\<exists>s. d' = d\<lparr>dk_campaign := s\<rparr>"
proof -
  have same: "\<exists>s. d = d\<lparr>dk_campaign := s\<rparr>" by (rule exI [of _ "dk_campaign d"]) simp
  have seed: "\<exists>s. d1 = d\<lparr>dk_campaign := s\<rparr>" if "seed_campaign F now name b p vals parameter key d = Inr (r1, d1)" for b p r1 d1
    using that by (cases rule: seed_campaign_Inr) (use same in auto)
  have empty: "\<exists>s. d1 = d\<lparr>dk_campaign := s\<rparr>" if "create_empty_campaign F now name vals d = Inr (r1, d1)" for r1 d1
    using that same by (auto simp: create_empty_campaign_def split: if_splits dest: saved_Inr)
  show ?thesis using assms same seed empty
    by (auto simp: create_campaign_def split: if_splits option.splits sum.splits py_raise.splits)
qed

lemma delete_reuse: "delete_campaign F force d = (r, d') \<Longrightarrow> dk_reuse d' \<in> {dk_reuse d, Absent} \<and> dk_pending d' = dk_pending d"
  by (auto simp: delete_campaign_def remove_campaign_files_def Let_def split: stored.splits option.splits if_splits)

lemma load_reuse_campaign [simp]: "load_reuse (d\<lparr>dk_campaign := s\<rparr>) = load_reuse d"
  by (simp add: load_reuse_def)

lemma tracks_campaign: "tracks owner d \<Longrightarrow> tracks owner (d\<lparr>dk_campaign := s\<rparr>)"
  by (auto simp: tracks_def)

lemma tracks_less:
  assumes "tracks owner d" "dk_reuse e \<in> {dk_reuse d, Absent}" "dk_pending e = dk_pending d" shows "tracks owner e"
proof (cases "dk_reuse e = Absent")
  case True
  then have "load_reuse e = []" by (simp add: load_reuse_def)
  then show ?thesis by (simp add: tracks_def wf_registry_def awaited_at_def)
next
  case False
  with assms(2) have "load_reuse e = load_reuse d" by (simp add: load_reuse_def)
  with assms(1,3) show ?thesis by (auto simp: tracks_def)
qed

lemma tracks_step:
  assumes "tracks owner d" "owned_op owner x" shows "tracks owner (desk_after x d)"
proof (cases x)
  case (Advance F sims send clock w)
  obtain r w' d' where a: "advance F sims send clock w d = (r, w', d')" by (rule prod_cases3)
  then have "tracks owner d'" by (cases rule: advance_cases) (use assms(1) effects_track in auto)
  with a Advance show ?thesis by (simp add: desk_after_def)
next
  case (Create F now name base path vals param key)
  obtain r d' where a: "create_campaign F now name base path vals param key d = (r, d')"
    by (cases "create_campaign F now name base path vals param key d")
  with create_changes [OF a] tracks_campaign [OF assms(1)] Create show ?thesis by (auto simp: desk_after_def)
next
  case (Delete F force)
  obtain r d' where a: "delete_campaign F force d = (r, d')" by (cases "delete_campaign F force d")
  from delete_reuse [OF a] have "tracks owner d'" by (blast intro: tracks_less [OF assms(1)])
  with a Delete show ?thesis by (simp add: desk_after_def)
next
  case (Direct F sims sp sid rid)
  with direct_tracks assms show ?thesis by (simp add: desk_after_def)
next
  case (RunReady F rid)
  with promote_tracks assms(1) show ?thesis by (simp add: desk_after_def)
next
  case Restart
  with hydrate_tracks [of d owner] assms(1) show ?thesis by (auto simp: desk_after_def tracks_def)
next
  case (AddLeaf F name sp pt deps param)
  then show ?thesis using changes_track [OF add_leaf_changes [of F name sp pt deps param d] assms(1)]
    by (cases "add_leaf F name sp pt deps param d") (simp add: desk_after_def)
next
  case (Approve F path)
  then show ?thesis using changes_track [OF approve_changes [of F path d] assms(1)]
    by (cases "approve F path d") (simp add: desk_after_def)
next
  case (RecordAnalysis F path t)
  then show ?thesis using changes_track [OF analysis_changes [of F path t d] assms(1)]
    by (cases "record_analysis F path t d") (simp add: desk_after_def)
next
  case (RecordConclusion F t)
  then show ?thesis using changes_track [OF conclusion_changes [of F t d] assms(1)]
    by (cases "record_conclusion F t d") (simp add: desk_after_def)
next
  case (SetState F st)
  then show ?thesis using changes_track [OF state_changes [of F st d] assms(1)]
    by (cases "set_campaign_state F st d") (simp add: desk_after_def)
next
  case (Stop F cancel)
  then show ?thesis using changes_track [OF stop_changes [of F cancel d] assms(1)]
    by (cases "stop F cancel d") (simp add: desk_after_def)
next
  case (TakeCallbacks F)
  then show ?thesis using changes_track [OF take_changes [of F d] assms(1)]
    by (cases "take_callbacks F d") (simp add: desk_after_def)
qed

lemma tracks_run: "tracks owner d \<Longrightarrow> list_all (owned_op owner) xs \<Longrightarrow> tracks owner (desk_run xs d)"
  by (induction xs arbitrary: d) (simp_all add: tracks_step)

lemma promote_not_awaited:
  assumes "wf_registry reg" "\<And>h. \<not> awaited_at reg h rid" shows "promote reg rid st = reg"
proof -
  have "find (\<lambda>(h, r). awaits r rid) reg = None"
    using assms by (auto simp: find_None_iff awaited_at_def wf_registry_def)
  then show ?thesis by (simp add: promote_def)
qed

text \<open>
  C16: The check of the in-memory set that spares reading the registry is lossless: after any history of operations that
  began by loading a registry, with failing saves and restarts, handling the event of a run changes the registry
  exactly as promoting it without the check does, provided a command id belongs to one specification.
\<close>

theorem pending_check_loses_nothing:
  assumes "wf_registry (load_reuse d)" "\<And>h i. awaited_at (load_reuse d) h i \<Longrightarrow> i \<noteq> [] \<Longrightarrow> owner i = h"
    "list_all (owned_op owner) xs" "of_save_error F = None"
  shows "load_reuse (promote_reuse F rid (desk_run xs (hydrate d))) =
    promote (load_reuse (desk_run xs (hydrate d))) rid ''done''"
proof -
  define e where "e = desk_run xs (hydrate d)"
  have t: "tracks owner e" unfolding e_def using tracks_run [OF hydrate_tracks [OF assms(1,2)] assms(3)] .
  show ?thesis
  proof (cases "rid \<in> set (dk_pending e)")
    case True
    then show ?thesis using assms(4) by (auto simp: e_def [symmetric] promote_reuse_def Let_def load_reuse_def)
  next
    case False
    have "promote (load_reuse e) rid ''done'' = load_reuse e"
    proof (cases "rid = []")
      case True
      then show ?thesis by (simp add: promote_def)
    next
      case False
      then show ?thesis using t \<open>rid \<notin> set (dk_pending e)\<close>
        by (intro promote_not_awaited) (auto simp: tracks_def)
    qed
    with False show ?thesis by (simp add: e_def [symmetric] promote_reuse_def)
  qed
qed

text \<open>Run \<open>r2\<close> of the sample registry is promoted, also after a restart.\<close>

theorem pending_check_loses_nothing_witness:
  "load_reuse (promote_reuse sample_office ''r2'' (desk_run [Restart :: nat desk_op] (hydrate flying_desk))) =
     promote sample_registry ''r2'' ''done'' \<and> promote sample_registry ''r2'' ''done'' \<noteq> sample_registry"
proof -
  have reg: "load_reuse flying_desk = sample_registry" by (simp add: load_reuse_def flying_desk_def)
  have wf: "wf_registry sample_registry" by (simp add: wf_registry_def sample_registry_def sample_record_def)
  have own: "(if i = ''r2'' then ''h2'' else ''h1'') = h" if "awaited_at sample_registry h i" "i \<noteq> []" for h i
    using that by (auto simp: awaited_at_def awaits_def sample_registry_def sample_record_def pending_state_def split: if_splits)
  have "load_reuse (desk_run [Restart :: nat desk_op] (hydrate flying_desk)) = sample_registry"
    by (simp add: desk_after_def hydrate_def load_reuse_def flying_desk_def)
  moreover have "promote sample_registry ''r2'' ''done'' \<noteq> sample_registry" by code_simp
  ultimately show ?thesis
    using pending_check_loses_nothing [of flying_desk "\<lambda>i. if i = ''r2'' then ''h2'' else ''h1''" "[Restart :: nat desk_op]" sample_office "''r2''"]
      wf own unfolding reg by (auto simp: sample_office_def)
qed

end
