(* ===== verification/Spec2Isabelle.thy ===== *)
theory Spec2Isabelle
  imports Samples RcpEnvelope SimRequests AnalysisEval SimWait SimExchange AgendaDeskProps
begin

text \<open>
  The program steers plasma simulations on a cluster through a chat room. A campaign (package \<open>agenda\<close>) is a
  tree of simulations that a tick engine plans, submits and follows. The server side (\<open>server/simulation.py\<close>)
  turns a submission into a signed command (\<open>rcp\<close>, \<open>protocol\<close>), keeps the registry of what it hears back and
  lets requests wait for answers. The cluster side (\<open>simclient\<close>) checks and executes commands, keeps a durable
  store against double execution, talks to SLURM (\<open>slurm\<close>) and watches jobs (\<open>follow.py\<close>, \<open>parsing\<close>).
  Result requests carry small analysis programs (\<open>analysis_program.py\<close>, \<open>analysis_eval.py\<close>). On top, the
  driver layer derives its views: fleet alerts, human readable messages, adaptive refinement.

  Theories and code. \<open>Prelude\<close>, \<open>PyText\<close>, \<open>PyFloat\<close>, \<open>Json\<close>: Python's dicts as association lists in insertion
  order, text operations, binary64 with its rounding and special values, and canonical JSON with the proof that
  equal texts come from equal values only.
  \<^item> \<open>AgendaBudget\<close> (\<open>agenda/budget.py\<close>), \<open>AgendaModel\<close>, \<open>AgendaTree\<close>, \<open>AgendaGrow\<close> (\<open>agenda/model.py\<close>: the tree, its
    validators, traversal and rewriting, \<open>add\<close> and \<open>expand\<close>), \<open>AgendaPlanner\<close> (\<open>agenda/planner.py\<close>),
    \<open>AgendaReuse\<close> (\<open>agenda/reuse.py\<close>), \<open>AgendaCampaign\<close> (\<open>agenda/campaign.py\<close>), \<open>AgendaEngine\<close>
    (\<open>agenda/engine.py\<close>: the whole tick as one function that returns a result or an error, the world left behind
    and the list of effects in their order), \<open>AgendaEngineFacts\<close> and \<open>AgendaTick\<close> (one lemma per phase of the tick,
    what a loop iteration does to a leaf), \<open>AgendaReport\<close> (the status views), \<open>Samples\<close> (a concrete campaign).
  \<^item> \<open>RcpWire\<close>, \<open>RcpEnvelope\<close> (\<open>rcp/envelope.py\<close>, \<open>rcp/crypto.py\<close>, \<open>rcp/state.py\<close>): encoding, signature,
    redelivery guard.
  \<^item> \<open>SimProtocol\<close>, \<open>SimResults\<close> (\<open>protocol/simulation.py\<close>, \<open>protocol/hello.py\<close>), \<open>SimSubmit\<close>
    (\<open>simclient/simulation.py\<close>), \<open>Slurm\<close> (\<open>slurm/client.py\<close>), \<open>Progress\<close> (\<open>parsing/progress.py\<close>), \<open>SimFollow\<close>
    (\<open>simclient/follow.py\<close>).
  \<^item> \<open>SimStore\<close>, \<open>SimLedger\<close>, \<open>SimClient\<close>, \<open>SimHandlers\<close> (\<open>simclient/client.py\<close>: the record \<open>client\<close> holds the
    attributes of \<open>SimulationClient\<close>, one function per handler), \<open>SimServe\<close>, \<open>SimServeFacts\<close>, \<open>SimRequests\<close>: the
    inductive relation \<open>serve_step\<close> (deliver a message, start or finish a task, crash and restart) and what every
    reachable state satisfies.
  \<^item> \<open>SimServer\<close>, \<open>SimAsk\<close>, \<open>SimWait\<close> (\<open>server/simulation.py\<close>): the registry and event log, the requests that
    wait for an answer, the bounded wait. \<open>SimExchange\<close> composes this server with the client of \<open>SimServe\<close>.
  \<^item> \<open>AnalysisProgram\<close>, \<open>AnalysisEval\<close>: the expression trees, their checks and their evaluator.

  How effects are modelled. A handler is a function from the state and its inputs to the new state and the
  messages or effects it causes; where the code awaits an answer of the outside, it is split into the part before
  and the part after, so that other steps may come between. What is not under \<open>src/\<close> is an argument: HMAC and
  the hash (with the hypothesis, where a claim needs it, that it does not collide), SLURM's answers, the file
  system, the clock, the elementary functions of \<open>math\<close>, pydantic's coercions. Errors are values: every raise and
  every early return of the modelled code is a branch.

  Interfaces. The locales \<open>admission_gate\<close>/\<open>budget_gate\<close> (what the planner needs of the budget), \<open>leaf_pass\<close>
  (what every traversal of the tick keeps; interpreted for folding, reuse, reconciliation and callbacks),
  \<open>completed_store\<close> (the reuse registry), \<open>redelivery_guard\<close> (the dedup window) and \<open>ledger\<close> (the idempotency
  store with restarts) are interpreted on the code's definitions in the theory that provides them.

  Bounds and termination. The loops over lists are structural recursions. The loops that depend on the world (polling
  a job, waiting for a state, following an output file, a schedule of ticks, a sequence of deliveries) take the list of
  what the world answers, one element per round, and return a value that says whether the loop ended; the claims
  say at which element it does. The stack walk over an expression is \<open>while_option\<close>, with the proof that a
  validated tree of at most \<open>max_nodes\<close> nodes is walked within that many rounds. No definition uses fuel.

  What the properties show. C1 to C6: what a tick may submit, save and report, over any schedule of ticks, restarts and
  crashes. C7 to C16: planning within caps and dependencies, identity of commands and payloads, growth of the
  tree, reuse of results, deferral, status views. C17 to C20: encoding and authenticity of messages. The
  following ones: the checks of a submission, the watcher, at-most-once execution with its two gaps (a resend without
  hash, a control command that still waits), log tails, analysis programs, the store as a refinement of a
  dict, the exchange between the two sides, the registry and the wait.

  Not modelled, and why.
  \<^item> Strings are lists of 8-bit characters; decoding of UTF-8 and lone surrogates is left out. Exit codes of
    \<open>sacct\<close> that are no integers are read as absent.
  \<^item> Shutdown of the client (cancelling tasks within a grace period), asyncio shielding, threads and file
    descriptors of the stderr capture, subprocesses: no state of the program outlives them.
  \<^item> The emits of a running submission (\<open>execute_submit\<close>) are listed after the run they belong to. Discovery of
    the output file is an argument of the follower. The server's readability check of a local mirror and the
    temporary file of an inline script are left out.
  \<^item> The order \<open>sorted\<close> gives to a list with a NaN and the rounding inside \<open>fsum\<close>, \<open>pstdev\<close> and the DFT are arguments.
  \<^item> \<open>results.py\<close>, \<open>analysis.py\<close> (openPMD files, numpy, plotting), \<open>server/app.py\<close>, \<open>server/agenda.py\<close>,
    \<open>server/hello.py\<close>, \<open>server/setup.py\<close> (tool registration and dialogue of the MCP framework), \<open>transport\<close>, \<open>auth\<close>
    (Matrix and HTTP clients), \<open>simulation_build.py\<close> (drives the simulation's own Python package), \<open>config.py\<close> and
    \<open>version.py\<close> (environment, git): they are mostly calls of libraries that are not under \<open>src/\<close>.
\<close>

section \<open>The campaign engine\<close>

text \<open>
  C1: Over any sequence of ticks, engine restarts and crashes, a command id is handed to the submit
  callable only for a leaf that was planned in the campaign the history began with, and once an accepted
  submission is on disk its command id is never handed out again.
\<close>

theorem handed_off_once:
  assumes "wf_agenda (cp_agenda c)" "engines_over lib sch" "run_history sch c = (lg, d)"
  shows "(\<forall>key sp out. Submit key sp out \<in> set lg \<longrightarrow> may_hand_off lib c key sp) \<and>
    (\<forall>key sp sid. distinct_keys lib c \<and> recorded lib c key sp sid \<longrightarrow>
       (\<forall>sp' out. Submit key sp' out \<notin> set lg))"
  using history_facts [OF assms(3,2,1)] recorded_not_open [OF assms(1)] by blast

definition sample_schedule :: "nat schedule" where
  "sample_schedule = [(sample_engine, 0, 2), (sample_engine, 5, 9)]"

theorem handed_off_once_witness:
  "\<exists>lg d. run_history sample_schedule sample_campaign = (lg, d) \<and>
     (\<forall>key sp out. Submit key sp out \<in> set lg \<longrightarrow> may_hand_off sample_lib sample_campaign key sp)"
proof -
  obtain lg d where "run_history sample_schedule sample_campaign = (lg, d)"
    by (cases "run_history sample_schedule sample_campaign")
  moreover have "engines_over sample_lib sample_schedule"
    by (simp add: engines_over_def sample_schedule_def sample_engine_def)
  ultimately show ?thesis using handed_off_once [OF sample_wf] by blast
qed


text \<open>
  C2: An accepted submission is durable: the effect right after it saves a campaign in which its leaf is
  submitted under that command id and simulation id. So a crash can lose at most the last submission of a
  tick, and the retry of that one carries the same command id.
\<close>

theorem accepted_is_saved_next:
  assumes "wf_agenda (cp_agenda c)" "tick_effects en c w = pre @ Submit key sp (SubmitOk sid) # post"
  shows "\<exists>d rest. post = Save d # rest \<and> recorded (en_lib en) d key sp sid"
proof -
  obtain res w' fx where t: "tick en c w = (res, (w', fx))" by (rule prod_cases3)
  then have "fx = pre @ Submit key sp (SubmitOk sid) # post" using assms(2) by (simp add: tick_effects_def)
  with tick_effects_ok [OF assms(1) t] durableD show ?thesis by (auto simp: effects_ok_def)
qed

lemma sample_tick:
  "map (\<lambda>e. case e of Submit key sp out \<Rightarrow> Some (key, sp, out) | _ \<Rightarrow> None) (tick_effects sample_engine sample_campaign 0)
   = [None, Some (''c'' @ CHR 0x00 # ''a'' @ CHR 0x00 # ''{\"sim\":1}'', [(''sim'', JInt 1)], SubmitOk ''s0''), None, None]"
  by code_simp

lemma sample_tick_shape:
  obtains pre post key where "tick_effects sample_engine sample_campaign 0
     = pre @ Submit key [(''sim'', JInt 1)] (SubmitOk ''s0'') # post"
proof -
  obtain e0 e1 e2 e3 where t: "tick_effects sample_engine sample_campaign 0 = [e0, e1, e2, e3]"
    using sample_tick by (auto simp: map_eq_Cons_conv)
  obtain key where "e1 = Submit key [(''sim'', JInt 1)] (SubmitOk ''s0'')"
    using sample_tick by (cases e1) (simp_all add: t)
  with t that [of "[e0]" key "[e2, e3]"] show thesis by simp
qed

theorem accepted_is_saved_next_witness:
  "\<exists>key pre d rest. tick_effects sample_engine sample_campaign 0
     = pre @ Submit key [(''sim'', JInt 1)] (SubmitOk ''s0'') # Save d # rest \<and>
     recorded sample_lib d key [(''sim'', JInt 1)] ''s0''"
proof -
  obtain pre post key where t: "tick_effects sample_engine sample_campaign 0
     = pre @ Submit key [(''sim'', JInt 1)] (SubmitOk ''s0'') # post" by (rule sample_tick_shape)
  have "en_lib sample_engine = sample_lib" by (simp add: sample_engine_def)
  with accepted_is_saved_next [OF sample_wf t] t show ?thesis by auto
qed

text \<open>
  C3: A campaign that is paused or stopped submits nothing, whatever the engine, its policy and the
  observations; and a submission is made only for a leaf that was still planned when the tick began.
\<close>

theorem submits_only_when_running:
  assumes "wf_agenda (cp_agenda c)" "Submit key sp out \<in> set (tick_effects en c w)"
  shows "cp_state c = CRunning \<and> may_hand_off (en_lib en) c key sp"
  using tick_effects_narrow(1) [OF assms(1) refl, of "length (tick_effects en c w)" en w] assms(2)
  by (auto simp: effect_ok_def)

theorem submits_only_when_running_witness:
  "\<exists>key. Submit key [(''sim'', JInt 1)] (SubmitOk ''s0'') \<in> set (tick_effects sample_engine sample_campaign 0) \<and>
     may_hand_off sample_lib sample_campaign key [(''sim'', JInt 1)]"
proof -
  obtain pre post key where t: "tick_effects sample_engine sample_campaign 0
     = pre @ Submit key [(''sim'', JInt 1)] (SubmitOk ''s0'') # post" by (rule sample_tick_shape)
  then have "Submit key [(''sim'', JInt 1)] (SubmitOk ''s0'') \<in> set (tick_effects sample_engine sample_campaign 0)"
    by simp
  with submits_only_when_running [OF sample_wf this] show ?thesis
    by (auto simp: sample_engine_def)
qed

text \<open>
  C4: A refused tick (two leaves with one wire payload, or resources that do not parse) touches nothing:
  no submission, no save, no change outside. Every other tick runs to its end and ends with a save.
\<close>

theorem tick_all_or_nothing:
  assumes "wf_agenda (cp_agenda c)"
  shows "case fst (tick en c w) of
     Inl e \<Rightarrow> snd (tick en c w) = (w, [])
   | Inr (r, d) \<Rightarrow> \<exists>first mid. tick_effects en c w = Save first # mid @ [Save d]"
proof -
  obtain res io where t: "tick en c w = (res, io)" by (cases "tick en c w")
  from tick_shape [OF assms t] show ?thesis
    by (auto simp: t tick_effects_def)
qed

theorem tick_all_or_nothing_witness:
  "case fst (tick sample_engine sample_campaign 0) of
     Inl e \<Rightarrow> snd (tick sample_engine sample_campaign 0) = (0, [])
   | Inr (r, d) \<Rightarrow> \<exists>first mid. tick_effects sample_engine sample_campaign 0 = Save first # mid @ [Save d]"
  by (rule tick_all_or_nothing [OF sample_wf])

text \<open>
  C5: One tick submits at most \<open>max_submits_per_tick\<close> leaves, and it never raises the number of jobs in
  flight above the concurrency cap: the number after the tick is at most the cap, or what the observations
  already reported when that is more.
\<close>

theorem tick_caps:
  assumes "wf_agenda (cp_agenda c)" "tick en c w = (Inr (r, d), io)"
  shows "\<exists>steps c0 r0. starts en c w steps c0 r0 \<and>
     int (length (tr_submitted r)) \<le> max 0 (po_max_submits_per_tick (en_policy en)) \<and>
     count_in_flight (cp_agenda d) = count_in_flight (cp_agenda c0) + int (length (tr_submitted r)) \<and>
     (\<forall>cap. bg_max_concurrent_jobs (tick_budget en c) = Some cap \<longrightarrow>
        count_in_flight (cp_agenda d) \<le> max cap (count_in_flight (cp_agenda c0)))"
  using assms
proof (cases rule: tick_cases)
  case (ran steps c0 r0 c' r' n' io' out)
  have "cp_agenda d = cp_agenda c'" "tr_submitted r = tr_submitted r'"
    using ran(3,4) by (auto simp: finish_tick_def Let_def compact_failures_def)
  with loop_counts [OF ran(1) assms(1) ran(2)] ran(1) show ?thesis by (intro exI [of _ steps] exI [of _ c0] exI [of _ r0]) auto
qed simp

theorem tick_caps_witness:
  "\<exists>r d io steps c0 r0. tick sample_engine sample_campaign 0 = (Inr (r, d), io) \<and>
     starts sample_engine sample_campaign 0 steps c0 r0 \<and>
     count_in_flight (cp_agenda d) = count_in_flight (cp_agenda c0) + int (length (tr_submitted r))"
proof -
  have "(case fst (tick sample_engine sample_campaign 0) of Inl e \<Rightarrow> False | Inr x \<Rightarrow> True)" by code_simp
  then obtain r d io where t: "tick sample_engine sample_campaign 0 = (Inr (r, d), io)"
    by (cases "tick sample_engine sample_campaign 0") (auto split: sum.splits)
  from tick_caps [OF sample_wf t] t show ?thesis by blast
qed

text \<open>
  C6: Decision points are edge triggered and never lost: a tick adds to the stored callbacks exactly one
  per leaf that is terminal at its end and had another status before, with the matching kind, and returns
  them (with long texts cut) in its result.
\<close>

theorem callbacks_are_transitions:
  assumes "wf_agenda (cp_agenda c)" "tick en c w = (Inr (r, d), io)"
  shows "\<exists>cbs. cp_callbacks d = cp_callbacks c @ cbs \<and> r = compact_failures (r\<lparr>tr_callbacks := cbs\<rparr>) \<and>
     distinct (map cb_path cbs) \<and> cb_mark ` set cbs = set (transitions (statuses_before c) (cp_agenda d))"
proof -
  from tick_callbacks [OF assms] obtain cbs where "cp_callbacks d = cp_callbacks c @ cbs"
    "r = compact_failures (r\<lparr>tr_callbacks := cbs\<rparr>)" "distinct (map cb_path cbs)"
    "cb_mark ` set cbs = set (transitions (statuses_before c) (cp_agenda d))" .
  then show ?thesis by blast
qed

definition sample_failing :: "nat engine" where
  "sample_failing = sample_engine\<lparr>en_submit := (\<lambda>w sp key. (SubmitError ''rejected'' (Some ''bad'') None, w))\<rparr>"

theorem callbacks_are_transitions_witness:
  "\<exists>r d io cbs. tick sample_failing sample_campaign 0 = (Inr (r, d), io) \<and>
     cp_callbacks d = cp_callbacks sample_campaign @ cbs \<and>
     cb_mark ` set cbs = set (transitions (statuses_before sample_campaign) (cp_agenda d)) \<and>
     cbs \<noteq> []"
proof -
  have "(case fst (tick sample_failing sample_campaign 0) of Inl e \<Rightarrow> False | Inr (r, d) \<Rightarrow> cp_callbacks d \<noteq> [])" by code_simp
  then obtain r d io where t: "tick sample_failing sample_campaign 0 = (Inr (r, d), io)" "cp_callbacks d \<noteq> []"
    by (cases "tick sample_failing sample_campaign 0") (auto split: sum.splits)
  moreover have "cp_callbacks sample_campaign = []" by (simp add: sample_campaign_def)
  ultimately show ?thesis using callbacks_are_transitions [OF sample_wf t(1)] by fastforce
qed


section \<open>Planning\<close>

text \<open>
  C7: A plan respects the budget as a batch: charging every submission it proposes, in order, leaves the
  usage within all the caps it was within at first, core-hours and GPU-hours rounded as floats included.
\<close>

theorem plan_within_budget:
  assumes "next_actions pyd g states b u = Some steps" "b64_usage u"
    and "within_budget b (u\<lparr>us_jobs_running := count_in_flight (apply_states g states)\<rparr>)"
  shows "within_budget b (planned_usage pyd (u\<lparr>us_jobs_running := count_in_flight (apply_states g states)\<rparr>) steps)"
  by (rule planned_usage_fits [OF assms(1) [unfolded next_actions_def Let_def] assms(3)])
    (use assms(2) in \<open>simp add: b64_usage_def\<close>)

definition sample_agenda :: agenda_group where
  "sample_agenda = AgendaGroup ''root''
     [(''a'', ESim (new_sim ''a'' [(''sim'', JInt 1)] None None)),
      (''b'', ESim (new_sim ''b'' [(''sim'', JInt 2)] None None))] None []"

definition sample_budget :: budget where
  "sample_budget = no_budget\<lparr>bg_max_total_jobs := Some 1\<rparr>"

lemma sample_plan:
  "map_option (map st_action) (next_actions sample_pydantic sample_agenda [] sample_budget no_usage) = Some [ActSubmit, ActWait]"
  by code_simp

theorem plan_within_budget_witness:
  "\<exists>steps. next_actions sample_pydantic sample_agenda [] sample_budget no_usage = Some steps \<and>
     map st_action steps = [ActSubmit, ActWait] \<and>
     within_budget sample_budget (planned_usage sample_pydantic
       (no_usage\<lparr>us_jobs_running := count_in_flight (apply_states sample_agenda [])\<rparr>) steps)"
proof -
  obtain steps where s: "next_actions sample_pydantic sample_agenda [] sample_budget no_usage = Some steps"
    "map st_action steps = [ActSubmit, ActWait]" using sample_plan by auto
  have "within_budget sample_budget (no_usage\<lparr>us_jobs_running := count_in_flight (apply_states sample_agenda [])\<rparr>)"
    by (simp add: within_budget_def sample_budget_def no_budget_def no_usage_def)
  then have "within_budget sample_budget (planned_usage sample_pydantic
       (no_usage\<lparr>us_jobs_running := count_in_flight (apply_states sample_agenda [])\<rparr>) steps)"
    by (rule plan_within_budget [OF s(1) b64_no_usage])
  with s show ?thesis by (intro exI [of _ steps] conjI)
qed

text \<open>
  C8: A leaf is planned for submission only when it is planned and each of its dependencies resolves to an
  entry whose leaves are all done and none of which failed.
\<close>

theorem submit_needs_dependencies:
  assumes "next_actions pyd g states b u = Some steps" "step \<in> set steps" "st_action step = ActSubmit"
  shows "\<exists>s. (st_path step, s) \<in> set (simulations (apply_states g states)) \<and> st_spec step = sim_spec s \<and>
     sim_status s = Planned \<and> (\<forall>d \<in> set (sim_depends_on s). \<exists>e. subtree_done e \<and> \<not> subtree_failed e \<and>
       resolve_dependency d
         (map_of (dict_of (index_parents (grp_entries (apply_states g states)) (grp_entries (apply_states g states)) '''')) (st_path step))
         (dict_of (index_paths (grp_entries (apply_states g states)) '''')) = Some e)"
proof -
  from plan_leaves_submit [OF assms(1) [unfolded next_actions_def Let_def] assms(2,3)]
  obtain s where s: "(st_path step, s) \<in> set (simulations (apply_states g states))" "st_spec step = sim_spec s"
    "sim_status s = Planned" and d: "\<forall>d \<in> set (sim_depends_on s). \<exists>e. resolve_dependency d
         (map_of (dict_of (index_parents (grp_entries (apply_states g states)) (grp_entries (apply_states g states)) '''')) (st_path step))
         (dict_of (index_paths (grp_entries (apply_states g states)) '''')) = Some e \<and> subtree_done e \<and> \<not> subtree_failed e"
    by (elim exE conjE)
  show ?thesis by (intro exI [of _ s] conjI s) (use d in blast)
qed

lemma sample_plan_done:
  "map_option (map (\<lambda>st. (st_path st, st_action st)))
     (next_actions sample_pydantic (cp_agenda sample_campaign) [(''a'', ''results.ready'')] no_budget no_usage)
   = Some [(''a'', ActDone), (''b'', ActSubmit)]"
  by code_simp

theorem submit_needs_dependencies_witness:
  "\<exists>steps step s. next_actions sample_pydantic (cp_agenda sample_campaign) [(''a'', ''results.ready'')] no_budget no_usage
      = Some steps \<and> step \<in> set steps \<and> st_path step = ''b'' \<and>
      (''b'', s) \<in> set (simulations (apply_states (cp_agenda sample_campaign) [(''a'', ''results.ready'')])) \<and>
      sim_status s = Planned"
proof -
  obtain x y where s: "next_actions sample_pydantic (cp_agenda sample_campaign) [(''a'', ''results.ready'')] no_budget no_usage
      = Some [x, y]" "st_path y = ''b''" "st_action y = ActSubmit" using sample_plan_done by (auto simp: map_eq_Cons_conv)
  from submit_needs_dependencies [OF s(1) _ s(3)] s show ?thesis by fastforce
qed

section \<open>Identities\<close>

text \<open>
  The command id of a submission identifies the campaign's name, the leaf's path and its spec up to
  the order of dict keys, as long as the truncated hash does not collide on the texts hashed.
\<close>

theorem command_id_identifies:
  assumes "idempotency_key_for lib c p sp = idempotency_key_for lib c' p' sp'"
    and "collision_free lib (hashed_texts lib c p sp \<union> hashed_texts lib c' p' sp')"
    and "CHR 0x00 \<notin> set (cp_name c @ cp_name c' @ p @ p')"
    and "float_free (JObj sp)" "float_free (JObj sp')"
  shows "cp_name c = cp_name c' \<and> p = p' \<and> json_eq (JObj sp) (JObj sp')"
  using idempotency_key_inject [OF assms] .

theorem command_id_identifies_witness:
  "json_eq (JObj [(''sim'', JInt 1), (''x'', JBool True)]) (JObj [(''x'', JBool True), (''sim'', JInt 1)])"
proof -
  let ?a = "[(''sim'', JInt 1), (''x'', JBool True)]" and ?b = "[(''x'', JBool True), (''sim'', JInt 1)]"
  have j: "json_dumps (lb_frepr sample_lib) (JObj ?a) = json_dumps (lb_frepr sample_lib) (JObj ?b)" by code_simp
  then have k: "idempotency_key_for sample_lib sample_campaign ''a'' ?a = idempotency_key_for sample_lib sample_campaign ''a'' ?b"
    by (simp add: idempotency_key_for_def spec_hash_def)
  have "collision_free sample_lib (hashed_texts sample_lib sample_campaign ''a'' ?a \<union> hashed_texts sample_lib sample_campaign ''a'' ?b)"
  proof -
    have "hashed_texts sample_lib sample_campaign ''a'' ?b = hashed_texts sample_lib sample_campaign ''a'' ?a"
      using j by (simp add: hashed_texts_def key_seed_def spec_hash_def)
    moreover have "take 32 (key_seed sample_lib sample_campaign ''a'' ?a) \<noteq> take 32 (json_dumps (lb_frepr sample_lib) (JObj ?a))"
      by code_simp
    ultimately show ?thesis
      by (auto simp: collision_free_def hashed_texts_def inj_on_def sample_lib_def)
  qed
  from command_id_identifies [OF k this] show ?thesis by (simp add: sample_campaign_def)
qed





section \<open>The agenda tree\<close>

text \<open>
  In a well-formed agenda each path names one leaf, and rewriting the leaf at a path changes that leaf
  and no other; the agenda stays well formed.
\<close>

theorem update_leaf_exact:
  assumes "wf_agenda g"
  shows "distinct (map fst (simulations g)) \<and> wf_agenda (update_leaf g path f) \<and>
    leaf_at (update_leaf g path f) q = map_option (if q = path then f else id) (leaf_at g q) \<and>
    leaf_at g q = map_of (simulations g) q"
  using simulations_distinct [OF assms] leaf_at_update [OF assms] leaf_at_map_of [OF assms] assms by simp

theorem update_leaf_exact_witness:
  "leaf_at (update_leaf (cp_agenda sample_campaign) ''b'' (sim_status_update (\<lambda>x. Failed))) ''b''
     = map_option (sim_status_update (\<lambda>x. Failed)) (leaf_at (cp_agenda sample_campaign) ''b'')"
  using update_leaf_exact [OF sample_wf, of "''b''" "sim_status_update (\<lambda>x. Failed)" "''b''"] by simp

text \<open>
  Expanding a sweep keeps every leaf there was and adds exactly one planned leaf per value, in order,
  each with its sweep point and the spec synthesised from it; a name that is illegal or taken is refused
  instead of overwritten.
\<close>

theorem expand_adds_one_leaf_per_value:
  assumes "group_expand frepr g sw syn base_name = Inr g'" "wf_agenda g"
  shows "wf_agenda g' \<and> simulations g' = simulations g @
      map (\<lambda>v. let s = sweep_leaf frepr sw syn (if truthy base_name then the base_name else grp_name g) v
               in (sim_name s, s)) (sw_values sw)"
  using group_expand_leaves [OF assms(1)] assms(2) by blast

definition sample_sweep :: agenda_sweep where
  "sample_sweep = \<lparr>sw_parameter = ''a0'', sw_values = [SInt 1, SInt 2], sw_unit = None\<rparr>"

theorem expand_adds_one_leaf_per_value_witness:
  "case group_expand (\<lambda>f. []) (cp_agenda sample_campaign) sample_sweep (\<lambda>p. []) (Some ''base'') of
     Inl e \<Rightarrow> False | Inr g' \<Rightarrow> wf_agenda g' \<and> length (simulations g') = 4"
proof (cases "group_expand (\<lambda>f. []) (cp_agenda sample_campaign) sample_sweep (\<lambda>p. []) (Some ''base'')")
  case (Inl e)
  have "\<not> isl (group_expand (\<lambda>f. []) (cp_agenda sample_campaign) sample_sweep (\<lambda>p. []) (Some ''base''))" by code_simp
  with Inl show ?thesis by simp
next
  case (Inr g')
  have n: "length (simulations (cp_agenda sample_campaign)) = 2" by code_simp
  from expand_adds_one_leaf_per_value [OF Inr sample_wf] have "wf_agenda g'"
    and "length (simulations g') = length (simulations (cp_agenda sample_campaign)) + length (sw_values sample_sweep)"
    by simp_all
  with Inr n show ?thesis by (simp add: sample_sweep_def)
qed

text \<open>
  C11: \<open>add\<close> never replaces an entry: when it succeeds the old leaves are a prefix of the new ones, every new
  name is legal and was free, and the agenda stays well formed.
\<close>

theorem add_never_overwrites:
  assumes "group_add pv g args = Inr g'" "wf_agenda g" "list_all (arg_ok pv) args"
  shows "wf_agenda g' \<and> (\<exists>new. simulations g' = simulations g @ new) \<and>
    keys (grp_entries g') = keys (grp_entries g) @ map fst args \<and>
    set (map fst args) \<inter> set (keys (grp_entries g)) = {} \<and> (\<forall>n \<in> set (map fst args). legal_name n)"
proof -
  from assms(1) obtain es where es: "add_entries pv (grp_entries g) args = Inr es" "g' = with_entries g es"
    by (auto simp: group_add_def bind_res_Inr_iff)
  from add_entries_Inr [OF es(1)] obtain new where new: "es = grp_entries g @ new" "keys new = map fst args"
    "set (map fst args) \<inter> set (keys (grp_entries g)) = {}" "\<forall>n \<in> set (map fst args). legal_name n"
    by (elim exE conjE)
  have "keys (grp_entries g') = keys (grp_entries g) @ map fst args"
    unfolding es(2) grp_with_entries new(1) map_append new(2) ..
  with new(3,4) group_add_wf [OF assms] group_add_leaves [OF assms(1)] show ?thesis by (intro conjI)
qed

theorem add_never_overwrites_witness:
  "\<exists>g'. group_add (\<lambda>b s. None) (cp_agenda sample_campaign) [(''x'', AEntry (ESim (new_sim ''y'' [] None None)))] = Inr g' \<and>
     keys (grp_entries g') = [''a'', ''b'', ''x'']"
proof -
  let ?args = "[(''x'', AEntry (ESim (new_sim ''y'' [] None None)))]"
  have "(case group_add (\<lambda>b s. None) (cp_agenda sample_campaign) ?args of Inl e \<Rightarrow> False | Inr g' \<Rightarrow> True)" by code_simp
  then obtain g' where g: "group_add (\<lambda>b s. None) (cp_agenda sample_campaign) ?args = Inr g'" by (auto split: sum.splits)
  have "list_all (arg_ok (\<lambda>b s. None)) ?args" by (simp add: arg_ok_def coerce_entry_def)
  from add_never_overwrites [OF g sample_wf this] g show ?thesis by (simp add: sample_campaign_def)
qed

section \<open>Reuse, deferral and views\<close>



text \<open>
  The event of any outstanding run of a spec, the first submitted or a later one, makes the spec's
  result reusable under that run's identity.
\<close>

theorem event_completes_its_record:
  assumes "awaited_at reg h rid" "rid \<noteq> []" "wf_registry reg" "\<forall>k. awaited_at reg k rid \<longrightarrow> k = h"
  shows "\<exists>r. lookup (promote reg rid ''done'') h = Some r \<and> ru_run_id r = Some rid"
  using promote_completes [OF assms] .

theorem event_completes_its_record_witness:
  "\<exists>r. lookup (promote sample_registry ''r2'' ''done'') ''h2'' = Some r \<and> ru_run_id r = Some ''r2''"
proof (rule event_completes_its_record)
  show "awaited_at sample_registry ''h2'' ''r2''"
    by (simp add: awaited_at_def awaits_def sample_registry_def sample_record_def pending_state_def)
  show "\<forall>k. awaited_at sample_registry k ''r2'' \<longrightarrow> k = ''h2''"
    by (auto simp: awaited_at_def awaits_def sample_registry_def sample_record_def pending_state_def split: if_splits)
qed (simp_all add: wf_registry_def sample_registry_def sample_record_def)



text \<open>
  C17: The status view counts every leaf under exactly one status, lists as deferred exactly the planned
  leaves with a lost acknowledgement, and reports the campaign complete exactly when no leaf is planned,
  submitted or running.
\<close>

theorem status_view_adds_up:
  "get_or (cs_counts (engine_status en c)) st 0 = count_of st (simulations (cp_agenda c)) \<and>
   int (length (cs_leaves (engine_status en c))) = (\<Sum>x \<in> {Planned, Submitted, Running, Done, Failed}.
     get_or (cs_counts (engine_status en c)) x 0) \<and>
   cs_deferred (engine_status en c) = map fst (filter (\<lambda>(p, s). is_deferred s) (simulations (cp_agenda c))) \<and>
   (cs_complete (engine_status en c) \<longleftrightarrow>
     (\<Sum>x \<in> {Planned, Submitted, Running}. get_or (cs_counts (engine_status en c)) x 0) = 0)"
proof -
  have d: "cs_deferred (engine_status en c) = map fst (filter (\<lambda>(p, s). is_deferred s) (simulations (cp_agenda c)))"
    using tally_deferred [of "observe_suspects en" "simulations (cp_agenda c)" zero_counts "[]" "[]"]
    by (auto simp: engine_status_def Let_def split: prod.splits)
  have l: "length (cs_leaves (engine_status en c)) = length (simulations (cp_agenda c))"
    by (auto simp: engine_status_def Let_def split: prod.splits)
  have k: "cs_complete (engine_status en c) = is_complete (cp_agenda c)"
    by (auto simp: engine_status_def Let_def split: prod.splits)
  have nn: "count_of x ls \<ge> 0" for x ls by (simp add: count_of_def)
  show ?thesis unfolding status_counts d l k is_complete_iff
    using count_of_sum [of "simulations (cp_agenda c)"] nn [of _ "simulations (cp_agenda c)"]
    by (auto simp: add_nonneg_eq_0_iff)
qed

text \<open>
  The digest of a tick's failures loses nothing: the groups have distinct keys, each group lists in
  order exactly the paths that failed with its code, stage and reason, and together they list as many paths
  as leaves failed; the texts it returns are cut to at most 514 characters.
\<close>

theorem failure_digest_complete:
  "distinct (keys (failure_groups cbs)) \<and>
   map_of (failure_groups cbs) k = (case filter (failed_with k) cbs of [] \<Rightarrow> None
     | cb # rest \<Rightarrow> Some \<lparr>fg_error_code = cb_error_code cb, fg_stage = cb_stage cb,
         fg_message = truncate_text (failure_reason cb), fg_paths = map cb_path (cb # rest)\<rparr>) \<and>
   sum_list (map (\<lambda>g. length (fg_paths g)) (map snd (failure_groups cbs)))
     = length (filter (\<lambda>cb. cb_kind cb = KFailed) cbs) \<and>
   length (truncate_text t) \<le> 514"
  by (intro conjI failure_groups_distinct failure_groups_lookup failure_groups_total truncate_text_length)



end
